(* ===== verification/Prelude.thy ===== *)
theory Prelude
  imports Main "HOL-Library.Char_ord" "HOL-Library.List_Lexorder"
    "HOL-Library.Product_Lexorder" "HOL-Library.Finite_Map" "HOL-Library.AList"
    "HOL-Library.Word"
begin

text \<open>
  What every component shares: the Go types the model uses, the conversions between
  integer widths, and the generic facts on association lists, sorted lists and prefixes
  that the component proofs rest on.

  A Go string is a sequence of bytes, so it is a \<^typ>\<open>char list\<close>; the order on it is
  the bytewise order of \<open>strings.Compare\<close> and of \<open><\<close> on Go strings. A \<open>[]byte\<close> is
  \<^const>\<open>None\<close> for the nil slice, since the code tells nil from empty
  (\<open>out.Status == nil\<close> in \<open>internal/store/memory.go\<close>). A \<open>map[string]string\<close> is a
  finite map; a nil map and an empty one are the same value, because no code under
  \<open>internal\<close> distinguishes them (\<open>jsonbMap\<close> sends nil to the empty map).
\<close>

section \<open>Go types\<close>

type_synonym bytes = "string option"
type_synonym str_map = "(string, string) fmap"

definition bytes_of :: "bytes \<Rightarrow> string" where
  "bytes_of b = (case b of None \<Rightarrow> '''' | Some s \<Rightarrow> s)"

definition blen :: "bytes \<Rightarrow> nat" where
  "blen b = length (bytes_of b)"

text \<open>Reading a missing key of a Go map of strings gives the zero value.\<close>

definition map_index :: "str_map \<Rightarrow> string \<Rightarrow> string" where
  "map_index m k = (case fmlookup m k of None \<Rightarrow> '''' | Some v \<Rightarrow> v)"

text \<open>
  Machine integers: an \<open>int32\<close> or \<open>int64\<close> is an \<^typ>\<open>int\<close> in range, and a conversion
  or an addition wraps around in two's complement.
\<close>

definition int32 :: "int \<Rightarrow> int" where
  "int32 x = signed_take_bit 31 x"

definition int64 :: "int \<Rightarrow> int" where
  "int64 x = signed_take_bit 63 x"

abbreviation max_int64 :: int where
  "max_int64 \<equiv> 9223372036854775807"

lemma int32_id [simp]: "- 2147483648 \<le> x \<Longrightarrow> x < 2147483648 \<Longrightarrow> int32 x = x"
  by (simp add: int32_def signed_take_bit_int_eq_self)

lemma int64_id [simp]: "- 9223372036854775808 \<le> x \<Longrightarrow> x < 9223372036854775808 \<Longrightarrow> int64 x = x"
  by (simp add: int64_def signed_take_bit_int_eq_self)

lemma int64_range: "- 9223372036854775808 \<le> int64 x \<and> int64 x < 9223372036854775808"
  using signed_take_bit_int_greater_eq_minus_exp [of 63 x] signed_take_bit_int_less_exp [of 63 x]
  by (simp add: int64_def)

section \<open>Association lists as Go maps\<close>

text \<open>
  A Go map whose entries the code ranges over is an association list with distinct
  keys: its order is the (unspecified) iteration order.
\<close>

lemma distinct_fst_update [simp, intro]:
  "distinct (map fst xs) \<Longrightarrow> distinct (map fst (AList.update k v xs))"
  by (rule AList.distinct_update)

lemma map_of_AList_update [simp]: "map_of (AList.update k v xs) = (map_of xs)(k \<mapsto> v)"
  by (simp add: AList.update_conv')

lemma set_AList_update:
  "distinct (map fst xs) \<Longrightarrow>
    set (AList.update k v xs) = {(k, v)} \<union> {p \<in> set xs. fst p \<noteq> k}"
proof (induction xs)
  case Nil
  then show ?case by simp
next
  case (Cons x xs)
  then show ?case by (cases x) force
qed

section \<open>Lists\<close>

lemma take_filter_empty_iff: "filter P xs = [] \<longleftrightarrow> (\<forall>x\<in>set xs. \<not> P x)"
  by (induction xs) auto

text \<open>A strictly sorted list is determined by its set.\<close>

lemma sorted_key_set_unique:
  fixes f :: "'a \<Rightarrow> 'k::linorder"
  assumes "sorted (map f xs)" "distinct (map f xs)"
    and "sorted (map f ys)" "distinct (map f ys)"
    and "set xs = set ys" "inj_on f (set xs)"
  shows "xs = ys"
  using assms by (intro map_sorted_distinct_set_unique) auto

lemma sorted_distinct_key_sort:
  "distinct (map f xs) \<Longrightarrow> sorted (map f (sort_key f xs)) \<and> distinct (map f (sort_key f xs))"
  by (simp add: distinct_map)

lemma inj_on_distinct_map: "distinct (map f xs) \<Longrightarrow> inj_on f (set xs)"
  by (simp add: distinct_map)

lemma distinct_map_filter' [simp, intro]: "distinct (map f xs) \<Longrightarrow> distinct (map f (filter P xs))"
  by (rule distinct_map_filter)

lemma last_take_Suc: "0 < n \<Longrightarrow> n \<le> length xs \<Longrightarrow> last (take n xs) = xs ! (n - 1)"
  by (induction xs arbitrary: n) (auto simp: take_Cons' nth_Cons' split: if_splits)

end
