(* ===== verification/GoJson.thy ===== *)
theory GoJson
  imports Prelude
begin

text \<open>
  What \<open>internal/store/jsoneq.go\<close> uses of Go's \<open>encoding/json\<close>: \<open>json.Unmarshal\<close> into
  an \<open>any\<close> and \<open>reflect.DeepEqual\<close> on the result, and on top of them \<open>jsonEqual\<close>.
  The text is first cut into tokens and then run through a parser with an explicit stack,
  as the package's scanner is one; both are structural recursions over the input, so the
  model always returns. A number is the \<open>float64\<close> nearest to its literal (ties to even),
  strings are decoded with Go's replacement of invalid UTF-8 and lone surrogates, the last
  of several equal keys wins, and nesting beyond 10000 is an error.
\<close>

section \<open>Values\<close>

text \<open>
  A finite \<open>float64\<close> is \<open>m * 2 ^ e\<close> with \<open>m\<close> odd, or \<open>F64 0 0\<close> (the two zeros are
  equal under \<open>==\<close>). The entries of an object are sorted by key, so that equality of
  values is \<open>reflect.DeepEqual\<close> on the decoded maps and slices.
\<close>

datatype f64 = F64 int int

datatype json =
    JNull
  | JBool bool
  | JNum f64
  | JStr string
  | JArr "json list"
  | JObj "(string \<times> json) list"

fun obj_put :: "(string \<times> json) list \<Rightarrow> string \<Rightarrow> json \<Rightarrow> (string \<times> json) list" where
  "obj_put [] k v = [(k, v)]"
| "obj_put ((k', v') # es) k v =
     (if k = k' then (k, v) # es
      else if k < k' then (k, v) # (k', v') # es
      else (k', v') # obj_put es k v)"

section \<open>Numbers\<close>

definition is_digit :: "char \<Rightarrow> bool" where
  "is_digit c \<longleftrightarrow> c \<in> set ''0123456789''"

definition digit_val :: "char \<Rightarrow> nat" where
  "digit_val c = (of_char c :: nat) - 48"

definition digits_val :: "string \<Rightarrow> nat" where
  "digits_val ds = foldl (\<lambda>n c. 10 * n + digit_val c) 0 ds"

fun bit_len :: "nat \<Rightarrow> nat" where
  "bit_len n = (if n = 0 then 0 else Suc (bit_len (n div 2)))"

declare bit_len.simps [simp del]

fun strip_twos :: "nat \<Rightarrow> nat \<Rightarrow> int \<Rightarrow> nat \<times> int" where
  "strip_twos 0 m e = (m, e)"
| "strip_twos (Suc k) m e = (if m \<noteq> 0 \<and> even m then strip_twos k (m div 2) (e + 1) else (m, e))"

definition round_half_even :: "nat \<Rightarrow> nat \<Rightarrow> nat" where
  "round_half_even a b = (let q = a div b; r = a mod b in
     if 2 * r < b \<or> 2 * r = b \<and> even q then q else q + 1)"

text \<open>
  \<open>strconv.ParseFloat(s, 64)\<close> of a literal of value \<open>num / den\<close>: 53 significant bits, a
  least exponent of -1074, and a range error at \<open>2 ^ 1024\<close>.
\<close>

definition nearest_f64 :: "bool \<Rightarrow> nat \<Rightarrow> nat \<Rightarrow> f64 option" where
  "nearest_f64 neg num den =
     (if num = 0 then Some (F64 0 0)
      else
        (let scaled = (\<lambda>e::int. (num * 2 ^ nat (- e), den * 2 ^ nat e));
             e0 = int (bit_len num) - int (bit_len den) - 53;
             e1 = (if 2 ^ 53 * snd (scaled e0) \<le> fst (scaled e0) then e0 + 1 else e0);
             e = max e1 (- 1074);
             m = round_half_even (fst (scaled e)) (snd (scaled e));
             (m', e') = strip_twos 64 m e
         in if e > 971 \<or> e = 971 \<and> 2 ^ 53 \<le> m then None
            else if m = 0 then Some (F64 0 0)
            else Some (F64 ((if neg then - 1 else 1) * int m') e')))"

text \<open>The grammar of a number literal: sign, integer part, fraction and exponent.\<close>

definition num_parts :: "string \<Rightarrow> (bool \<times> string \<times> string \<times> int) option" where
  "num_parts s =
     (let neg = (case s of c # _ \<Rightarrow> c = CHR ''-'' | [] \<Rightarrow> False);
          s1 = (if neg then tl s else s);
          ip = takeWhile is_digit s1;
          s2 = dropWhile is_digit s1;
          has_frac = (case s2 of c # _ \<Rightarrow> c = CHR ''.'' | [] \<Rightarrow> False);
          fp = (if has_frac then takeWhile is_digit (tl s2) else '''');
          s3 = (if has_frac then dropWhile is_digit (tl s2) else s2);
          has_exp = (case s3 of c # _ \<Rightarrow> c = CHR ''e'' \<or> c = CHR ''E'' | [] \<Rightarrow> False);
          s4 = (if has_exp then tl s3 else s3);
          eneg = (case s4 of c # _ \<Rightarrow> has_exp \<and> c = CHR ''-'' | [] \<Rightarrow> False);
          esgn = (case s4 of c # _ \<Rightarrow> has_exp \<and> (c = CHR ''-'' \<or> c = CHR ''+'') | [] \<Rightarrow> False);
          s5 = (if esgn then tl s4 else s4)
      in if ip = '''' \<or> (hd ip = CHR ''0'' \<and> tl ip \<noteq> '''') \<or> (has_frac \<and> fp = '''')
            \<or> (has_exp \<and> (s5 = '''' \<or> dropWhile is_digit s5 \<noteq> '''')) \<or> (\<not> has_exp \<and> s5 \<noteq> '''')
         then None
         else Some (neg, ip, fp,
                (if has_exp then (if eneg then - 1 else 1) * int (digits_val s5) else 0)))"

text \<open>\<^const>\<open>None\<close> for a literal outside the grammar or out of the range of \<open>float64\<close>.\<close>

definition parse_number :: "string \<Rightarrow> f64 option" where
  "parse_number s =
     (case num_parts s of
        None \<Rightarrow> None
      | Some (neg, ip, fp, ex) \<Rightarrow>
          (let x = ex - int (length fp); d = digits_val (ip @ fp)
           in nearest_f64 neg (d * 10 ^ nat x) (10 ^ nat (- x))))"

section \<open>Strings\<close>

text \<open>
  The length of the well-formed UTF-8 sequence at the head of a string, 0 if there is
  none (\<open>utf8.DecodeRune\<close> would give \<open>RuneError\<close> of width 1).
\<close>

fun utf8_len :: "nat list \<Rightarrow> nat" where
  "utf8_len [] = 0"
| "utf8_len (b0 # bs) =
     (let cont = (\<lambda>i lo hi. i < length bs \<and> lo \<le> bs ! i \<and> bs ! i \<le> hi) in
      if b0 < 0x80 then 1
      else if 0xC2 \<le> b0 \<and> b0 \<le> 0xDF then (if cont 0 0x80 0xBF then 2 else 0)
      else if 0xE0 \<le> b0 \<and> b0 \<le> 0xEF then
        (if cont 0 (if b0 = 0xE0 then 0xA0 else 0x80) (if b0 = 0xED then 0x9F else 0xBF)
            \<and> cont 1 0x80 0xBF then 3 else 0)
      else if 0xF0 \<le> b0 \<and> b0 \<le> 0xF4 then
        (if cont 0 (if b0 = 0xF0 then 0x90 else 0x80) (if b0 = 0xF4 then 0x8F else 0xBF)
            \<and> cont 1 0x80 0xBF \<and> cont 2 0x80 0xBF then 4 else 0)
      else 0)"

definition utf8_encode :: "nat \<Rightarrow> string" where
  "utf8_encode r = map char_of
     (if r < 0x80 then [r]
      else if r < 0x800 then [0xC0 + r div 64, 0x80 + r mod 64]
      else if r < 0x10000 then [0xE0 + r div 4096, 0x80 + r div 64 mod 64, 0x80 + r mod 64]
      else [0xF0 + r div 262144, 0x80 + r div 4096 mod 64, 0x80 + r div 64 mod 64, 0x80 + r mod 64])"

definition rune_error :: string where
  "rune_error = utf8_encode 0xFFFD"

definition hex_val :: "char \<Rightarrow> nat option" where
  "hex_val c = (let n = of_char c :: nat in
     if 48 \<le> n \<and> n \<le> 57 then Some (n - 48)
     else if 97 \<le> n \<and> n \<le> 102 then Some (n - 87)
     else if 65 \<le> n \<and> n \<le> 70 then Some (n - 55)
     else None)"

text \<open>\<open>getu4\<close>: the four hex digits after \<open>\u\<close>.\<close>

fun getu4 :: "string \<Rightarrow> nat option" where
  "getu4 (a # b # c # d # _) =
     (case (hex_val a, hex_val b, hex_val c, hex_val d) of
        (Some w, Some x, Some y, Some z) \<Rightarrow> Some (((w * 16 + x) * 16 + y) * 16 + z)
      | _ \<Rightarrow> None)"
| "getu4 _ = None"

definition is_surrogate :: "nat \<Rightarrow> bool" where
  "is_surrogate r \<longleftrightarrow> 0xD800 \<le> r \<and> r < 0xE000"

text \<open>
  \<open>unquote\<close> on the text between the quotes. The first argument counts bytes still to be
  copied verbatim (the rest of a UTF-8 sequence) or, negative, to be skipped (the rest of
  an escape already translated).
\<close>

fun unquote :: "int \<Rightarrow> string \<Rightarrow> string option" where
  "unquote n [] = Some []"
| "unquote n (c # cs) =
     (if n > 0 then map_option (Cons c) (unquote (n - 1) cs)
      else if n < 0 then unquote (n + 1) cs
      else if (of_char c :: nat) < 0x20 then None
      else if c = CHR 0x5C then
        (case cs of
           [] \<Rightarrow> None
         | e # rest \<Rightarrow>
             if e = CHR ''u'' then
               (case getu4 rest of
                  None \<Rightarrow> None
                | Some r \<Rightarrow>
                    if is_surrogate r then
                      (case (if take 2 (drop 4 rest) = [CHR 0x5C, CHR ''u''] then getu4 (drop 6 rest) else None) of
                         Some r2 \<Rightarrow>
                           if r < 0xDC00 \<and> 0xDC00 \<le> r2 \<and> r2 < 0xE000 then
                             map_option ((@) (utf8_encode ((r - 0xD800) * 1024 + (r2 - 0xDC00) + 0x10000)))
                               (unquote (- 11) cs)
                           else map_option ((@) rune_error) (unquote (- 5) cs)
                       | None \<Rightarrow> map_option ((@) rune_error) (unquote (- 5) cs))
                    else map_option ((@) (utf8_encode r)) (unquote (- 5) cs))
             else
               (case map_of (zip [CHR 0x22, CHR 0x5C, CHR ''/'', CHR ''b'', CHR ''f'', CHR ''n'', CHR ''r'', CHR ''t'']
                       [CHR 0x22, CHR 0x5C, CHR ''/'', CHR 0x08, CHR 0x0C, CHR 0x0A, CHR 0x0D, CHR 0x09]) e of
                  None \<Rightarrow> None
                | Some d \<Rightarrow> map_option (Cons d) (unquote (- 1) cs)))
      else
        (let w = utf8_len (map of_char (c # cs)) in
         if w = 0 then map_option ((@) rune_error) (unquote 0 cs)
         else map_option (Cons c) (unquote (int w - 1) cs)))"

section \<open>Tokens\<close>

datatype token =
    TPunct char
  | TStr string
  | TNum f64
  | TLit json

datatype lexst = L0 | LStr string bool | LWord string

definition json_space :: "char \<Rightarrow> bool" where
  "json_space c \<longleftrightarrow> c = CHR '' '' \<or> c = CHR 0x09 \<or> c = CHR 0x0A \<or> c = CHR 0x0D"

definition word_char :: "char \<Rightarrow> bool" where
  "word_char c \<longleftrightarrow> c \<in> set ''+-.0123456789abcdefghijklmnopqrstuvwxyzABCDEFGHIJKLMNOPQRSTUVWXYZ''"

definition word_token :: "string \<Rightarrow> token option" where
  "word_token w =
     (if w = ''true'' then Some (TLit (JBool True))
      else if w = ''false'' then Some (TLit (JBool False))
      else if w = ''null'' then Some (TLit JNull)
      else map_option TNum (parse_number w))"

definition lex_start :: "char \<Rightarrow> (token list \<times> lexst) option" where
  "lex_start c =
     (if json_space c then Some ([], L0)
      else if c \<in> set ''{}[]:,'' then Some ([TPunct c], L0)
      else if c = CHR 0x22 then Some ([], LStr '''' False)
      else if word_char c then Some ([], LWord [c])
      else None)"

text \<open>Accumulated text is kept in reverse.\<close>

fun lex_step :: "lexst \<Rightarrow> char \<Rightarrow> (token list \<times> lexst) option" where
  "lex_step L0 c = lex_start c"
| "lex_step (LStr raw esc) c =
     (if esc then Some ([], LStr (c # raw) False)
      else if c = CHR 0x22 then map_option (\<lambda>s. ([TStr s], L0)) (unquote 0 (rev raw))
      else Some ([], LStr (c # raw) (c = CHR 0x5C)))"
| "lex_step (LWord w) c =
     (if word_char c then Some ([], LWord (c # w))
      else case word_token (rev w) of
             None \<Rightarrow> None
           | Some t \<Rightarrow> map_option (\<lambda>(ts, st). (t # ts, st)) (lex_start c))"

fun lex_end :: "lexst \<Rightarrow> token list option" where
  "lex_end L0 = Some []"
| "lex_end (LStr _ _) = None"
| "lex_end (LWord w) = map_option (\<lambda>t. [t]) (word_token (rev w))"

fun lex :: "lexst \<Rightarrow> string \<Rightarrow> token list option" where
  "lex st [] = lex_end st"
| "lex st (c # cs) =
     (case lex_step st c of
        None \<Rightarrow> None
      | Some (ts, st') \<Rightarrow> map_option ((@) ts) (lex st' cs))"

section \<open>Parsing\<close>

datatype frame = FArr "json list" | FObj "(string \<times> json) list" string

datatype pmode = PVal | PValOrEnd | PKeyOrEnd | PKey | PColon | PAfter json

definition maxNestingDepth :: nat where
  "maxNestingDepth = 10000"

definition pvalue :: "frame list \<Rightarrow> token \<Rightarrow> (pmode \<times> frame list) option" where
  "pvalue stk t =
     (case t of
        TStr s \<Rightarrow> Some (PAfter (JStr s), stk)
      | TNum n \<Rightarrow> Some (PAfter (JNum n), stk)
      | TLit v \<Rightarrow> Some (PAfter v, stk)
      | TPunct c \<Rightarrow>
          if maxNestingDepth \<le> length stk then None
          else if c = CHR ''['' then Some (PValOrEnd, FArr [] # stk)
          else if c = CHR ''{'' then Some (PKeyOrEnd, FObj [] '''' # stk)
          else None)"

fun pafter :: "json \<Rightarrow> frame list \<Rightarrow> char \<Rightarrow> (pmode \<times> frame list) option" where
  "pafter v [] c = None"
| "pafter v (FArr vs # stk) c =
     (if c = CHR '','' then Some (PVal, FArr (v # vs) # stk)
      else if c = CHR '']'' then Some (PAfter (JArr (rev (v # vs))), stk)
      else None)"
| "pafter v (FObj es k # stk) c =
     (if c = CHR '','' then Some (PKey, FObj (obj_put es k v) '''' # stk)
      else if c = CHR ''}'' then Some (PAfter (JObj (obj_put es k v)), stk)
      else None)"

fun pstep :: "pmode \<times> frame list \<Rightarrow> token \<Rightarrow> (pmode \<times> frame list) option" where
  "pstep (PVal, stk) t = pvalue stk t"
| "pstep (PValOrEnd, stk) t =
     (if t = TPunct (CHR '']'') then Some (PAfter (JArr []), tl stk) else pvalue stk t)"
| "pstep (PKeyOrEnd, FObj es _ # stk) t =
     (case t of
        TStr k \<Rightarrow> Some (PColon, FObj es k # stk)
      | TPunct c \<Rightarrow> if c = CHR ''}'' then Some (PAfter (JObj es), stk) else None
      | _ \<Rightarrow> None)"
| "pstep (PKey, FObj es _ # stk) t =
     (case t of TStr k \<Rightarrow> Some (PColon, FObj es k # stk) | _ \<Rightarrow> None)"
| "pstep (PColon, stk) t = (if t = TPunct (CHR '':'') then Some (PVal, stk) else None)"
| "pstep (PAfter v, stk) t = (case t of TPunct c \<Rightarrow> pafter v stk c | _ \<Rightarrow> None)"
| "pstep _ _ = None"

fun prun :: "pmode \<times> frame list \<Rightarrow> token list \<Rightarrow> (pmode \<times> frame list) option" where
  "prun s [] = Some s"
| "prun s (t # ts) = (case pstep s t of None \<Rightarrow> None | Some s' \<Rightarrow> prun s' ts)"

definition json_Unmarshal :: "string \<Rightarrow> json option" where
  "json_Unmarshal s =
     (case lex L0 s of
        None \<Rightarrow> None
      | Some ts \<Rightarrow>
          (case prun (PVal, []) ts of
             Some (PAfter v, []) \<Rightarrow> Some v
           | _ \<Rightarrow> None))"

section \<open>jsonEqual\<close>

definition jsonEqual :: "bytes \<Rightarrow> bytes \<Rightarrow> bool" where
  "jsonEqual a b =
     (if blen a = 0 \<or> blen b = 0 then blen a = blen b
      else case json_Unmarshal (bytes_of a) of
             None \<Rightarrow> False
           | Some av \<Rightarrow>
               (case json_Unmarshal (bytes_of b) of
                  None \<Rightarrow> False
                | Some bv \<Rightarrow> av = bv))"

text \<open>
  The documents \<open>jsonEqual\<close> can compare: the empty one and those that parse. On them it is
  an equivalence; on the others it is false, even of a document and itself.
\<close>

definition json_doc :: "bytes \<Rightarrow> bool" where
  "json_doc b \<longleftrightarrow> blen b = 0 \<or> json_Unmarshal (bytes_of b) \<noteq> None"

definition json_value :: "bytes \<Rightarrow> json option" where
  "json_value b = (if blen b = 0 then None else json_Unmarshal (bytes_of b))"

lemma jsonEqual_iff: "jsonEqual a b \<longleftrightarrow> json_doc a \<and> json_doc b \<and> json_value a = json_value b"
  by (auto simp: jsonEqual_def json_doc_def json_value_def split: option.splits)

lemma jsonEqual_refl_iff [simp]: "jsonEqual a a \<longleftrightarrow> json_doc a"
  by (simp add: jsonEqual_iff)

lemma jsonEqual_sym: "jsonEqual a b \<Longrightarrow> jsonEqual b a"
  by (simp add: jsonEqual_iff)

lemma jsonEqual_trans: "jsonEqual a b \<Longrightarrow> jsonEqual b c \<Longrightarrow> jsonEqual a c"
  by (simp add: jsonEqual_iff)

lemma jsonEqual_docs: "jsonEqual a b \<Longrightarrow> json_doc a \<and> json_doc b"
  by (simp add: jsonEqual_iff)

lemma json_doc_None [simp]: "json_doc None"
  by (simp add: json_doc_def blen_def bytes_of_def)

end
