(* ===== verification/PageToken.thy ===== *)
theory PageToken
  imports Prelude
begin

text \<open>
  Page tokens and page sizes of \<open>internal/store/pagetoken.go\<close>: \<open>clampPageSize\<close>,
  \<open>encodePageToken\<close> and \<open>decodePageToken\<close>, over Go's \<open>base64.RawURLEncoding\<close> (URL
  alphabet, no padding, not strict). The lemmas show that a token decodes to the pair it
  was made from whenever the colony holds no NUL, and which strings are rejected.
\<close>

section \<open>Errors of the store\<close>

text \<open>
  \<open>internal/store/errors.go\<close>: the four sentinel errors. A Go error is the sentinel it
  wraps, if any, with its text; \<open>errors.Is\<close> looks at the sentinel.
\<close>

datatype sentinel = ErrNotFound | ErrConflict | ErrImmutable | ErrInvalidPageToken

datatype go_error = GoError (err_is: "sentinel option") (err_text: string)

fun sentinel_text :: "sentinel \<Rightarrow> string" where
  "sentinel_text ErrNotFound = ''store: resource not found''"
| "sentinel_text ErrConflict = ''store: resource version conflict''"
| "sentinel_text ErrImmutable = ''store: resource spec is immutable''"
| "sentinel_text ErrInvalidPageToken = ''store: invalid page token''"

definition errors_Is :: "go_error \<Rightarrow> sentinel \<Rightarrow> bool" where
  "errors_Is e s \<longleftrightarrow> err_is e = Some s"

text \<open>\<open>fmt.Errorf("%w: ...", sentinel, ...)\<close>.\<close>

definition wrap_err :: "sentinel \<Rightarrow> string \<Rightarrow> go_error" where
  "wrap_err s msg = GoError (Some s) (sentinel_text s @ '': '' @ msg)"

lemma errors_Is_wrap_err [simp]: "errors_Is (wrap_err s msg) t \<longleftrightarrow> s = t"
  by (simp add: errors_Is_def wrap_err_def)

lemma err_is_wrap_err [simp]: "err_is (wrap_err s msg) = Some s"
  by (simp add: wrap_err_def)

section \<open>Page sizes\<close>

definition MaxPageSize :: int where
  "MaxPageSize = 1000"

definition DefaultPageSize :: int where
  "DefaultPageSize = 500"

definition clampPageSize :: "int \<Rightarrow> int" where
  "clampPageSize n =
    (if n \<le> 0 then DefaultPageSize
     else if n > MaxPageSize then MaxPageSize
     else n)"

lemma clampPageSize_bounds: "1 \<le> clampPageSize n \<and> clampPageSize n \<le> 1000"
  by (simp add: clampPageSize_def DefaultPageSize_def MaxPageSize_def)

lemma clampPageSize_id: "1 \<le> n \<Longrightarrow> n \<le> 1000 \<Longrightarrow> clampPageSize n = n"
  by (simp add: clampPageSize_def MaxPageSize_def)

lemma clampPageSize_pos [simp]: "0 < clampPageSize n"
  using clampPageSize_bounds [of n] by linarith

lemma clampPageSize_not_le [simp]: "\<not> clampPageSize n \<le> 0"
  using clampPageSize_bounds [of n] by linarith

lemma nat_clampPageSize_pos [simp]: "0 < nat (clampPageSize n)"
  using clampPageSize_bounds [of n] by linarith

section \<open>base64.RawURLEncoding\<close>

definition b64_alphabet :: string where
  "b64_alphabet = ''ABCDEFGHIJKLMNOPQRSTUVWXYZabcdefghijklmnopqrstuvwxyz0123456789-_''"

definition b64_char :: "nat \<Rightarrow> char" where
  "b64_char n = b64_alphabet ! n"

text \<open>
  The decode map: each digit of the alphabet to its position, \<^const>\<open>None\<close> for any
  other byte.
\<close>

definition b64_val :: "char \<Rightarrow> nat option" where
  "b64_val = map_of (zip b64_alphabet [0..<64])"

fun b64_sextets :: "nat list \<Rightarrow> nat list" where
  "b64_sextets [] = []"
| "b64_sextets [a] = [a div 4, (a mod 4) * 16]"
| "b64_sextets [a, b] = [a div 4, (a mod 4) * 16 + b div 16, (b mod 16) * 4]"
| "b64_sextets (a # b # c # cs) =
     [a div 4, (a mod 4) * 16 + b div 16, (b mod 16) * 4 + c div 64, c mod 64] @ b64_sextets cs"

definition b64_encode :: "string \<Rightarrow> string" where
  "b64_encode s = map b64_char (b64_sextets (map of_char s))"

text \<open>
  The decoder works in quanta of four digits; a final quantum of two or three digits
  gives one or two bytes (the left-over bits are not checked), a final single digit is a
  corrupt input.
\<close>

fun b64_bytes :: "nat list \<Rightarrow> nat list option" where
  "b64_bytes [] = Some []"
| "b64_bytes [_] = None"
| "b64_bytes [p, q] = Some [p * 4 + q div 16]"
| "b64_bytes [p, q, r] = Some [p * 4 + q div 16, (q mod 16) * 16 + r div 4]"
| "b64_bytes (p # q # r # t # rest) =
     map_option (\<lambda>bs. [p * 4 + q div 16, (q mod 16) * 16 + r div 4, (r mod 4) * 64 + t] @ bs)
       (b64_bytes rest)"

text \<open>Every byte outside the alphabet is a corrupt input, but for CR and LF, which are skipped.\<close>

fun b64_values :: "string \<Rightarrow> nat list option" where
  "b64_values [] = Some []"
| "b64_values (c # cs) =
     (if c = CHR 0x0A \<or> c = CHR 0x0D then b64_values cs
      else case b64_val c of
             None \<Rightarrow> None
           | Some v \<Rightarrow> map_option (Cons v) (b64_values cs))"

definition b64_decode :: "string \<Rightarrow> string option" where
  "b64_decode s =
     (case b64_values s of
        None \<Rightarrow> None
      | Some vs \<Rightarrow> map_option (map char_of) (b64_bytes vs))"

lemma b64_alphabet_facts:
  "length b64_alphabet = 64" "distinct b64_alphabet"
  "CHR 0x0A \<notin> set b64_alphabet" "CHR 0x0D \<notin> set b64_alphabet"
  by (simp_all add: b64_alphabet_def)

lemma b64_val_char: "n < 64 \<Longrightarrow> b64_val (b64_char n) = Some n"
  by (simp add: b64_val_def b64_char_def map_of_zip_nth b64_alphabet_facts)

lemma b64_char_not_newline: "n < 64 \<Longrightarrow> b64_char n \<noteq> CHR 0x0A \<and> b64_char n \<noteq> CHR 0x0D"
  by (metis b64_alphabet_facts(1,3,4) b64_char_def nth_mem)

lemma b64_sextets_bound: "\<forall>b\<in>set bs. b < 256 \<Longrightarrow> v \<in> set (b64_sextets bs) \<Longrightarrow> v < 64"
  by (induction bs rule: b64_sextets.induct) (auto simp: div_less_iff_less_mult)

lemma b64_values_chars:
  "\<forall>v\<in>set vs. v < 64 \<Longrightarrow> b64_values (map b64_char vs) = Some vs"
  by (induction vs) (auto simp: b64_val_char b64_char_not_newline)

lemma b64_bytes_sextets: "\<forall>b\<in>set bs. b < 256 \<Longrightarrow> b64_bytes (b64_sextets bs) = Some bs"
  by (induction bs rule: b64_sextets.induct) (auto simp: div_mult2_eq [symmetric])

lemma map_char_of_of_char [simp]: "map (char_of \<circ> (of_char :: char \<Rightarrow> nat)) s = s"
  by (induction s) auto

lemma b64_decode_encode: "b64_decode (b64_encode s) = Some s"
proof -
  let ?bs = "map of_char s :: nat list"
  have b: "\<forall>b\<in>set ?bs. b < 256" by auto
  then have "b64_values (b64_encode s) = Some (b64_sextets ?bs)"
    using b64_sextets_bound unfolding b64_encode_def by (intro b64_values_chars) blast
  then show ?thesis
    using b64_bytes_sextets [OF b] by (simp add: b64_decode_def)
qed

section \<open>Page tokens\<close>

definition pageTokenSep :: char where
  "pageTokenSep = CHR 0x00"

definition encodePageToken :: "string \<Rightarrow> string \<Rightarrow> string" where
  "encodePageToken colony name = b64_encode (colony @ [pageTokenSep] @ name)"

text \<open>\<open>strings.Cut\<close> at a one-byte separator: the parts around its first occurrence.\<close>

definition strings_Cut :: "string \<Rightarrow> char \<Rightarrow> string \<times> string \<times> bool" where
  "strings_Cut s c =
     (if c \<in> set s then (takeWhile (\<lambda>x. x \<noteq> c) s, tl (dropWhile (\<lambda>x. x \<noteq> c) s), True)
      else (s, '''', False))"

definition decodePageToken :: "string \<Rightarrow> go_error + (string \<times> string)" where
  "decodePageToken token =
     (if token = '''' then Inr ('''', '''')
      else case b64_decode token of
        None \<Rightarrow> Inl (wrap_err ErrInvalidPageToken ''page token is not valid base64'')
      | Some raw \<Rightarrow>
          (case strings_Cut raw pageTokenSep of (colony, name, found) \<Rightarrow>
             if \<not> found then Inl (wrap_err ErrInvalidPageToken ''page token is malformed'')
             else Inr (colony, name)))"

lemma takeWhile_until: "c \<notin> set xs \<Longrightarrow> takeWhile (\<lambda>x. x \<noteq> c) (xs @ c # ys) = xs"
  by (induction xs) auto

lemma dropWhile_until: "c \<notin> set xs \<Longrightarrow> dropWhile (\<lambda>x. x \<noteq> c) (xs @ c # ys) = c # ys"
  by (induction xs) auto

lemma strings_Cut_append: "c \<notin> set xs \<Longrightarrow> strings_Cut (xs @ c # ys) c = (xs, ys, True)"
  by (simp add: strings_Cut_def takeWhile_until dropWhile_until)

lemma b64_sextets_nonempty: "bs \<noteq> [] \<Longrightarrow> b64_sextets bs \<noteq> []"
  by (cases bs rule: b64_sextets.cases) auto

lemma encodePageToken_nonempty [simp]: "encodePageToken colony name \<noteq> ''''"
  by (simp add: encodePageToken_def b64_encode_def b64_sextets_nonempty)

lemma decode_encodePageToken:
  "pageTokenSep \<notin> set colony \<Longrightarrow> decodePageToken (encodePageToken colony name) = Inr (colony, name)"
  using encodePageToken_nonempty [of colony name]
  by (simp add: decodePageToken_def encodePageToken_def b64_decode_encode strings_Cut_append)

text \<open>Every error of the decoder is the page-token sentinel.\<close>

lemma decodePageToken_error: "decodePageToken t = Inl e \<Longrightarrow> errors_Is e ErrInvalidPageToken"
  by (auto simp: decodePageToken_def split: if_splits option.splits prod.splits)

end
