(* ===== verification/StoreTypes.thy ===== *)
theory StoreTypes
  imports GoJson PageToken
begin

text \<open>
  The data model of \<open>internal/store/store.go\<close> and \<open>internal/store/watch.go\<close>: resources,
  list options and results, watch events, the two store interfaces as records of
  functions, the immutable kinds and \<open>classifyWatchEvent\<close>; and \<open>newUID\<close> of
  \<open>internal/store/uid.go\<close>.
\<close>

section \<open>Resources\<close>

definition DefaultAPIVersion :: string where
  "DefaultAPIVersion = ''hived/v1alpha1''"

text \<open>
  A \<open>time.Time\<close> is the number of nanoseconds since the zero time, so that \<open>IsZero\<close> is
  \<open>t = 0\<close>.
\<close>

type_synonym time = int

record resource =
  r_Kind :: string
  r_APIVersion :: string
  r_Colony :: string
  r_Name :: string
  r_UID :: string
  r_Generation :: int
  r_ResourceVersion :: int
  r_Labels :: str_map
  r_Annotations :: str_map
  r_Spec :: bytes
  r_Status :: bytes
  r_CreatedAt :: time
  r_UpdatedAt :: time
  r_DeletedAt :: "time option"

definition empty_resource :: resource where
  "empty_resource = \<lparr>r_Kind = '''', r_APIVersion = '''', r_Colony = '''', r_Name = '''',
     r_UID = '''', r_Generation = 0, r_ResourceVersion = 0, r_Labels = fmempty,
     r_Annotations = fmempty, r_Spec = None, r_Status = None, r_CreatedAt = 0,
     r_UpdatedAt = 0, r_DeletedAt = None\<rparr>"

type_synonym resKey = "string \<times> string \<times> string"

definition key_of :: "resource \<Rightarrow> resKey" where
  "key_of r = (r_Kind r, r_Colony r, r_Name r)"

definition ImmutableKinds :: "string list" where
  "ImmutableKinds = [''AgentVersion'']"

definition IsImmutableKind :: "string \<Rightarrow> bool" where
  "IsImmutableKind kind \<longleftrightarrow> kind \<in> set ImmutableKinds"

text \<open>The text \<open>%s/%s/%s\<close> of the store's errors.\<close>

definition key_text :: "string \<Rightarrow> string \<Rightarrow> string \<Rightarrow> string" where
  "key_text kind colony name = kind @ ''/'' @ colony @ ''/'' @ name"

section \<open>Listing\<close>

record list_options =
  lo_Colony :: string
  lo_LabelSelector :: str_map
  lo_PageSize :: int
  lo_PageToken :: string

definition empty_list_options :: list_options where
  "empty_list_options = \<lparr>lo_Colony = '''', lo_LabelSelector = fmempty, lo_PageSize = 0,
     lo_PageToken = ''''\<rparr>"

record list_result =
  lr_Items :: "resource list"
  lr_NextPageToken :: string
  lr_ResourceVersion :: int

section \<open>Watching\<close>

datatype watch_event_type = WatchAdded | WatchModified | WatchDeleted | WatchBookmark

record watch_event =
  we_Type :: watch_event_type
  we_ResourceVersion :: int
  we_Object :: resource

text \<open>
  \<open>classifyWatchEvent\<close> reads and extends the set of UIDs the session has seen; the set is
  the model's explicit state.
\<close>

definition classifyWatchEvent :: "resource \<Rightarrow> string list \<Rightarrow> watch_event_type \<times> string list" where
  "classifyWatchEvent r seen =
     (let wasSeen = r_UID r \<in> set seen;
          seen' = r_UID r # seen
      in (if r_DeletedAt r \<noteq> None then WatchDeleted
          else if \<not> wasSeen then WatchAdded
          else WatchModified, seen'))"

lemma classifyWatchEvent_seen [simp]: "snd (classifyWatchEvent r seen) = r_UID r # seen"
  by (simp add: classifyWatchEvent_def Let_def)

lemma classifyWatchEvent_not_bookmark [simp]: "fst (classifyWatchEvent r seen) \<noteq> WatchBookmark"
  by (simp add: classifyWatchEvent_def Let_def)

section \<open>Events\<close>

record event =
  e_Colony :: string
  e_Run :: string
  e_Seq :: int
  e_Type :: string
  e_TS :: time
  e_Payload :: bytes
  e_ResourceVersion :: int

section \<open>What an operation takes from outside\<close>

text \<open>
  The clock and the random source are arguments of each operation that reads them: the
  value of \<open>time.Now().UTC()\<close> (or of SQL \<open>now()\<close>) and the UID the operation would assign.
\<close>

record env =
  env_now :: time
  env_uid :: string

text \<open>
  \<open>newUID\<close>: sixteen random bytes with the version and variant bits of a version 4 UUID,
  printed in hexadecimal. \<open>rand.Read\<close> fills the slice and returns no error (Go 1.24 and
  later abort the process instead), so the panic branch is not reached.
\<close>

definition hex_byte :: "8 word \<Rightarrow> string" where
  "hex_byte b = map (\<lambda>n. ''0123456789abcdef'' ! n) [unat b div 16, unat b mod 16]"

unbundle bit_operations_syntax

definition uid_bytes :: "8 word list \<Rightarrow> 8 word list" where
  "uid_bytes b = b[6 := (b ! 6 AND 0x0f) OR 0x40, 8 := (b ! 8 AND 0x3f) OR 0x80]"

definition newUID :: "8 word list \<Rightarrow> string" where
  "newUID b = (let u = uid_bytes b; h = (\<lambda>i n. concat (map hex_byte (take n (drop i u)))) in
     h 0 4 @ ''-'' @ h 4 2 @ ''-'' @ h 6 2 @ ''-'' @ h 8 2 @ ''-'' @ h 10 6)"

section \<open>The store interfaces\<close>

text \<open>
  \<open>ResourceStore\<close> and \<open>EventStore\<close> as values: the handlers of \<open>internal/api\<close> hold one and
  call through it. An operation takes the store's state and returns its result with the
  new state; a failed operation returns the error on the left.
\<close>

record 's ResourceStore =
  rs_Apply :: "env \<Rightarrow> resource \<Rightarrow> int option \<Rightarrow> 's \<Rightarrow> (go_error + resource) \<times> 's"
  rs_Get :: "string \<Rightarrow> string \<Rightarrow> string \<Rightarrow> 's \<Rightarrow> go_error + resource"
  rs_List :: "string \<Rightarrow> list_options \<Rightarrow> 's \<Rightarrow> go_error + list_result"
  rs_ApplyStatus :: "env \<Rightarrow> resource \<Rightarrow> 's \<Rightarrow> (go_error + resource) \<times> 's"

record 's EventStore =
  es_Append :: "env \<Rightarrow> event \<Rightarrow> 's \<Rightarrow> (go_error + event) \<times> 's"
  es_ListEvents :: "string \<Rightarrow> string \<Rightarrow> int \<Rightarrow> int \<Rightarrow> 's \<Rightarrow> go_error + event list"

end
