(* ===== verification/StoreContract.thy ===== *)
theory StoreContract
  imports StoreTypes
begin

text \<open>
  The contract of \<open>ResourceStore\<close> (\<open>internal/store/store.go\<close>) that both stores keep and
  the handlers rely on, as a locale over the store's operations, and what follows from it
  for any sequence of writes: versions never go back, an immutable spec never changes, the
  generation counts spec changes.
\<close>

section \<open>Sequences of writes\<close>

datatype store_op =
    OpApply env resource "int option"
  | OpStatus env resource

definition op_step :: "'s ResourceStore \<Rightarrow> store_op \<Rightarrow> 's \<Rightarrow> 's" where
  "op_step S w s =
     (case w of
        OpApply e r v \<Rightarrow> snd (rs_Apply S e r v s)
      | OpStatus e r \<Rightarrow> snd (rs_ApplyStatus S e r s))"

fun op_run :: "'s ResourceStore \<Rightarrow> store_op list \<Rightarrow> 's \<Rightarrow> 's" where
  "op_run S [] s = s"
| "op_run S (w # ws) s = op_run S ws (op_step S w s)"

lemma op_run_append: "op_run S (ws @ ws') s = op_run S ws' (op_run S ws s)"
  by (induction ws arbitrary: s) auto

text \<open>
  A client never sends a soft-deletion time: \<open>resourceFromMeta\<close> does not copy it.
\<close>

fun client_op :: "store_op \<Rightarrow> bool" where
  "client_op (OpApply e r v) \<longleftrightarrow> r_DeletedAt r = None"
| "client_op (OpStatus e r) \<longleftrightarrow> True"

text \<open>
  Each write takes at most two versions, so this many writes fit before the 64-bit
  counter is exhausted.
\<close>

definition room :: "int \<Rightarrow> store_op list \<Rightarrow> bool" where
  "room v ws \<longleftrightarrow> v + 2 * int (length ws) \<le> max_int64"

lemma room_Cons: "room v (w # ws) \<longleftrightarrow> v + 2 + 2 * int (length ws) \<le> max_int64"
  by (simp add: room_def algebra_simps)

section \<open>The contract\<close>

text \<open>
  \<open>live s\<close> is what the store holds under a key, \<open>version s\<close> its watermark. \<open>same ex r\<close>: the
  spec of \<open>r\<close> is the stored one; \<open>changed ex r\<close>: applying \<open>r\<close> over \<open>ex\<close> is a real change.
\<close>

locale resource_store =
  fixes S :: "'s ResourceStore"
    and inv :: "'s \<Rightarrow> bool"
    and live :: "'s \<Rightarrow> resKey \<Rightarrow> resource option"
    and version :: "'s \<Rightarrow> int"
    and same :: "resource \<Rightarrow> resource \<Rightarrow> bool"
    and changed :: "resource \<Rightarrow> resource \<Rightarrow> bool"
  assumes get_live: "inv s \<Longrightarrow> live s (k, c, n) = Some r \<Longrightarrow> rs_Get S k c n s = Inr r"
    and get_dead: "inv s \<Longrightarrow> live s (k, c, n) = None \<Longrightarrow> \<exists>err. rs_Get S k c n s = Inl err"
    and live_ok: "inv s \<Longrightarrow> live s p = Some r \<Longrightarrow>
      key_of r = p \<and> 1 \<le> r_Generation r \<and> r_Generation r \<le> r_ResourceVersion r
      \<and> r_ResourceVersion r \<le> version s"
    and apply_inv: "inv s \<Longrightarrow> r_DeletedAt r = None \<Longrightarrow> version s + 2 \<le> max_int64 \<Longrightarrow>
      rs_Apply S e r v s = (res, s') \<Longrightarrow> inv s' \<and> version s \<le> version s' \<and> version s' \<le> version s + 2"
    and apply_error: "inv s \<Longrightarrow> rs_Apply S e r v s = (Inl err, s') \<Longrightarrow> live s' = live s"
    and apply_live: "inv s \<Longrightarrow> rs_Apply S e r v s = (Inr out, s') \<Longrightarrow>
      live s' = (live s)(key_of r \<mapsto> out)"
    and apply_create: "inv s \<Longrightarrow> version s + 2 \<le> max_int64 \<Longrightarrow> live s (key_of r) = None \<Longrightarrow>
      rs_Apply S e r v s = (Inr out, s') \<Longrightarrow>
      r_Generation out = 1 \<and> version s < r_ResourceVersion out"
    and apply_update: "inv s \<Longrightarrow> version s + 2 \<le> max_int64 \<Longrightarrow> live s (key_of r) = Some ex \<Longrightarrow>
      \<not> IsImmutableKind (r_Kind r) \<Longrightarrow> rs_Apply S e r v s = (Inr out, s') \<Longrightarrow>
      r_UID out = r_UID ex \<and> r_CreatedAt out = r_CreatedAt ex
      \<and> r_Generation out = r_Generation ex + (if same ex r then 0 else 1)
      \<and> (if changed ex r then version s < r_ResourceVersion out
         else r_ResourceVersion out = r_ResourceVersion ex)"
    and apply_conflict: "inv s \<Longrightarrow> live s (key_of r) = Some ex \<Longrightarrow> \<not> IsImmutableKind (r_Kind r) \<Longrightarrow>
      rs_Apply S e r (Some rv) s = (Inr out, s') \<Longrightarrow> r_ResourceVersion ex = rv"
    and apply_immutable: "inv s \<Longrightarrow> live s (key_of r) = Some ex \<Longrightarrow> IsImmutableKind (r_Kind r) \<Longrightarrow>
      if jsonEqual (r_Spec ex) (r_Spec r) then rs_Apply S e r v s = (Inr ex, s)
      else \<exists>err. rs_Apply S e r v s = (Inl err, s) \<and> errors_Is err ErrImmutable"
    and status_inv: "inv s \<Longrightarrow> version s + 2 \<le> max_int64 \<Longrightarrow> rs_ApplyStatus S e r s = (res, s') \<Longrightarrow>
      inv s' \<and> version s \<le> version s' \<and> version s' \<le> version s + 2"
    and status_error: "inv s \<Longrightarrow> rs_ApplyStatus S e r s = (Inl err, s') \<Longrightarrow> live s' = live s"
    and status_live: "inv s \<Longrightarrow> version s + 2 \<le> max_int64 \<Longrightarrow> rs_ApplyStatus S e r s = (Inr out, s') \<Longrightarrow>
      live s' = (live s)(key_of r \<mapsto> out) \<and> version s < r_ResourceVersion out \<and>
      (\<exists>ex. live s (key_of r) = Some ex \<and>
        out = ex\<lparr>r_Status := r_Status out, r_ResourceVersion := r_ResourceVersion out,
                r_UpdatedAt := r_UpdatedAt out\<rparr>)"
begin

lemma op_step_inv:
  assumes "inv s" "client_op w" "version s + 2 \<le> max_int64"
  shows "inv (op_step S w s) \<and> version s \<le> version (op_step S w s)
    \<and> version (op_step S w s) \<le> version s + 2"
proof (cases w)
  case (OpApply e r v)
  then show ?thesis
    using apply_inv [OF assms(1) _ assms(3), of r e v] assms(2)
    by (cases "rs_Apply S e r v s") (simp add: op_step_def)
next
  case (OpStatus e r)
  then show ?thesis
    using status_inv [OF assms(1) assms(3), of e r]
    by (cases "rs_ApplyStatus S e r s") (simp add: op_step_def)
qed

lemma op_run_inv:
  "inv s \<Longrightarrow> \<forall>w\<in>set ws. client_op w \<Longrightarrow> room (version s) ws \<Longrightarrow>
    inv (op_run S ws s) \<and> version s \<le> version (op_run S ws s)
    \<and> version (op_run S ws s) \<le> version s + 2 * int (length ws)"
proof (induction ws arbitrary: s)
  case Nil
  then show ?case by simp
next
  case (Cons w ws)
  let ?s = "op_step S w s"
  have s: "inv ?s" "version s \<le> version ?s" "version ?s \<le> version s + 2"
    using op_step_inv [of s w] Cons.prems by (auto simp: room_def)
  moreover have "room (version ?s) ws"
    using Cons.prems(3) s by (simp add: room_def)
  ultimately show ?case
    using Cons.IH [of ?s] Cons.prems(2) by simp
qed

text \<open>What one write does to the resource under a key.\<close>

lemma op_step_live:
  assumes "inv s" "client_op w" "version s + 2 \<le> max_int64" "live s k = Some ex"
  obtains r where "live (op_step S w s) k = Some r"
    and "r_ResourceVersion ex \<le> r_ResourceVersion r" and "r_Generation ex \<le> r_Generation r"
    and "r_UID r = r_UID ex"
    and "IsImmutableKind (fst k) \<Longrightarrow> r_Spec r = r_Spec ex \<and> r_Generation r = r_Generation ex"
proof -
  have ex: "key_of ex = k" "r_ResourceVersion ex \<le> version s"
    using live_ok [OF assms(1,4)] by auto
  show thesis
  proof (cases w)
    case (OpApply e r v)
    obtain res s' where a: "rs_Apply S e r v s = (res, s')" by fastforce
    show thesis
    proof (cases "\<exists>out. res = Inr out \<and> key_of r = k")
      case False
      then have "live s' k = live s k"
        using a apply_error [OF assms(1)] apply_live [OF assms(1)] by (cases res) auto
      with a assms(4) OpApply show thesis
        by (intro that [of ex]) (auto simp: op_step_def)
    next
      case True
      then obtain out where out: "res = Inr out" "key_of r = k" by blast
      have l: "live s' k = Some out" using apply_live [OF assms(1)] a out by auto
      have kind: "r_Kind r = fst k" using out(2) by (auto simp: key_of_def)
      show thesis
      proof (cases "IsImmutableKind (r_Kind r)")
        case True
        then have "out = ex"
          using apply_immutable [OF assms(1), of r ex e v] assms(4) a out
          by (auto split: if_splits)
        with a l OpApply show thesis by (intro that [of ex]) (auto simp: op_step_def)
      next
        case False
        then show thesis
          using apply_update [OF assms(1,3), of r ex e v out s'] assms(4) a out l ex(2) kind OpApply
          by (intro that [of out]) (auto simp: op_step_def split: if_splits)
      qed
    qed
  next
    case (OpStatus e r)
    obtain res s' where a: "rs_ApplyStatus S e r s = (res, s')" by fastforce
    show thesis
    proof (cases "\<exists>out. res = Inr out \<and> key_of r = k")
      case False
      then have "live s' k = live s k"
        using a status_error [OF assms(1)] status_live [OF assms(1,3)] by (cases res) auto
      with a assms(4) OpStatus show thesis
        by (intro that [of ex]) (auto simp: op_step_def)
    next
      case True
      then obtain out where out: "res = Inr out" "key_of r = k" by blast
      from status_live [OF assms(1,3), of e r out s'] a out assms(4)
      have l: "live s' k = Some out" "version s < r_ResourceVersion out"
        and o: "out = ex\<lparr>r_Status := r_Status out, r_ResourceVersion := r_ResourceVersion out,
                r_UpdatedAt := r_UpdatedAt out\<rparr>"
        by auto
      have "r_Spec out = r_Spec ex" "r_Generation out = r_Generation ex" "r_UID out = r_UID ex"
        by (subst o, simp)+
      with a l ex(2) OpStatus show thesis
        by (intro that [of out]) (auto simp: op_step_def)
    qed
  qed
qed

lemma op_run_live:
  "inv s \<Longrightarrow> \<forall>w\<in>set ws. client_op w \<Longrightarrow> room (version s) ws \<Longrightarrow> live s k = Some ex \<Longrightarrow>
    \<exists>r. live (op_run S ws s) k = Some r \<and> r_ResourceVersion ex \<le> r_ResourceVersion r
      \<and> r_Generation ex \<le> r_Generation r \<and> r_UID r = r_UID ex
      \<and> (IsImmutableKind (fst k) \<longrightarrow> r_Spec r = r_Spec ex \<and> r_Generation r = r_Generation ex)"
proof (induction ws arbitrary: s ex)
  case Nil
  then show ?case by auto
next
  case (Cons w ws)
  have rm: "version s + 2 \<le> max_int64" using Cons.prems(3) by (simp add: room_def)
  have s: "inv (op_step S w s)" "version (op_step S w s) \<le> version s + 2"
    using op_step_inv [of s w] Cons.prems(1,2) rm by auto
  obtain r where r: "live (op_step S w s) k = Some r"
    "r_ResourceVersion ex \<le> r_ResourceVersion r" "r_Generation ex \<le> r_Generation r"
    "r_UID r = r_UID ex"
    "IsImmutableKind (fst k) \<Longrightarrow> r_Spec r = r_Spec ex \<and> r_Generation r = r_Generation ex"
    using op_step_live [of s w k ex] Cons.prems(1,2,4) rm by auto
  have "room (version (op_step S w s)) ws"
    using Cons.prems(3) s(2) by (simp add: room_def)
  from Cons.IH [OF s(1) _ this r(1)] Cons.prems(2) r(2-5) show ?case
    by fastforce
qed

lemma op_step_frozen:
  assumes "inv s" "version s + 2 \<le> max_int64" "live s k = Some ex" "IsImmutableKind (fst k)"
  obtains r where "live (op_step S w s) k = Some r"
    and "r = ex\<lparr>r_Status := r_Status r, r_ResourceVersion := r_ResourceVersion r, r_UpdatedAt := r_UpdatedAt r\<rparr>"
    and "(\<And>e q. w = OpStatus e q \<Longrightarrow> key_of q \<noteq> k) \<Longrightarrow> r = ex"
proof (cases w)
  case (OpApply e q v)
  obtain res s' where a: "rs_Apply S e q v s = (res, s')" by fastforce
  have "live s' k = Some ex"
  proof (cases "key_of q = k")
    case True
    then have "IsImmutableKind (r_Kind q)" "live s (key_of q) = Some ex" using assms(3,4) by (auto simp: key_of_def)
    with apply_immutable [OF assms(1) this(2,1), of e v] a assms(3) show ?thesis by (auto split: if_splits)
  next
    case False
    then show ?thesis using a apply_error [OF assms(1)] apply_live [OF assms(1)] assms(3) by (cases res) auto
  qed
  with a OpApply show thesis by (intro that [of ex]) (simp_all add: op_step_def)
next
  case (OpStatus e q)
  obtain res s' where a: "rs_ApplyStatus S e q s = (res, s')" by fastforce
  show thesis
  proof (cases "key_of q = k \<and> (\<exists>out. res = Inr out)")
    case True
    then obtain out where out: "key_of q = k" "res = Inr out" by blast
    with status_live [OF assms(1,2), of e q out s'] a assms(3) have "live s' k = Some out"
      "out = ex\<lparr>r_Status := r_Status out, r_ResourceVersion := r_ResourceVersion out, r_UpdatedAt := r_UpdatedAt out\<rparr>" by auto
    with a out OpStatus show thesis by (intro that [of out]) (simp_all add: op_step_def)
  next
    case False
    then have "live s' k = Some ex"
      using a status_error [OF assms(1)] status_live [OF assms(1,2)] assms(3) by (cases res) auto
    with a OpStatus show thesis by (intro that [of ex]) (simp_all add: op_step_def)
  qed
qed

text \<open>Of a resource of an immutable kind a write can only change the status; without one nothing.\<close>

lemma op_run_frozen:
  "inv s \<Longrightarrow> \<forall>w\<in>set ws. client_op w \<Longrightarrow> room (version s) ws \<Longrightarrow> live s k = Some ex \<Longrightarrow> IsImmutableKind (fst k) \<Longrightarrow>
    \<exists>r. live (op_run S ws s) k = Some r
      \<and> r = ex\<lparr>r_Status := r_Status r, r_ResourceVersion := r_ResourceVersion r, r_UpdatedAt := r_UpdatedAt r\<rparr>
      \<and> ((\<forall>e q. OpStatus e q \<in> set ws \<longrightarrow> key_of q \<noteq> k) \<longrightarrow> r = ex)"
proof (induction ws arbitrary: s ex)
  case (Cons w ws)
  have rm: "version s + 2 \<le> max_int64" using Cons.prems(3) by (simp add: room_def)
  have s: "inv (op_step S w s)" "version (op_step S w s) \<le> version s + 2"
    using op_step_inv [of s w] Cons.prems(1,2) rm by auto
  obtain r where r: "live (op_step S w s) k = Some r"
    "r = ex\<lparr>r_Status := r_Status r, r_ResourceVersion := r_ResourceVersion r, r_UpdatedAt := r_UpdatedAt r\<rparr>"
    "(\<And>e q. w = OpStatus e q \<Longrightarrow> key_of q \<noteq> k) \<Longrightarrow> r = ex"
    using op_step_frozen [OF Cons.prems(1) rm Cons.prems(4,5)] by blast
  have "room (version (op_step S w s)) ws"
    using Cons.prems(3) s(2) by (simp add: room_def)
  from Cons.IH [OF s(1) _ this r(1) Cons.prems(5)] Cons.prems(2)
  obtain r' where r': "live (op_run S ws (op_step S w s)) k = Some r'"
    "r' = r\<lparr>r_Status := r_Status r', r_ResourceVersion := r_ResourceVersion r', r_UpdatedAt := r_UpdatedAt r'\<rparr>"
    "(\<forall>e q. OpStatus e q \<in> set ws \<longrightarrow> key_of q \<noteq> k) \<longrightarrow> r' = r" by auto
  have "r' = ex\<lparr>r_Status := r_Status r', r_ResourceVersion := r_ResourceVersion r', r_UpdatedAt := r_UpdatedAt r'\<rparr>"
    by (subst r'(2), subst r(2)) simp
  with r'(1,3) r(3) show ?case by auto
qed auto

text \<open>A write gives what it changes a version past the watermark.\<close>

lemma op_step_version:
  assumes "inv s" "client_op w" "version s + 2 \<le> max_int64" "live (op_step S w s) k = Some r"
  shows "(\<exists>ex. live s k = Some ex \<and> r_ResourceVersion ex = r_ResourceVersion r)
    \<or> version s < r_ResourceVersion r"
proof (cases w)
  case (OpApply e q v)
  obtain res s' where a: "rs_Apply S e q v s = (res, s')" by fastforce
  then have l: "live s' k = Some r" using assms(4) OpApply by (simp add: op_step_def)
  show ?thesis
  proof (cases "\<exists>out. res = Inr out \<and> key_of q = k")
    case False
    then have "live s' k = live s k"
      using a apply_error [OF assms(1)] apply_live [OF assms(1)] by (cases res) auto
    with l show ?thesis by auto
  next
    case True
    then obtain out where out: "res = Inr out" "key_of q = k" by blast
    then have r: "rs_Apply S e q v s = (Inr r, s')" using a l apply_live [OF assms(1)] by auto
    show ?thesis
    proof (cases "live s k")
      case None
      with apply_create [OF assms(1,3) _ r] out(2) show ?thesis by simp
    next
      case (Some ex)
      with out(2) have ex: "live s (key_of q) = Some ex" by simp
      show ?thesis
        using apply_update [OF assms(1,3) ex _ r] apply_immutable [OF assms(1) ex, of e v] r Some
        by (cases "IsImmutableKind (r_Kind q)") (auto split: if_splits)
    qed
  qed
next
  case (OpStatus e q)
  obtain res s' where a: "rs_ApplyStatus S e q s = (res, s')" by fastforce
  then have l: "live s' k = Some r" using assms(4) OpStatus by (simp add: op_step_def)
  show ?thesis
  proof (cases res)
    case (Inl err)
    with a l status_error [OF assms(1)] show ?thesis by auto
  next
    case (Inr out)
    with a l status_live [OF assms(1,3), of e q out s'] show ?thesis by (auto split: if_splits)
  qed
qed

text \<open>No two resources have the same version.\<close>

definition versions_distinct :: "'s \<Rightarrow> bool" where
  "versions_distinct s \<longleftrightarrow> (\<forall>k k' r r'. live s k = Some r \<and> live s k' = Some r'
     \<and> r_ResourceVersion r = r_ResourceVersion r' \<longrightarrow> k = k')"

lemma op_step_one:
  assumes "inv s" "version s + 2 \<le> max_int64"
  obtains k0 where "\<And>k. k \<noteq> k0 \<Longrightarrow> live (op_step S w s) k = live s k"
proof (cases w)
  case (OpApply e q v)
  obtain res s' where a: "rs_Apply S e q v s = (res, s')" by fastforce
  then have "live s' k = live s k" if "k \<noteq> key_of q" for k
    using that apply_error [OF assms(1)] apply_live [OF assms(1)] by (cases res) auto
  with a OpApply show thesis by (intro that [of "key_of q"]) (simp add: op_step_def)
next
  case (OpStatus e q)
  obtain res s' where a: "rs_ApplyStatus S e q s = (res, s')" by fastforce
  then have "live s' k = live s k" if "k \<noteq> key_of q" for k
    using that status_error [OF assms(1)] status_live [OF assms] by (cases res) auto
  with a OpStatus show thesis by (intro that [of "key_of q"]) (simp add: op_step_def)
qed

lemma op_step_distinct:
  assumes "inv s" "client_op w" "version s + 2 \<le> max_int64" "versions_distinct s"
  shows "versions_distinct (op_step S w s)"
  unfolding versions_distinct_def
proof (intro allI impI)
  let ?s = "op_step S w s"
  obtain k0 where k0: "\<And>k. k \<noteq> k0 \<Longrightarrow> live ?s k = live s k"
    using op_step_one [OF assms(1,3)] by blast
  have one: "k = k0" if "live ?s k = Some r" "\<not> (\<exists>ex. live s k = Some ex \<and> r_ResourceVersion ex = r_ResourceVersion r)" for k r
    using that k0 [of k] by metis
  have old: "r_ResourceVersion ex \<le> version s" if "live s k = Some ex" for k ex
    using live_ok [OF assms(1) that] by simp
  fix k k' r r'
  assume a: "live ?s k = Some r \<and> live ?s k' = Some r' \<and> r_ResourceVersion r = r_ResourceVersion r'"
  then have "(\<exists>ex. live s k = Some ex \<and> r_ResourceVersion ex = r_ResourceVersion r) \<or> version s < r_ResourceVersion r"
    "(\<exists>ex. live s k' = Some ex \<and> r_ResourceVersion ex = r_ResourceVersion r') \<or> version s < r_ResourceVersion r'"
    using op_step_version [OF assms(1-3)] by blast+
  then show "k = k'"
    using a one [of k r] one [of k' r'] old assms(4) unfolding versions_distinct_def by (metis not_less)
qed

text \<open>What a caller reads back after its write, whatever the store.\<close>

lemma get_after_apply:
  assumes "inv s" "r_DeletedAt r = None" "version s + 2 \<le> max_int64"
    and "rs_Apply S e r v s = (Inr out, s')"
  shows "rs_Get S (r_Kind r) (r_Colony r) (r_Name r) s' = Inr out"
  using apply_inv [OF assms] apply_live [OF assms(1,4)] get_live by (simp add: key_of_def)

lemma get_after_status:
  assumes "inv s" "version s + 2 \<le> max_int64" "rs_ApplyStatus S e r s = (Inr out, s')"
  shows "rs_Get S (r_Kind r) (r_Colony r) (r_Name r) s' = Inr out"
  using status_inv [OF assms] status_live [OF assms] get_live by (simp add: key_of_def)

end

end
