(* ===== verification/MemoryStore.thy ===== *)
theory MemoryStore
  imports StoreContract
begin

text \<open>
  \<open>internal/store/memory.go\<close>: the in-process store behind the handler tests. The mutex
  serialises the operations, so each is one step from a state to the next. The resource
  map is an association list with distinct keys, whose order is the iteration order of the
  Go map. The deep copies of \<open>cloneResource\<close> are the identity on values.
\<close>

section \<open>State\<close>

record logEntry =
  le_Kind :: string
  le_Colony :: string
  le_Name :: string
  le_ResourceVersion :: int

record MemoryStore =
  m_resources :: "(resKey \<times> resource) list"
  m_log :: "logEntry list"
  m_seq :: int
  m_events :: "event list"
  m_eventSeq :: "(string \<times> int) list"

definition NewMemoryStore :: MemoryStore where
  "NewMemoryStore = \<lparr>m_resources = [], m_log = [], m_seq = 0, m_events = [], m_eventSeq = []\<rparr>"

definition mem_nextSeq :: "MemoryStore \<Rightarrow> int \<times> MemoryStore" where
  "mem_nextSeq m = (let n = int64 (m_seq m + 1) in (n, m\<lparr>m_seq := n\<rparr>))"

definition cloneResource :: "resource \<Rightarrow> resource" where
  "cloneResource r = r\<lparr>r_Labels := r_Labels r, r_Annotations := r_Annotations r,
     r_Spec := map_option id (r_Spec r), r_Status := map_option id (r_Status r),
     r_DeletedAt := map_option id (r_DeletedAt r)\<rparr>"

lemma cloneResource_id [simp]: "cloneResource r = r"
  by (simp add: cloneResource_def option.map_id)

section \<open>Apply, Get and ApplyStatus\<close>

text \<open>\<open>changed\<close>: whether an apply over an existing resource alters spec, labels or annotations.\<close>

definition res_changed :: "resource \<Rightarrow> resource \<Rightarrow> bool" where
  "res_changed existing r \<longleftrightarrow>
     \<not> jsonEqual (r_Spec existing) (r_Spec r) \<or>
     r_Labels existing \<noteq> r_Labels r \<or>
     r_Annotations existing \<noteq> r_Annotations r"

definition with_default_version :: "resource \<Rightarrow> resource" where
  "with_default_version r = (if r_APIVersion r = '''' then r\<lparr>r_APIVersion := DefaultAPIVersion\<rparr> else r)"

text \<open>The fields an apply over an existing resource takes from it.\<close>

definition mem_updated :: "env \<Rightarrow> resource \<Rightarrow> resource \<Rightarrow> int \<Rightarrow> resource" where
  "mem_updated e existing r next =
     (let out = (with_default_version (cloneResource r))
            \<lparr>r_UID := r_UID existing,
             r_CreatedAt := r_CreatedAt existing,
             r_Generation := (if jsonEqual (r_Spec existing) (r_Spec r) then r_Generation existing
                              else int64 (r_Generation existing + 1))\<rparr>;
          out1 = (if r_Status out = None then out\<lparr>r_Status := r_Status existing\<rparr> else out)
      in if res_changed existing r
         then out1\<lparr>r_ResourceVersion := next, r_UpdatedAt := env_now e\<rparr>
         else out1\<lparr>r_ResourceVersion := r_ResourceVersion existing,
                   r_UpdatedAt := r_UpdatedAt existing\<rparr>)"

definition mem_created :: "env \<Rightarrow> resource \<Rightarrow> int \<Rightarrow> resource" where
  "mem_created e r next = (with_default_version (cloneResource r))
     \<lparr>r_UID := env_uid e, r_CreatedAt := env_now e, r_Generation := 1,
      r_ResourceVersion := next, r_UpdatedAt := env_now e\<rparr>"

definition mem_store :: "resKey \<Rightarrow> resource \<Rightarrow> MemoryStore \<Rightarrow> MemoryStore" where
  "mem_store key out m = m\<lparr>m_resources := AList.update key out (m_resources m)\<rparr>"

definition mem_log :: "resource \<Rightarrow> int \<Rightarrow> MemoryStore \<Rightarrow> MemoryStore" where
  "mem_log r rv m = m\<lparr>m_log := m_log m @
     [\<lparr>le_Kind = r_Kind r, le_Colony = r_Colony r, le_Name = r_Name r, le_ResourceVersion = rv\<rparr>]\<rparr>"

definition mem_Apply :: "env \<Rightarrow> resource \<Rightarrow> int option \<Rightarrow> MemoryStore \<Rightarrow> (go_error + resource) \<times> MemoryStore" where
  "mem_Apply e r ifResourceVersion m =
     (let key = (r_Kind r, r_Colony r, r_Name r);
          lookup = map_of (m_resources m) key;
          text = key_text (r_Kind r) (r_Colony r) (r_Name r)
      in case lookup of
           Some existing \<Rightarrow>
             if IsImmutableKind (r_Kind r) then
               (if jsonEqual (r_Spec existing) (r_Spec r) then (Inr (cloneResource existing), m)
                else (Inl (wrap_err ErrImmutable text), m))
             else if ifResourceVersion \<noteq> None \<and> Some (r_ResourceVersion existing) \<noteq> ifResourceVersion
             then (Inl (wrap_err ErrConflict text), m)
             else if res_changed existing r then
               (let (next, m1) = mem_nextSeq m;
                    out = mem_updated e existing r next
                in (Inr (cloneResource out), mem_log r (r_ResourceVersion out) (mem_store key out m1)))
             else
               (let out = mem_updated e existing r 0
                in (Inr (cloneResource out), mem_store key out m))
         | None \<Rightarrow>
             if ifResourceVersion \<noteq> None then (Inl (wrap_err ErrConflict text), m)
             else
               (let (next, m1) = mem_nextSeq m;
                    out = mem_created e r next
                in (Inr (cloneResource out), mem_log r (r_ResourceVersion out) (mem_store key out m1))))"

definition mem_Get :: "string \<Rightarrow> string \<Rightarrow> string \<Rightarrow> MemoryStore \<Rightarrow> go_error + resource" where
  "mem_Get kind colony name m =
     (case map_of (m_resources m) (kind, colony, name) of
        None \<Rightarrow> Inl (wrap_err ErrNotFound (key_text kind colony name))
      | Some r \<Rightarrow>
          if r_DeletedAt r \<noteq> None then Inl (wrap_err ErrNotFound (key_text kind colony name))
          else Inr (cloneResource r))"

definition mem_ApplyStatus :: "env \<Rightarrow> resource \<Rightarrow> MemoryStore \<Rightarrow> (go_error + resource) \<times> MemoryStore" where
  "mem_ApplyStatus e r m =
     (let key = (r_Kind r, r_Colony r, r_Name r);
          text = key_text (r_Kind r) (r_Colony r) (r_Name r)
      in case map_of (m_resources m) key of
           None \<Rightarrow> (Inl (wrap_err ErrNotFound text), m)
         | Some existing \<Rightarrow>
             if r_DeletedAt existing \<noteq> None then (Inl (wrap_err ErrNotFound text), m)
             else
               (let (next, m1) = mem_nextSeq m;
                    existing' = existing\<lparr>r_Status := r_Status r, r_ResourceVersion := next,
                                         r_UpdatedAt := env_now e\<rparr>
                in (Inr (cloneResource existing'), mem_log r next (mem_store key existing' m1))))"

section \<open>List\<close>

definition matchesLabels :: "str_map \<Rightarrow> str_map \<Rightarrow> bool" where
  "matchesLabels labels selector \<longleftrightarrow> fmpred (\<lambda>k v. map_index labels k = v) selector"

definition list_key :: "resource \<Rightarrow> string \<times> string" where
  "list_key r = (r_Colony r, r_Name r)"

definition mem_selects :: "string \<Rightarrow> list_options \<Rightarrow> resource \<Rightarrow> bool" where
  "mem_selects kind opts r \<longleftrightarrow>
     r_Kind r = kind \<and> r_DeletedAt r = None
     \<and> (lo_Colony opts = '''' \<or> r_Colony r = lo_Colony opts)
     \<and> matchesLabels (r_Labels r) (lo_LabelSelector opts)"

text \<open>
  The cut of a page, shared with \<open>PostgresStore.List\<close>: with more items than the page
  holds, the last one that fits makes the next token. \<open>int32(len(items))\<close> is the length
  converted to 32 bits.
\<close>

definition cut_page :: "int \<Rightarrow> resource list \<Rightarrow> resource list \<times> string" where
  "cut_page pageSize items =
     (if int32 (int (length items)) > pageSize then
        (let last = items ! nat (pageSize - 1)
         in (take (nat pageSize) items, encodePageToken (r_Colony last) (r_Name last)))
      else (items, ''''))"

definition mem_List :: "string \<Rightarrow> list_options \<Rightarrow> MemoryStore \<Rightarrow> go_error + list_result" where
  "mem_List kind opts m =
     (let items = sort_key list_key (filter (mem_selects kind opts) (map (cloneResource \<circ> snd) (m_resources m)))
      in case decodePageToken (lo_PageToken opts) of
           Inl err \<Rightarrow> Inl err
         | Inr (afterColony, afterName) \<Rightarrow>
             (let rest = (if lo_PageToken opts \<noteq> '''' then
                            filter (\<lambda>r. \<not> (r_Colony r < afterColony
                                     \<or> r_Colony r = afterColony \<and> r_Name r \<le> afterName)) items
                          else items);
                  (page, token) = cut_page (clampPageSize (lo_PageSize opts)) rest
              in Inr \<lparr>lr_Items = page, lr_NextPageToken = token, lr_ResourceVersion = m_seq m\<rparr>))"

section \<open>The event log\<close>

definition event_key :: "string \<Rightarrow> string \<Rightarrow> string" where
  "event_key colony run = colony @ ''/'' @ run"

definition mem_Append :: "env \<Rightarrow> event \<Rightarrow> MemoryStore \<Rightarrow> (go_error + event) \<times> MemoryStore" where
  "mem_Append e ev m =
     (let key = event_key (e_Colony ev) (e_Run ev);
          n = int64 ((case map_of (m_eventSeq m) key of None \<Rightarrow> 0 | Some k \<Rightarrow> k) + 1);
          m1 = m\<lparr>m_eventSeq := AList.update key n (m_eventSeq m)\<rparr>;
          (rv, m2) = mem_nextSeq m1;
          ev1 = ev\<lparr>e_Seq := n, e_ResourceVersion := rv,
                   e_TS := (if e_TS ev = 0 then env_now e else e_TS ev),
                   e_Payload := map_option id (e_Payload ev)\<rparr>
      in (Inr ev1, m2\<lparr>m_events := m_events m2 @ [ev1]\<rparr>))"

text \<open>The loop of \<open>ListEvents\<close>: it stops once the page is full.\<close>

fun list_events_loop :: "(event \<Rightarrow> bool) \<Rightarrow> int \<Rightarrow> event list \<Rightarrow> event list \<Rightarrow> event list" where
  "list_events_loop P limit out [] = out"
| "list_events_loop P limit out (e # es) =
     (if P e then
        (let out1 = out @ [e] in
         if int32 (int (length out1)) \<ge> clampPageSize limit then out1
         else list_events_loop P limit out1 es)
      else list_events_loop P limit out es)"

definition mem_ListEvents :: "string \<Rightarrow> string \<Rightarrow> int \<Rightarrow> int \<Rightarrow> MemoryStore \<Rightarrow> go_error + event list" where
  "mem_ListEvents colony run sinceSeq limit m =
     Inr (list_events_loop (\<lambda>e. e_Colony e = colony \<and> e_Run e = run \<and> e_Seq e > sinceSeq)
            limit [] (m_events m))"

section \<open>The store as a value of the interfaces\<close>

definition mem_ResourceStore :: "MemoryStore ResourceStore" where
  "mem_ResourceStore = \<lparr>rs_Apply = mem_Apply, rs_Get = mem_Get, rs_List = mem_List,
     rs_ApplyStatus = mem_ApplyStatus\<rparr>"

definition mem_EventStore :: "MemoryStore EventStore" where
  "mem_EventStore = \<lparr>es_Append = mem_Append, es_ListEvents = mem_ListEvents\<rparr>"

section \<open>Invariant\<close>

definition le_key :: "logEntry \<Rightarrow> resKey" where
  "le_key l = (le_Kind l, le_Colony l, le_Name l)"

text \<open>Every resource sits under its own key, is not deleted, and carries a version below \<open>seq\<close>.\<close>

definition mem_row_ok :: "int \<Rightarrow> resKey \<Rightarrow> resource \<Rightarrow> bool" where
  "mem_row_ok sq k r \<longleftrightarrow> key_of r = k \<and> r_DeletedAt r = None \<and> 1 \<le> r_Generation r
     \<and> r_Generation r \<le> r_ResourceVersion r \<and> r_ResourceVersion r \<le> sq"

text \<open>
  The log is strictly increasing in the version, names stored resources only, and holds
  the current version of each of them.
\<close>

definition mem_log_ok :: "MemoryStore \<Rightarrow> bool" where
  "mem_log_ok m \<longleftrightarrow>
     sorted_wrt (<) (map le_ResourceVersion (m_log m))
     \<and> (\<forall>l\<in>set (m_log m). 1 \<le> le_ResourceVersion l \<and> le_ResourceVersion l \<le> m_seq m)
     \<and> (\<forall>l\<in>set (m_log m). \<exists>r. map_of (m_resources m) (le_key l) = Some r
           \<and> le_ResourceVersion l \<le> r_ResourceVersion r)
     \<and> (\<forall>k r. map_of (m_resources m) k = Some r \<longrightarrow>
           (\<exists>l\<in>set (m_log m). le_key l = k \<and> le_ResourceVersion l = r_ResourceVersion r))"

definition mem_inv :: "MemoryStore \<Rightarrow> bool" where
  "mem_inv m \<longleftrightarrow>
     distinct (map fst (m_resources m))
     \<and> (\<forall>k r. map_of (m_resources m) k = Some r \<longrightarrow> mem_row_ok (m_seq m) k r)
     \<and> 0 \<le> m_seq m \<and> m_seq m \<le> max_int64 \<and> mem_log_ok m"

lemma mem_inv_init: "mem_inv NewMemoryStore"
  by (simp add: mem_inv_def mem_log_ok_def NewMemoryStore_def)

lemma mem_inv_row: "mem_inv m \<Longrightarrow> map_of (m_resources m) k = Some r \<Longrightarrow> mem_row_ok (m_seq m) k r"
  unfolding mem_inv_def by blast

lemma mem_inv_log: "mem_inv m \<Longrightarrow> mem_log_ok m"
  unfolding mem_inv_def by blast

lemma mem_inv_seq: "mem_inv m \<Longrightarrow> 0 \<le> m_seq m \<and> m_seq m \<le> max_int64"
  unfolding mem_inv_def by blast

lemma mem_log_named: "mem_log_ok m \<Longrightarrow> l \<in> set (m_log m) \<Longrightarrow>
    \<exists>r. map_of (m_resources m) (le_key l) = Some r \<and> le_ResourceVersion l \<le> r_ResourceVersion r"
  unfolding mem_log_ok_def by blast

lemma mem_log_current: "mem_log_ok m \<Longrightarrow> map_of (m_resources m) k = Some r \<Longrightarrow>
    \<exists>l\<in>set (m_log m). le_key l = k \<and> le_ResourceVersion l = r_ResourceVersion r"
  unfolding mem_log_ok_def by blast

lemma mem_log_bounds: "mem_log_ok m \<Longrightarrow> l \<in> set (m_log m) \<Longrightarrow>
    1 \<le> le_ResourceVersion l \<and> le_ResourceVersion l \<le> m_seq m"
  unfolding mem_log_ok_def by blast

lemma mem_log_sorted: "mem_log_ok m \<Longrightarrow> sorted_wrt (<) (map le_ResourceVersion (m_log m))"
  unfolding mem_log_ok_def by blast

lemma mem_nextSeq_room: "0 \<le> m_seq m \<Longrightarrow> m_seq m < max_int64 \<Longrightarrow>
    mem_nextSeq m = (m_seq m + 1, m\<lparr>m_seq := m_seq m + 1\<rparr>)"
  by (simp add: mem_nextSeq_def Let_def)

text \<open>The write every successful operation but an unchanged re-apply makes.\<close>

definition mem_write :: "resource \<Rightarrow> MemoryStore \<Rightarrow> MemoryStore" where
  "mem_write out m = mem_log out (r_ResourceVersion out)
     (mem_store (key_of out) out (m\<lparr>m_seq := r_ResourceVersion out\<rparr>))"

lemma mem_write_simps [simp]:
  "m_resources (mem_write out m) = AList.update (key_of out) out (m_resources m)"
  "m_seq (mem_write out m) = r_ResourceVersion out"
  "m_log (mem_write out m) = m_log m @ [\<lparr>le_Kind = r_Kind out, le_Colony = r_Colony out,
      le_Name = r_Name out, le_ResourceVersion = r_ResourceVersion out\<rparr>]"
  "m_events (mem_write out m) = m_events m" "m_eventSeq (mem_write out m) = m_eventSeq m"
  by (simp_all add: mem_write_def mem_log_def mem_store_def)

lemma mem_write_inv:
  assumes inv: "mem_inv m" and room: "m_seq m < max_int64"
    and rv: "r_ResourceVersion out = m_seq m + 1"
    and gen: "1 \<le> r_Generation out" "r_Generation out \<le> m_seq m + 1"
    and del: "r_DeletedAt out = None"
  shows "mem_inv (mem_write out m)"
proof -
  let ?m = "mem_write out m" and ?k = "key_of out"
  let ?l = "\<lparr>le_Kind = r_Kind out, le_Colony = r_Colony out, le_Name = r_Name out,
      le_ResourceVersion = r_ResourceVersion out\<rparr>"
  have lk: "le_key ?l = ?k" by (simp add: le_key_def key_of_def)
  have row: "mem_row_ok (m_seq m) k r" if "map_of (m_resources m) k = Some r" for k r
    using inv that by (rule mem_inv_row)
  have rows: "mem_row_ok (m_seq ?m) k r" if "map_of (m_resources ?m) k = Some r" for k r
    using that row [of k r] rv gen del by (auto simp: mem_row_ok_def split: if_splits)
  note log = mem_inv_log [OF inv]
  have nonneg: "0 \<le> m_seq m" using mem_inv_seq [OF inv] by blast
  have sorted: "sorted_wrt (<) (map le_ResourceVersion (m_log ?m))"
    using mem_log_sorted [OF log] mem_log_bounds [OF log] rv by (fastforce simp: sorted_wrt_append)
  have named: "\<exists>r. map_of (m_resources ?m) (le_key l) = Some r \<and> le_ResourceVersion l \<le> r_ResourceVersion r"
    if l: "l \<in> set (m_log ?m)" for l
  proof (cases "l = ?l")
    case True
    then show ?thesis using lk by simp
  next
    case False
    then have "l \<in> set (m_log m)" using l by simp
    then show ?thesis
      using mem_log_named [OF log] mem_log_bounds [OF log] rv by fastforce
  qed
  have current: "\<exists>l\<in>set (m_log ?m). le_key l = k \<and> le_ResourceVersion l = r_ResourceVersion r"
    if "map_of (m_resources ?m) k = Some r" for k r
    using that lk mem_log_current [OF log, of k r] by (cases "k = ?k") auto
  have bounds: "\<forall>l\<in>set (m_log ?m). 1 \<le> le_ResourceVersion l \<and> le_ResourceVersion l \<le> m_seq ?m"
    using mem_log_bounds [OF log] nonneg rv by fastforce
  have "mem_log_ok ?m"
    unfolding mem_log_ok_def using sorted bounds named current by blast
  moreover have "distinct (map fst (m_resources ?m))" "0 \<le> m_seq ?m" "m_seq ?m \<le> max_int64"
    using inv rv room nonneg by (simp_all add: mem_inv_def distinct_fst_update)
  ultimately show ?thesis
    unfolding mem_inv_def using rows by blast
qed

text \<open>Storing a resource under its key with its version unchanged.\<close>

lemma mem_store_inv:
  assumes inv: "mem_inv m" and ex: "map_of (m_resources m) k = Some ex"
    and out: "key_of out = k" "r_ResourceVersion out = r_ResourceVersion ex"
      "r_Generation out = r_Generation ex" "r_DeletedAt out = None"
  shows "mem_inv (mem_store k out m)"
proof -
  have "mem_row_ok (m_seq m) k out"
    using mem_inv_row [OF inv ex] out by (simp add: mem_row_ok_def)
  moreover have "mem_log_ok (mem_store k out m)"
    using inv ex out(2)
    by (fastforce simp: mem_inv_def mem_log_ok_def mem_store_def split: if_splits)
  ultimately show ?thesis
    using inv by (auto simp: mem_inv_def mem_store_def split: if_splits)
qed

section \<open>The outcomes of Apply and ApplyStatus\<close>

lemma mem_updated_fields [simp]:
  "r_Kind (mem_updated e ex r n) = r_Kind r" "r_Colony (mem_updated e ex r n) = r_Colony r"
  "r_Name (mem_updated e ex r n) = r_Name r" "r_UID (mem_updated e ex r n) = r_UID ex"
  "r_CreatedAt (mem_updated e ex r n) = r_CreatedAt ex"
  "r_Generation (mem_updated e ex r n) =
     (if jsonEqual (r_Spec ex) (r_Spec r) then r_Generation ex else int64 (r_Generation ex + 1))"
  "r_ResourceVersion (mem_updated e ex r n) = (if res_changed ex r then n else r_ResourceVersion ex)"
  "r_UpdatedAt (mem_updated e ex r n) = (if res_changed ex r then env_now e else r_UpdatedAt ex)"
  "r_Spec (mem_updated e ex r n) = r_Spec r" "r_Labels (mem_updated e ex r n) = r_Labels r"
  "r_Annotations (mem_updated e ex r n) = r_Annotations r"
  "r_Status (mem_updated e ex r n) = (case r_Status r of None \<Rightarrow> r_Status ex | Some st \<Rightarrow> Some st)"
  "r_DeletedAt (mem_updated e ex r n) = r_DeletedAt r"
  by (simp_all add: mem_updated_def with_default_version_def Let_def split: option.split)

lemma mem_created_fields [simp]:
  "r_Kind (mem_created e r n) = r_Kind r" "r_Colony (mem_created e r n) = r_Colony r"
  "r_Name (mem_created e r n) = r_Name r" "r_UID (mem_created e r n) = env_uid e"
  "r_CreatedAt (mem_created e r n) = env_now e" "r_UpdatedAt (mem_created e r n) = env_now e"
  "r_Generation (mem_created e r n) = 1" "r_ResourceVersion (mem_created e r n) = n"
  "r_Spec (mem_created e r n) = r_Spec r" "r_Labels (mem_created e r n) = r_Labels r"
  "r_Annotations (mem_created e r n) = r_Annotations r"
  "r_Status (mem_created e r n) = r_Status r" "r_DeletedAt (mem_created e r n) = r_DeletedAt r"
  by (simp_all add: mem_created_def with_default_version_def)

lemma key_of_mem_updated [simp]: "key_of (mem_updated e ex r n) = key_of r"
  by (simp add: key_of_def)

lemma key_of_mem_created [simp]: "key_of (mem_created e r n) = key_of r"
  by (simp add: key_of_def)

lemma mem_Apply_cases:
  assumes "mem_Apply e r v m = (res, m')"
  obtains
    (same) ex where "map_of (m_resources m) (key_of r) = Some ex" "IsImmutableKind (r_Kind r)"
      "jsonEqual (r_Spec ex) (r_Spec r)" "res = Inr ex" "m' = m"
  | (immutable) ex where "map_of (m_resources m) (key_of r) = Some ex" "IsImmutableKind (r_Kind r)"
      "\<not> jsonEqual (r_Spec ex) (r_Spec r)"
      "res = Inl (wrap_err ErrImmutable (key_text (r_Kind r) (r_Colony r) (r_Name r)))" "m' = m"
  | (conflict) "v \<noteq> None" "map_option r_ResourceVersion (map_of (m_resources m) (key_of r)) \<noteq> v"
      "\<not> (IsImmutableKind (r_Kind r) \<and> map_of (m_resources m) (key_of r) \<noteq> None)"
      "res = Inl (wrap_err ErrConflict (key_text (r_Kind r) (r_Colony r) (r_Name r)))" "m' = m"
  | (unchanged) ex where "map_of (m_resources m) (key_of r) = Some ex" "\<not> IsImmutableKind (r_Kind r)"
      "v = None \<or> v = Some (r_ResourceVersion ex)" "\<not> res_changed ex r"
      "res = Inr (mem_updated e ex r 0)" "m' = mem_store (key_of r) (mem_updated e ex r 0) m"
  | (updated) ex where "map_of (m_resources m) (key_of r) = Some ex" "\<not> IsImmutableKind (r_Kind r)"
      "v = None \<or> v = Some (r_ResourceVersion ex)" "res_changed ex r"
      "res = Inr (mem_updated e ex r (int64 (m_seq m + 1)))"
      "m' = mem_write (mem_updated e ex r (int64 (m_seq m + 1))) m"
  | (created) "map_of (m_resources m) (key_of r) = None" "v = None"
      "res = Inr (mem_created e r (int64 (m_seq m + 1)))"
      "m' = mem_write (mem_created e r (int64 (m_seq m + 1))) m"
proof (cases "map_of (m_resources m) (key_of r)")
  case None
  with assms show thesis
    by (cases v) (auto simp: mem_Apply_def key_of_def mem_nextSeq_def mem_write_def mem_log_def Let_def
        intro: conflict created)
next
  case (Some ex)
  show thesis
  proof (cases "IsImmutableKind (r_Kind r)")
    case True
    with Some assms show thesis
      by (cases "jsonEqual (r_Spec ex) (r_Spec r)")
        (auto simp: mem_Apply_def key_of_def Let_def intro: same immutable)
  next
    case mut: False
    show thesis
    proof (cases "v = None \<or> v = Some (r_ResourceVersion ex)")
      case False
      with Some mut assms show thesis
        by (intro conflict) (auto simp: mem_Apply_def key_of_def Let_def split: if_splits)
    next
      case True
      with Some mut assms show thesis
        by (cases "res_changed ex r")
          (auto simp: mem_Apply_def key_of_def mem_nextSeq_def mem_write_def mem_log_def Let_def
            intro: unchanged updated)
    qed
  qed
qed

lemma mem_ApplyStatus_cases:
  assumes "mem_ApplyStatus e r m = (res, m')"
  obtains
    (missing) "res = Inl (wrap_err ErrNotFound (key_text (r_Kind r) (r_Colony r) (r_Name r)))" "m' = m"
      "map_of (m_resources m) (key_of r) = None
        \<or> (\<exists>ex. map_of (m_resources m) (key_of r) = Some ex \<and> r_DeletedAt ex \<noteq> None)"
  | (written) ex out where "map_of (m_resources m) (key_of r) = Some ex" "r_DeletedAt ex = None"
      "out = ex\<lparr>r_Status := r_Status r, r_ResourceVersion := int64 (m_seq m + 1),
               r_UpdatedAt := env_now e\<rparr>"
      "res = Inr out" "m_seq m' = int64 (m_seq m + 1)"
      "m_resources m' = AList.update (key_of r) out (m_resources m)"
      "m' = mem_log r (int64 (m_seq m + 1)) (mem_store (key_of r) out (m\<lparr>m_seq := int64 (m_seq m + 1)\<rparr>))"
  using assms
  by (fastforce simp: mem_ApplyStatus_def key_of_def mem_nextSeq_def mem_log_def mem_store_def Let_def
      split: option.splits if_splits)

lemma mem_Apply_inv:
  assumes "mem_inv m" "r_DeletedAt r = None" "m_seq m + 2 \<le> max_int64"
    and "mem_Apply e r v m = (res, m')"
  shows "mem_inv m' \<and> m_seq m \<le> m_seq m' \<and> m_seq m' \<le> m_seq m + 2"
  using assms(4)
proof (cases rule: mem_Apply_cases)
  case (unchanged ex)
  then have "mem_inv m'"
    using mem_inv_row [OF assms(1) unchanged(1)] assms(1,2)
    by (auto simp: res_changed_def mem_row_ok_def intro!: mem_store_inv)
  then show ?thesis using unchanged by (simp add: mem_store_def)
next
  case (updated ex)
  have "mem_row_ok (m_seq m) (key_of r) ex" by (rule mem_inv_row [OF assms(1) updated(1)])
  then show ?thesis
    using updated assms(1-3) mem_inv_seq [OF assms(1)]
    by (auto simp: mem_row_ok_def intro!: mem_write_inv)
next
  case created
  then show ?thesis
    using assms(1-3) mem_inv_seq [OF assms(1)] by (auto intro!: mem_write_inv)
qed (use assms(1) in simp_all)

lemma mem_ApplyStatus_write:
  assumes "mem_inv m" "mem_ApplyStatus e r m = (Inr out, m')" "m_seq m < max_int64"
  obtains ex where "map_of (m_resources m) (key_of r) = Some ex"
    "out = ex\<lparr>r_Status := r_Status r, r_ResourceVersion := m_seq m + 1, r_UpdatedAt := env_now e\<rparr>"
    "m' = mem_write out m" "key_of out = key_of r"
  using assms(2)
proof (cases rule: mem_ApplyStatus_cases)
  case (written ex out')
  have "key_of ex = key_of r"
    using mem_inv_row [OF assms(1) written(1)] by (simp add: mem_row_ok_def)
  then show thesis
    using written mem_inv_seq [OF assms(1)] assms(3)
    by (intro that [of ex]) (auto simp: mem_write_def key_of_def mem_log_def)
qed simp

lemma mem_ApplyStatus_inv:
  assumes "mem_inv m" "m_seq m + 2 \<le> max_int64" "mem_ApplyStatus e r m = (res, m')"
  shows "mem_inv m' \<and> m_seq m \<le> m_seq m' \<and> m_seq m' \<le> m_seq m + 2"
proof (cases res)
  case (Inl err)
  with assms(3) have "m' = m" by (auto elim: mem_ApplyStatus_cases)
  with assms(1) show ?thesis by simp
next
  case (Inr out)
  with assms obtain ex where ex: "map_of (m_resources m) (key_of r) = Some ex"
    "out = ex\<lparr>r_Status := r_Status r, r_ResourceVersion := m_seq m + 1, r_UpdatedAt := env_now e\<rparr>"
    "m' = mem_write out m" "key_of out = key_of r"
    by (elim mem_ApplyStatus_write) auto
  then show ?thesis
    using mem_inv_row [OF assms(1) ex(1)] assms(1,2) by (auto simp: mem_row_ok_def intro!: mem_write_inv)
qed

section \<open>The contract is kept\<close>

definition mem_live :: "MemoryStore \<Rightarrow> resKey \<Rightarrow> resource option" where
  "mem_live m = map_of (m_resources m)"

definition mem_same :: "resource \<Rightarrow> resource \<Rightarrow> bool" where
  "mem_same ex r \<longleftrightarrow> jsonEqual (r_Spec ex) (r_Spec r)"

lemma mem_Apply_live:
  assumes "mem_Apply e r v m = (Inr out, m')"
  shows "mem_live m' = (mem_live m)(key_of r \<mapsto> out)"
  using assms by (cases rule: mem_Apply_cases) (auto simp: mem_live_def mem_store_def)

interpretation mem: resource_store mem_ResourceStore mem_inv mem_live m_seq mem_same res_changed
proof (unfold_locales, goal_cases)
  case (1 s k c n r)
  then show ?case
    using mem_inv_row [OF 1(1)] by (fastforce simp: mem_ResourceStore_def mem_Get_def mem_live_def mem_row_ok_def)
next
  case (2 s k c n)
  then show ?case by (simp add: mem_ResourceStore_def mem_Get_def mem_live_def)
next
  case (3 s k r)
  then show ?case using mem_inv_row [OF 3(1)] by (auto simp: mem_live_def mem_row_ok_def)
next
  case (4 s r e v res s')
  then show ?case using mem_Apply_inv [of s r e v res s'] by (simp add: mem_ResourceStore_def)
next
  case (5 s e r v err s')
  then have "mem_Apply e r v s = (Inl err, s')" by (simp add: mem_ResourceStore_def)
  then show ?case by (cases rule: mem_Apply_cases) auto
next
  case (6 s e r v out s')
  then show ?case by (simp add: mem_ResourceStore_def mem_Apply_live)
next
  case (7 s r e v out s')
  then have "mem_Apply e r v s = (Inr out, s')" by (simp add: mem_ResourceStore_def)
  then show ?case
    using 7(2,3) mem_inv_seq [OF 7(1)] by (cases rule: mem_Apply_cases) (auto simp: mem_live_def)
next
  case (8 s r ex e v out s')
  then have a: "mem_Apply e r v s = (Inr out, s')" by (simp add: mem_ResourceStore_def)
  have "mem_row_ok (m_seq s) (key_of r) ex"
    using 8(3) by (intro mem_inv_row [OF 8(1)]) (simp add: mem_live_def)
  with a show ?case
    using 8(2-4) mem_inv_seq [OF 8(1)]
    by (cases rule: mem_Apply_cases) (auto simp: mem_live_def mem_same_def mem_row_ok_def)
next
  case (9 s r ex e rv out s')
  then have "mem_Apply e r (Some rv) s = (Inr out, s')" by (simp add: mem_ResourceStore_def)
  then show ?case using 9(2,3) by (cases rule: mem_Apply_cases) (auto simp: mem_live_def)
next
  case (10 s r ex e v)
  then show ?case
    by (auto simp: mem_ResourceStore_def mem_Apply_def mem_live_def key_of_def Let_def)
next
  case (11 s e r res s')
  then show ?case using mem_ApplyStatus_inv [of s e r res s'] by (simp add: mem_ResourceStore_def)
next
  case (12 s e r err s')
  then have "mem_ApplyStatus e r s = (Inl err, s')" by (simp add: mem_ResourceStore_def)
  then show ?case by (cases rule: mem_ApplyStatus_cases) auto
next
  case (13 s e r out s')
  then have "mem_ApplyStatus e r s = (Inr out, s')" "m_seq s < max_int64"
    by (simp_all add: mem_ResourceStore_def)
  with 13(1) obtain ex where "map_of (m_resources s) (key_of r) = Some ex"
    "out = ex\<lparr>r_Status := r_Status r, r_ResourceVersion := m_seq s + 1, r_UpdatedAt := env_now e\<rparr>"
    "s' = mem_write out s" "key_of out = key_of r"
    by (elim mem_ApplyStatus_write)
  then show ?case by (simp add: mem_live_def)
qed

end
