(* ===== verification/CliJson.thy ===== *)
theory CliJson
  imports GoJson
begin

text \<open>
  What the \<open>hived\<close> command line uses of Go's \<open>encoding/json\<close> beyond theory \<open>GoJson\<close>: decoding
  into a struct (names matched without regard to case) and into a
  \<open>map[string]json.RawMessage\<close>, \<open>Marshal\<close> of such a map, and \<open>MarshalIndent\<close> of a slice of
  raw messages. A raw message keeps its source text, so a token here carries its text.
\<close>

section \<open>Tokens with their text\<close>

type_synonym rtok = "token \<times> string"

text \<open>A raw number is checked for its grammar only; no \<open>float64\<close> is made of it.\<close>

definition raw_word_token :: "string \<Rightarrow> rtok option" where
  "raw_word_token w =
     (if w = ''true'' then Some (TLit (JBool True), w)
      else if w = ''false'' then Some (TLit (JBool False), w)
      else if w = ''null'' then Some (TLit JNull, w)
      else map_option (\<lambda>_. (TNum (F64 0 0), w)) (num_parts w))"

definition rlex_start :: "char \<Rightarrow> (rtok list \<times> lexst) option" where
  "rlex_start c = map_option (\<lambda>(ts, st). (map (\<lambda>t. (t, [c])) ts, st)) (lex_start c)"

fun rlex_step :: "lexst \<Rightarrow> char \<Rightarrow> (rtok list \<times> lexst) option" where
  "rlex_step L0 c = rlex_start c"
| "rlex_step (LStr raw esc) c =
     (if esc then Some ([], LStr (c # raw) False)
      else if c = CHR 0x22 then
        map_option (\<lambda>s. ([(TStr s, CHR 0x22 # rev raw @ [CHR 0x22])], L0)) (unquote 0 (rev raw))
      else Some ([], LStr (c # raw) (c = CHR 0x5C)))"
| "rlex_step (LWord w) c =
     (if word_char c then Some ([], LWord (c # w))
      else case raw_word_token (rev w) of
             None \<Rightarrow> None
           | Some t \<Rightarrow> map_option (\<lambda>(ts, st). (t # ts, st)) (rlex_start c))"

fun rlex_end :: "lexst \<Rightarrow> rtok list option" where
  "rlex_end L0 = Some []"
| "rlex_end (LStr _ _) = None"
| "rlex_end (LWord w) = map_option (\<lambda>t. [t]) (raw_word_token (rev w))"

fun rlex :: "lexst \<Rightarrow> string \<Rightarrow> rtok list option" where
  "rlex st [] = rlex_end st"
| "rlex st (c # cs) =
     (case rlex_step st c of
        None \<Rightarrow> None
      | Some (ts, st') \<Rightarrow> map_option ((@) ts) (rlex st' cs))"

text \<open>\<open>checkValid\<close>: the tokens of a text that is one JSON value.\<close>

definition json_tokens :: "string \<Rightarrow> rtok list option" where
  "json_tokens s =
     (case rlex L0 s of
        None \<Rightarrow> None
      | Some ts \<Rightarrow>
          (case prun (PVal, []) (map fst ts) of
             Some (PAfter _, []) \<Rightarrow> Some ts
           | _ \<Rightarrow> None))"

section \<open>The members of an object\<close>

definition opens :: "token \<Rightarrow> bool" where
  "opens t \<longleftrightarrow> t = TPunct (CHR ''{'') \<or> t = TPunct (CHR ''['')"

definition closes :: "token \<Rightarrow> bool" where
  "closes t \<longleftrightarrow> t = TPunct (CHR ''}'') \<or> t = TPunct (CHR '']'')"

text \<open>The tokens between the commas of the outermost level.\<close>

fun split_commas :: "nat \<Rightarrow> rtok list \<Rightarrow> rtok list \<Rightarrow> rtok list list" where
  "split_commas d acc [] = (if acc = [] then [] else [rev acc])"
| "split_commas d acc (t # ts) =
     (if d = 0 \<and> fst t = TPunct (CHR '','') then rev acc # split_commas 0 [] ts
      else split_commas (if opens (fst t) then d + 1 else if closes (fst t) then d - 1 else d) (t # acc) ts)"

fun member_of :: "rtok list \<Rightarrow> string \<times> rtok list" where
  "member_of ((TStr k, _) # _ # v) = (k, v)"
| "member_of _ = ('''', [])"

text \<open>Its members in the order of the text, of the tokens of a valid object.\<close>

definition object_members :: "rtok list \<Rightarrow> (string \<times> rtok list) list" where
  "object_members ts = map member_of (split_commas 0 [] (butlast (tl ts)))"

definition is_object :: "rtok list \<Rightarrow> bool" where
  "is_object ts \<longleftrightarrow> (case ts of (t, _) # _ \<Rightarrow> t = TPunct (CHR ''{'') | [] \<Rightarrow> False)"

definition is_null :: "rtok list \<Rightarrow> bool" where
  "is_null ts \<longleftrightarrow> map fst ts = [TLit JNull]"

section \<open>Decoding into a struct\<close>

text \<open>
  \<open>foldName\<close>: ASCII letters in upper case; of the other characters only the Kelvin sign and
  the long s fold to ASCII (to K and S). \<open>n\<close> bytes are still to be skipped.
\<close>

fun fold_from :: "nat \<Rightarrow> string \<Rightarrow> string" where
  "fold_from n [] = ''''"
| "fold_from n (c # cs) =
     (if n > 0 then fold_from (n - 1) cs
      else if take 3 (c # cs) = [CHR 0xE2, CHR 0x84, CHR 0xAA] then CHR ''K'' # fold_from 2 cs
      else if take 2 (c # cs) = [CHR 0xC5, CHR 0xBF] then CHR ''S'' # fold_from 1 cs
      else (if CHR ''a'' \<le> c \<and> c \<le> CHR ''z'' then char_of (of_char c - 32 :: nat) else c) # fold_from 0 cs)"

definition fold_name :: "string \<Rightarrow> string" where
  "fold_name s = fold_from 0 s"

definition field_is :: "string \<Rightarrow> string \<Rightarrow> bool" where
  "field_is name key \<longleftrightarrow> fold_name key = fold_name name"

text \<open>A string field: a string is stored, \<open>null\<close> leaves it, anything else is a type error.\<close>

fun decode_string :: "rtok list \<Rightarrow> string \<Rightarrow> string option" where
  "decode_string [(TStr s, _)] old = Some s"
| "decode_string [(TLit JNull, _)] old = Some old"
| "decode_string _ old = None"

section \<open>Maps of raw messages\<close>

fun raw_put :: "(string \<times> rtok list) list \<Rightarrow> string \<Rightarrow> rtok list \<Rightarrow> (string \<times> rtok list) list" where
  "raw_put [] k v = [(k, v)]"
| "raw_put ((k', v') # es) k v =
     (if k = k' then (k, v) # es
      else if k < k' then (k, v) # (k', v') # es
      else (k', v') # raw_put es k v)"

text \<open>\<open>json.Unmarshal\<close> into a \<open>map[string]json.RawMessage\<close>: a nil map (\<open>null\<close>) is \<^const>\<open>None\<close>.\<close>

definition unmarshal_fields :: "string \<Rightarrow> (string \<times> rtok list) list option option" where
  "unmarshal_fields s =
     (case json_tokens s of
        None \<Rightarrow> None
      | Some ts \<Rightarrow>
          if is_null ts then Some None
          else if is_object ts then Some (Some (foldl (\<lambda>m (k, v). raw_put m k v) [] (object_members ts)))
          else None)"

definition hex_digit :: "nat \<Rightarrow> char" where
  "hex_digit n = ''0123456789abcdef'' ! n"

definition escape_u :: "nat \<Rightarrow> string" where
  "escape_u n = [CHR 0x5C, CHR ''u'', hex_digit (n div 4096 mod 16), hex_digit (n div 256 mod 16),
     hex_digit (n div 16 mod 16), hex_digit (n mod 16)]"

text \<open>The text of a raw message as \<open>Marshal\<close> copies it: spaces dropped, HTML escaped.\<close>

fun html_from :: "nat \<Rightarrow> string \<Rightarrow> string" where
  "html_from n [] = ''''"
| "html_from n (c # cs) =
     (if n > 0 then html_from (n - 1) cs
      else if take 3 (c # cs) = [CHR 0xE2, CHR 0x80, CHR 0xA8] then escape_u 0x2028 @ html_from 2 cs
      else if take 3 (c # cs) = [CHR 0xE2, CHR 0x80, CHR 0xA9] then escape_u 0x2029 @ html_from 2 cs
      else (if c \<in> set ''<>&'' then escape_u (of_char c) else [c]) @ html_from 0 cs)"

definition html_escape :: "string \<Rightarrow> string" where
  "html_escape s = html_from 0 s"

definition raw_text :: "rtok list \<Rightarrow> string" where
  "raw_text ts = concat (map (html_escape \<circ> snd) ts)"

text \<open>\<open>appendString\<close>: \<open>n\<close> bytes of a character are still to be copied, or to be skipped.\<close>

fun quote_from :: "int \<Rightarrow> string \<Rightarrow> string" where
  "quote_from n [] = ''''"
| "quote_from n (c # cs) =
     (if n > 0 then c # quote_from (n - 1) cs
      else if n < 0 then quote_from (n + 1) cs
      else if c = CHR 0x22 \<or> c = CHR 0x5C then CHR 0x5C # c # quote_from 0 cs
      else if c = CHR 0x08 then CHR 0x5C # CHR ''b'' # quote_from 0 cs
      else if c = CHR 0x0C then CHR 0x5C # CHR ''f'' # quote_from 0 cs
      else if c = CHR 0x0A then CHR 0x5C # CHR ''n'' # quote_from 0 cs
      else if c = CHR 0x0D then CHR 0x5C # CHR ''r'' # quote_from 0 cs
      else if c = CHR 0x09 then CHR 0x5C # CHR ''t'' # quote_from 0 cs
      else if c < CHR 0x20 \<or> c \<in> set ''<>&'' then escape_u (of_char c) @ quote_from 0 cs
      else if take 3 (c # cs) = [CHR 0xE2, CHR 0x80, CHR 0xA8] then escape_u 0x2028 @ quote_from (- 2) cs
      else if take 3 (c # cs) = [CHR 0xE2, CHR 0x80, CHR 0xA9] then escape_u 0x2029 @ quote_from (- 2) cs
      else (let w = utf8_len (map of_char (c # cs)) in
        if w = 0 then escape_u 0xFFFD @ quote_from 0 cs
        else c # quote_from (int w - 1) cs))"

definition json_quote :: "string \<Rightarrow> string" where
  "json_quote s = [CHR 0x22] @ quote_from 0 s @ [CHR 0x22]"

fun join_with :: "string \<Rightarrow> string list \<Rightarrow> string" where
  "join_with sep [] = ''''"
| "join_with sep [s] = s"
| "join_with sep (s # ss) = s @ sep @ join_with sep ss"

definition marshal_fields :: "(string \<times> rtok list) list option \<Rightarrow> string" where
  "marshal_fields m =
     (case m of
        None \<Rightarrow> ''null''
      | Some es \<Rightarrow> ''{'' @ join_with '','' (map (\<lambda>(k, v). json_quote k @ '':'' @ raw_text v) es) @ ''}'')"

section \<open>MarshalIndent\<close>

text \<open>\<open>Indent\<close> with no prefix: \<open>need\<close> is set after an opening bracket, until what follows is known.\<close>

definition newline :: "string \<Rightarrow> nat \<Rightarrow> string" where
  "newline ind depth = CHR 0x0A # concat (replicate depth ind)"

fun indent_run :: "string \<Rightarrow> nat \<Rightarrow> bool \<Rightarrow> rtok list \<Rightarrow> string" where
  "indent_run ind depth need [] = ''''"
| "indent_run ind depth need ((t, s) # ts) =
     (if closes t then
        (if need then s @ indent_run ind depth False ts
         else newline ind (depth - 1) @ s @ indent_run ind (depth - 1) False ts)
      else
        (let depth' = (if need then depth + 1 else depth);
             pre = (if need then newline ind depth' else '''')
         in pre @ html_escape s
            @ (if t = TPunct (CHR '','') then newline ind depth' else if t = TPunct (CHR '':'') then '' '' else '''')
            @ indent_run ind depth' (opens t) ts))"

fun join_tokens :: "rtok list list \<Rightarrow> rtok list" where
  "join_tokens [] = []"
| "join_tokens [p] = p"
| "join_tokens (p # ps) = p @ (TPunct (CHR '',''), '','') # join_tokens ps"

text \<open>
  \<open>json.MarshalIndent(parts, "", "  ")\<close> of raw messages, an error for one that is not JSON or
  when their list nests too deeply.
\<close>

definition marshal_indent :: "string \<Rightarrow> string list \<Rightarrow> string option" where
  "marshal_indent ind parts =
     (if \<exists>p\<in>set parts. json_tokens p = None then None
      else
        (let ts = (TPunct (CHR ''[''), ''['') # join_tokens (map (the \<circ> json_tokens) parts) @ [(TPunct (CHR '']''), '']'')]
         in if prun (PVal, []) (map fst ts) = None then None else Some (indent_run ind 0 False ts)))"

end
