(* ===== verification/StringMap.thy ===== *)
theory StringMap
  imports CliJson
begin

text \<open>
  \<open>encoding/json\<close> on a \<open>map[string]string\<close>: \<open>Marshal\<close>, as \<open>jsonbMap\<close>
  (\<open>internal/store/postgres.go\<close>) and the probes of \<open>internal/api/server.go\<close> use it, and
  \<open>Unmarshal\<close>, as \<open>scanResource\<close> does.
\<close>

text \<open>\<open>Marshal\<close> writes the members in the order of their keys, keys and values quoted and HTML-escaped.\<close>

definition marshal_string_map :: "str_map \<Rightarrow> string" where
  "marshal_string_map m =
     ''{'' @ join_with '','' (map (\<lambda>(k, v). json_quote k @ '':'' @ json_quote v) (sorted_list_of_fmap m)) @ ''}''"

text \<open>A member's value: a string is stored, \<open>null\<close> leaves the zero value, anything else is a type error.\<close>

fun string_member :: "json \<Rightarrow> string option" where
  "string_member (JStr v) = Some v"
| "string_member JNull = Some ''''"
| "string_member _ = None"

text \<open>\<open>Unmarshal\<close> of a text without duplicate keys, as \<open>jsonb\<close> prints it; \<^const>\<open>None\<close> is an error.\<close>

definition unmarshal_string_map :: "string \<Rightarrow> str_map option" where
  "unmarshal_string_map s =
     (case json_Unmarshal s of
        Some (JObj es) \<Rightarrow> map_option fmap_of_list (those (map (\<lambda>(k, j). map_option (Pair k) (string_member j)) es))
      | Some JNull \<Rightarrow> Some fmempty
      | _ \<Rightarrow> None)"

lemma marshal_empty_map [simp]: "marshal_string_map fmempty = ''{}''"
  by (simp add: marshal_string_map_def sorted_list_of_fmap_def sorted_list_of_fset.rep_eq)

lemma unmarshal_empty_map [simp]: "unmarshal_string_map ''{}'' = Some fmempty"
proof -
  have "json_Unmarshal ''{}'' = Some (JObj [])" by code_simp
  then show ?thesis by (simp add: unmarshal_string_map_def)
qed

end
