(* ===== verification/PostgresStore.thy ===== *)
theory PostgresStore
  imports MemoryStore StringMap
begin

text \<open>
  \<open>internal/store/postgres.go\<close> over the schema of \<open>internal/store/migrations\<close>: each SQL
  statement is a function of the tables, written from its text. What the database engine
  itself does (which texts it accepts, how it stores and compares \<open>jsonb\<close>, its collation
  and the precision of its timestamps) is a parameter, the record \<open>pg_engine\<close>. Here one
  statement runs at a time; concurrent transactions are a theory of their own.
\<close>

section \<open>The engine and the tables\<close>

text \<open>
  \<open>pe_text_ok\<close>: the string is accepted as a \<open>text\<close> parameter. \<open>pe_jsonb_in\<close>: the text a
  \<open>jsonb\<close> parameter is read back as, \<^const>\<open>None\<close> if it is rejected; \<open>pe_jsonb_eq\<close>: the
  equality of \<open>jsonb\<close> values. \<open>pe_coll\<close>: the sort key of the database's collation.
  \<open>pe_time\<close>: a timestamp as stored.
\<close>

record pg_engine =
  pe_text_ok :: "string \<Rightarrow> bool"
  pe_jsonb_in :: "string \<Rightarrow> string option"
  pe_jsonb_eq :: "string \<Rightarrow> string \<Rightarrow> bool"
  pe_coll :: "string \<Rightarrow> string"
  pe_time :: "time \<Rightarrow> time"

text \<open>
  The \<open>resources\<close> table by its unique key \<open>(kind, colony, name)\<close>, the one-row
  \<open>hived_resource_version_counter\<close> and the \<open>events\<close> table with its \<open>bigserial\<close>.
\<close>

record Postgres =
  p_rows :: "(resKey \<times> resource) list"
  p_counter :: int
  p_events :: "(int \<times> event) list"
  p_event_id :: int

definition init_postgres :: Postgres where
  "init_postgres = \<lparr>p_rows = [], p_counter = 0, p_events = [], p_event_id = 0\<rparr>"

definition engine_err :: "string \<Rightarrow> go_error" where
  "engine_err msg = GoError None msg"

text \<open>\<open>hived_next_resource_version()\<close>: the statement fails when \<open>bigint\<close> is exhausted.\<close>

definition hived_next_resource_version :: "Postgres \<Rightarrow> (int \<times> Postgres) option" where
  "hived_next_resource_version s =
     (if p_counter s < max_int64 then
        (let v = p_counter s + 1 in Some (v, s\<lparr>p_counter := v\<rparr>))
      else None)"

definition jsonbMap :: "str_map \<Rightarrow> string" where
  "jsonbMap m = marshal_string_map m"

definition jsonbBytes :: "bytes \<Rightarrow> string" where
  "jsonbBytes b = (if blen b = 0 then ''{}'' else bytes_of b)"

definition api_version_of :: "resource \<Rightarrow> string" where
  "api_version_of r = (if r_APIVersion r = '''' then DefaultAPIVersion else r_APIVersion r)"

text \<open>The columns \<open>resourceColumns\<close> of a row as the driver hands them to \<open>scanResource\<close>.\<close>

record resource_columns =
  col_uid :: string
  col_kind :: string
  col_api_version :: string
  col_colony :: string
  col_name :: string
  col_generation :: int
  col_resource_version :: int
  col_labels :: string
  col_annotations :: string
  col_spec :: string
  col_status :: string
  col_created_at :: time
  col_updated_at :: time
  col_deleted_at :: "time option"

definition scanResource :: "resource_columns \<Rightarrow> go_error + resource" where
  "scanResource c =
     (case unmarshal_string_map (col_labels c) of
        None \<Rightarrow> Inl (engine_err ''store: unmarshal labels'')
      | Some l \<Rightarrow>
          (case unmarshal_string_map (col_annotations c) of
             None \<Rightarrow> Inl (engine_err ''store: unmarshal annotations'')
           | Some a \<Rightarrow>
               Inr \<lparr>r_Kind = col_kind c, r_APIVersion = col_api_version c, r_Colony = col_colony c,
                 r_Name = col_name c, r_UID = col_uid c, r_Generation = col_generation c,
                 r_ResourceVersion = col_resource_version c, r_Labels = l, r_Annotations = a,
                 r_Spec = Some (col_spec c), r_Status = Some (col_status c),
                 r_CreatedAt = col_created_at c, r_UpdatedAt = col_updated_at c,
                 r_DeletedAt = col_deleted_at c\<rparr>))"

text \<open>
  The columns of the row an \<open>INSERT\<close> would add, from the statement's parameters; \<^const>\<open>None\<close>
  when one of them is rejected.
\<close>

definition insert_columns :: "pg_engine \<Rightarrow> env \<Rightarrow> resource \<Rightarrow> string \<Rightarrow> resource_columns option" where
  "insert_columns eng e r status =
     (if pe_text_ok eng (r_Kind r) \<and> pe_text_ok eng (api_version_of r)
         \<and> pe_text_ok eng (r_Colony r) \<and> pe_text_ok eng (r_Name r) then
        (case (pe_jsonb_in eng (jsonbMap (r_Labels r)), pe_jsonb_in eng (jsonbMap (r_Annotations r)),
               pe_jsonb_in eng (jsonbBytes (r_Spec r)), pe_jsonb_in eng status) of
           (Some l, Some a, Some sp, Some st) \<Rightarrow>
             Some \<lparr>col_uid = env_uid e, col_kind = r_Kind r, col_api_version = api_version_of r,
               col_colony = r_Colony r, col_name = r_Name r, col_generation = 1, col_resource_version = 0,
               col_labels = l, col_annotations = a, col_spec = sp, col_status = st,
               col_created_at = pe_time eng (env_now e), col_updated_at = pe_time eng (env_now e),
               col_deleted_at = None\<rparr>
         | _ \<Rightarrow> None)
      else None)"

text \<open>
  The tables hold every row as \<open>scanResource\<close> reads it, so a row that it could not read is
  treated like a rejected parameter; theory \<open>LabelColumns\<close> shows that there is none.
\<close>

definition insert_row :: "pg_engine \<Rightarrow> env \<Rightarrow> resource \<Rightarrow> string \<Rightarrow> resource option" where
  "insert_row eng e r status =
     (case insert_columns eng e r status of
        None \<Rightarrow> None
      | Some c \<Rightarrow> (case scanResource c of Inl _ \<Rightarrow> None | Inr row \<Rightarrow> Some row))"

text \<open>A string map as it is read back after \<open>Marshal\<close>, the \<open>jsonb\<close> column and \<open>Unmarshal\<close>.\<close>

definition jsonb_labels :: "pg_engine \<Rightarrow> str_map \<Rightarrow> str_map option" where
  "jsonb_labels eng m =
     (case pe_jsonb_in eng (jsonbMap m) of None \<Rightarrow> None | Some t \<Rightarrow> unmarshal_string_map t)"

lemma jsonb_labels_empty [simp]: "pe_jsonb_in eng ''{}'' = Some ''{}'' \<Longrightarrow> jsonb_labels eng fmempty = Some fmempty"
  by (simp add: jsonb_labels_def jsonbMap_def)

lemma insert_row_eq:
  "insert_row eng e r status =
     (if pe_text_ok eng (r_Kind r) \<and> pe_text_ok eng (api_version_of r)
         \<and> pe_text_ok eng (r_Colony r) \<and> pe_text_ok eng (r_Name r) then
        (case (jsonb_labels eng (r_Labels r), jsonb_labels eng (r_Annotations r),
               pe_jsonb_in eng (jsonbBytes (r_Spec r)), pe_jsonb_in eng status) of
           (Some l, Some a, Some sp, Some st) \<Rightarrow>
             Some \<lparr>r_Kind = r_Kind r, r_APIVersion = api_version_of r, r_Colony = r_Colony r,
               r_Name = r_Name r, r_UID = env_uid e, r_Generation = 1, r_ResourceVersion = 0,
               r_Labels = l, r_Annotations = a, r_Spec = Some sp, r_Status = Some st,
               r_CreatedAt = pe_time eng (env_now e), r_UpdatedAt = pe_time eng (env_now e),
               r_DeletedAt = None\<rparr>
         | _ \<Rightarrow> None)
      else None)"
  by (simp add: insert_row_def insert_columns_def scanResource_def jsonb_labels_def split: option.splits)

section \<open>Get\<close>

definition pg_Get :: "pg_engine \<Rightarrow> string \<Rightarrow> string \<Rightarrow> string \<Rightarrow> Postgres \<Rightarrow> go_error + resource" where
  "pg_Get eng kind colony name s =
     (if \<not> (pe_text_ok eng kind \<and> pe_text_ok eng colony \<and> pe_text_ok eng name)
      then Inl (engine_err ''invalid parameter'')
      else case map_of (p_rows s) (kind, colony, name) of
        None \<Rightarrow> Inl (wrap_err ErrNotFound (key_text kind colony name))
      | Some r \<Rightarrow>
          if r_DeletedAt r \<noteq> None then Inl (wrap_err ErrNotFound (key_text kind colony name))
          else Inr r)"

section \<open>Apply\<close>

text \<open>The \<open>INSERT\<close> of \<open>applyImmutable\<close>: a duplicate key aborts it, and its counter update.\<close>

definition pg_insertImmutable :: "pg_engine \<Rightarrow> env \<Rightarrow> resource \<Rightarrow> Postgres \<Rightarrow> (go_error + resource) \<times> Postgres" where
  "pg_insertImmutable eng e r s =
     (case insert_row eng e r ''{}'' of
        None \<Rightarrow> (Inl (engine_err ''invalid parameter''), s)
      | Some row \<Rightarrow>
          (case hived_next_resource_version s of
             None \<Rightarrow> (Inl (engine_err ''bigint out of range''), s)
           | Some (rv, s1) \<Rightarrow>
               if map_of (p_rows s1) (key_of r) \<noteq> None
               then (Inl (engine_err ''duplicate key value violates unique constraint''), s)
               else (let row' = row\<lparr>r_ResourceVersion := rv\<rparr>
                     in (Inr row', s1\<lparr>p_rows := AList.update (key_of r) row' (p_rows s1)\<rparr>))))"

definition pg_applyImmutable :: "pg_engine \<Rightarrow> env \<Rightarrow> resource \<Rightarrow> Postgres \<Rightarrow> (go_error + resource) \<times> Postgres" where
  "pg_applyImmutable eng e r s =
     (case pg_Get eng (r_Kind r) (r_Colony r) (r_Name r) s of
        Inr existing \<Rightarrow>
          if jsonEqual (r_Spec existing) (r_Spec r) then (Inr existing, s)
          else (Inl (wrap_err ErrImmutable (key_text (r_Kind r) (r_Colony r) (r_Name r))), s)
      | Inl err \<Rightarrow>
          if errors_Is err ErrNotFound then pg_insertImmutable eng e r s
          else (Inl err, s))"

text \<open>
  The \<open>SET\<close> list of \<open>ON CONFLICT DO UPDATE\<close>: \<open>ex\<close> is the stored row, \<open>ins\<close> the row proposed
  for insertion (\<open>EXCLUDED\<close>). \<open>api_version\<close>, \<open>status\<close>, \<open>uid\<close> and \<open>created_at\<close> are not set.
\<close>

definition spec_distinct :: "pg_engine \<Rightarrow> resource \<Rightarrow> resource \<Rightarrow> bool" where
  "spec_distinct eng ex ins \<longleftrightarrow> \<not> pe_jsonb_eq eng (bytes_of (r_Spec ex)) (bytes_of (r_Spec ins))"

definition row_changed :: "pg_engine \<Rightarrow> resource \<Rightarrow> resource \<Rightarrow> bool" where
  "row_changed eng ex ins \<longleftrightarrow>
     spec_distinct eng ex ins \<or> r_Labels ex \<noteq> r_Labels ins \<or> r_Annotations ex \<noteq> r_Annotations ins"

definition update_row :: "pg_engine \<Rightarrow> env \<Rightarrow> resource \<Rightarrow> resource \<Rightarrow> int \<Rightarrow> resource" where
  "update_row eng e ex ins rv = ex
     \<lparr>r_Generation := (if spec_distinct eng ex ins then r_Generation ex + 1 else r_Generation ex),
      r_ResourceVersion := rv,
      r_Labels := r_Labels ins,
      r_Annotations := r_Annotations ins,
      r_Spec := r_Spec ins,
      r_UpdatedAt := (if row_changed eng ex ins then pe_time eng (env_now e) else r_UpdatedAt ex),
      r_DeletedAt := None\<rparr>"

text \<open>
  The upsert of \<open>applyMutable\<close>. The proposed row is computed before the conflict is
  detected, so every attempt takes a version from the counter, and a changed row takes a
  second one; a row the \<open>WHERE\<close> clause rejects leaves the statement with no row, which is
  the conflict error.
\<close>

definition pg_applyMutable :: "pg_engine \<Rightarrow> env \<Rightarrow> resource \<Rightarrow> int option \<Rightarrow> Postgres \<Rightarrow> (go_error + resource) \<times> Postgres" where
  "pg_applyMutable eng e r ifResourceVersion s =
     (case insert_row eng e r (jsonbBytes (r_Status r)) of
        None \<Rightarrow> (Inl (engine_err ''invalid parameter''), s)
      | Some ins \<Rightarrow>
          (case hived_next_resource_version s of
             None \<Rightarrow> (Inl (engine_err ''bigint out of range''), s)
           | Some (rv, s1) \<Rightarrow>
               (case map_of (p_rows s1) (key_of r) of
                  None \<Rightarrow>
                    (let row = ins\<lparr>r_ResourceVersion := rv\<rparr>
                     in (Inr row, s1\<lparr>p_rows := AList.update (key_of r) row (p_rows s1)\<rparr>))
                | Some ex \<Rightarrow>
                    if r_DeletedAt ex = None
                       \<and> (ifResourceVersion = None \<or> ifResourceVersion = Some (r_ResourceVersion ex)) then
                      (if row_changed eng ex ins then
                         (case hived_next_resource_version s1 of
                            None \<Rightarrow> (Inl (engine_err ''bigint out of range''), s)
                          | Some (rv2, s2) \<Rightarrow>
                              (let row = update_row eng e ex ins rv2
                               in (Inr row, s2\<lparr>p_rows := AList.update (key_of r) row (p_rows s2)\<rparr>)))
                       else
                         (let row = update_row eng e ex ins (r_ResourceVersion ex)
                          in (Inr row, s1\<lparr>p_rows := AList.update (key_of r) row (p_rows s1)\<rparr>)))
                    else (Inl (wrap_err ErrConflict (key_text (r_Kind r) (r_Colony r) (r_Name r))), s1))))"

definition pg_Apply :: "pg_engine \<Rightarrow> env \<Rightarrow> resource \<Rightarrow> int option \<Rightarrow> Postgres \<Rightarrow> (go_error + resource) \<times> Postgres" where
  "pg_Apply eng e r ifResourceVersion s =
     (if IsImmutableKind (r_Kind r) then pg_applyImmutable eng e r s
      else pg_applyMutable eng e r ifResourceVersion s)"

definition pg_ApplyStatus :: "pg_engine \<Rightarrow> env \<Rightarrow> resource \<Rightarrow> Postgres \<Rightarrow> (go_error + resource) \<times> Postgres" where
  "pg_ApplyStatus eng e r s =
     (if \<not> (pe_text_ok eng (r_Kind r) \<and> pe_text_ok eng (r_Colony r) \<and> pe_text_ok eng (r_Name r))
      then (Inl (engine_err ''invalid parameter''), s)
      else case pe_jsonb_in eng (jsonbBytes (r_Status r)) of
        None \<Rightarrow> (Inl (engine_err ''invalid parameter''), s)
      | Some st \<Rightarrow>
          (case map_of (p_rows s) (key_of r) of
             None \<Rightarrow> (Inl (wrap_err ErrNotFound (key_text (r_Kind r) (r_Colony r) (r_Name r))), s)
           | Some ex \<Rightarrow>
               if r_DeletedAt ex \<noteq> None
               then (Inl (wrap_err ErrNotFound (key_text (r_Kind r) (r_Colony r) (r_Name r))), s)
               else
                 (case hived_next_resource_version s of
                    None \<Rightarrow> (Inl (engine_err ''bigint out of range''), s)
                  | Some (rv, s1) \<Rightarrow>
                      (let row = ex\<lparr>r_Status := Some st, r_ResourceVersion := rv,
                                    r_UpdatedAt := pe_time eng (env_now e)\<rparr>
                       in (Inr row, s1\<lparr>p_rows := AList.update (key_of r) row (p_rows s1)\<rparr>)))))"

section \<open>List\<close>

definition pg_contains :: "str_map \<Rightarrow> str_map \<Rightarrow> bool" where
  "pg_contains labels sel \<longleftrightarrow> fmpred (\<lambda>k v. fmlookup labels k = Some v) sel"

definition pg_key :: "pg_engine \<Rightarrow> string \<times> string \<Rightarrow> string \<times> string" where
  "pg_key eng p = (pe_coll eng (fst p), pe_coll eng (snd p))"

definition pg_selects :: "string \<Rightarrow> string \<Rightarrow> str_map \<Rightarrow> resource \<Rightarrow> bool" where
  "pg_selects kind colony sel r \<longleftrightarrow>
     r_Kind r = kind \<and> (colony = '''' \<or> r_Colony r = colony) \<and> r_DeletedAt r = None
     \<and> pg_contains (r_Labels r) sel"

text \<open>
  \<open>List\<close> runs two statements, each on its own snapshot: the counter is read on the first,
  the rows on the second.
\<close>

definition pg_List2 :: "pg_engine \<Rightarrow> string \<Rightarrow> list_options \<Rightarrow> Postgres \<Rightarrow> Postgres \<Rightarrow> go_error + list_result" where
  "pg_List2 eng kind opts s1 s2 =
     (let rv = p_counter s1;
          pageSize = clampPageSize (lo_PageSize opts)
      in case decodePageToken (lo_PageToken opts) of
           Inl err \<Rightarrow> Inl err
         | Inr (afterColony, afterName) \<Rightarrow>
             if \<not> (pe_text_ok eng kind \<and> pe_text_ok eng (lo_Colony opts)
                    \<and> pe_text_ok eng afterColony \<and> pe_text_ok eng afterName)
             then Inl (engine_err ''invalid parameter'')
             else (case jsonb_labels eng (lo_LabelSelector opts) of
               None \<Rightarrow> Inl (engine_err ''invalid parameter'')
             | Some sel \<Rightarrow>
                 (let rows = filter (\<lambda>r. pg_selects kind (lo_Colony opts) sel r
                               \<and> (lo_PageToken opts \<noteq> '''' \<longrightarrow>
                                    pg_key eng (list_key r) > pg_key eng (afterColony, afterName)))
                             (map snd (p_rows s2));
                      items = take (nat (pageSize + 1)) (sort_key (pg_key eng \<circ> list_key) rows);
                      (page, token) = cut_page pageSize items
                  in Inr \<lparr>lr_Items = page, lr_NextPageToken = token, lr_ResourceVersion = rv\<rparr>)))"

definition pg_List :: "pg_engine \<Rightarrow> string \<Rightarrow> list_options \<Rightarrow> Postgres \<Rightarrow> go_error + list_result" where
  "pg_List eng kind opts s = pg_List2 eng kind opts s s"

section \<open>The event log\<close>

definition nullableTime :: "time \<Rightarrow> time option" where
  "nullableTime t = (if t = 0 then None else Some t)"

definition run_events :: "string \<Rightarrow> string \<Rightarrow> Postgres \<Rightarrow> event list" where
  "run_events colony run s =
     filter (\<lambda>e. e_Colony e = colony \<and> e_Run e = run) (map snd (p_events s))"

text \<open>\<open>COALESCE((SELECT MAX(seq) FROM events WHERE ...), 0)\<close>.\<close>

definition max_seq :: "event list \<Rightarrow> int" where
  "max_seq es = (case es of [] \<Rightarrow> 0 | e # es' \<Rightarrow> foldl max (e_Seq e) (map e_Seq es'))"

text \<open>
  The transaction of \<open>Append\<close>: an error before the commit rolls back everything but the
  \<open>bigserial\<close>.
\<close>

definition pg_Append :: "pg_engine \<Rightarrow> env \<Rightarrow> event \<Rightarrow> Postgres \<Rightarrow> (go_error + event) \<times> Postgres" where
  "pg_Append eng e ev s =
     (if \<not> (pe_text_ok eng (e_Colony ev) \<and> pe_text_ok eng (e_Run ev) \<and> pe_text_ok eng (e_Type ev))
      then (Inl (engine_err ''invalid parameter''), s)
      else case pe_jsonb_in eng (jsonbBytes (e_Payload ev)) of
        None \<Rightarrow> (Inl (engine_err ''invalid parameter''), s)
      | Some payload \<Rightarrow>
          (case hived_next_resource_version s of
             None \<Rightarrow> (Inl (engine_err ''bigint out of range''), s)
           | Some (rv, s1) \<Rightarrow>
               (let seq = max_seq (run_events (e_Colony ev) (e_Run ev) s1) + 1;
                    ts = (case nullableTime (e_TS ev) of None \<Rightarrow> env_now e | Some t \<Rightarrow> t);
                    ident = p_event_id s1 + 1;
                    ev1 = ev\<lparr>e_ResourceVersion := rv, e_Seq := seq, e_TS := pe_time eng ts,
                             e_Payload := Some payload\<rparr>
                in if max_int64 < seq
                   then (Inl (engine_err ''bigint out of range''), s\<lparr>p_event_id := ident\<rparr>)
                   else (Inr ev1, s1\<lparr>p_events := p_events s1 @ [(ident, ev1)], p_event_id := ident\<rparr>))))"

definition pg_ListEvents :: "pg_engine \<Rightarrow> string \<Rightarrow> string \<Rightarrow> int \<Rightarrow> int \<Rightarrow> Postgres \<Rightarrow> go_error + event list" where
  "pg_ListEvents eng colony run sinceSeq limit s =
     (if \<not> (pe_text_ok eng colony \<and> pe_text_ok eng run)
      then Inl (engine_err ''invalid parameter'')
      else Inr (take (nat (clampPageSize limit))
             (sort_key e_Seq (filter (\<lambda>e. e_Seq e > sinceSeq) (run_events colony run s)))))"

section \<open>The store as a value of the interfaces\<close>

definition pg_ResourceStore :: "pg_engine \<Rightarrow> Postgres ResourceStore" where
  "pg_ResourceStore eng = \<lparr>rs_Apply = pg_Apply eng, rs_Get = pg_Get eng, rs_List = pg_List eng,
     rs_ApplyStatus = pg_ApplyStatus eng\<rparr>"

definition pg_EventStore :: "pg_engine \<Rightarrow> Postgres EventStore" where
  "pg_EventStore eng = \<lparr>es_Append = pg_Append eng, es_ListEvents = pg_ListEvents eng\<rparr>"

section \<open>Invariant\<close>

definition pg_live :: "Postgres \<Rightarrow> resKey \<Rightarrow> resource option" where
  "pg_live s = map_of (p_rows s)"

definition pg_row_ok :: "pg_engine \<Rightarrow> int \<Rightarrow> resKey \<Rightarrow> resource \<Rightarrow> bool" where
  "pg_row_ok eng v k r \<longleftrightarrow> key_of r = k \<and> r_DeletedAt r = None \<and> 1 \<le> r_Generation r
     \<and> r_Generation r \<le> r_ResourceVersion r \<and> r_ResourceVersion r \<le> v
     \<and> pe_text_ok eng (r_Kind r) \<and> pe_text_ok eng (r_Colony r) \<and> pe_text_ok eng (r_Name r)"

definition pg_inv :: "pg_engine \<Rightarrow> Postgres \<Rightarrow> bool" where
  "pg_inv eng s \<longleftrightarrow>
     distinct (map fst (p_rows s))
     \<and> (\<forall>k r. map_of (p_rows s) k = Some r \<longrightarrow> pg_row_ok eng (p_counter s) k r)
     \<and> 0 \<le> p_counter s \<and> p_counter s \<le> max_int64"

lemma pg_inv_init: "pg_inv eng init_postgres"
  by (simp add: pg_inv_def init_postgres_def)

lemma pg_inv_row: "pg_inv eng s \<Longrightarrow> map_of (p_rows s) k = Some r \<Longrightarrow> pg_row_ok eng (p_counter s) k r"
  unfolding pg_inv_def by blast

lemma pg_inv_counter: "pg_inv eng s \<Longrightarrow> 0 \<le> p_counter s \<and> p_counter s \<le> max_int64"
  unfolding pg_inv_def by blast

lemma pg_row_ok_mono: "pg_row_ok eng v k r \<Longrightarrow> v \<le> v' \<Longrightarrow> pg_row_ok eng v' k r"
  by (auto simp: pg_row_ok_def)

text \<open>A successful statement advances the counter and writes one row.\<close>

definition pg_put :: "resource \<Rightarrow> int \<Rightarrow> Postgres \<Rightarrow> Postgres" where
  "pg_put row v s = s\<lparr>p_counter := v, p_rows := AList.update (key_of row) row (p_rows s)\<rparr>"

lemma pg_put_simps [simp]:
  "p_counter (pg_put row v s) = v" "p_events (pg_put row v s) = p_events s"
  "p_rows (pg_put row v s) = AList.update (key_of row) row (p_rows s)"
  "p_event_id (pg_put row v s) = p_event_id s"
  by (simp_all add: pg_put_def)

lemma pg_put_inv:
  assumes inv: "pg_inv eng s" and v: "p_counter s \<le> v" "v \<le> max_int64"
    and row: "pg_row_ok eng v (key_of row) row"
  shows "pg_inv eng (pg_put row v s)"
proof -
  have "pg_row_ok eng v k r" if "map_of (p_rows (pg_put row v s)) k = Some r" for k r
    using that row pg_row_ok_mono [OF pg_inv_row [OF inv] v(1)] by (auto split: if_splits)
  then show ?thesis
    using inv v pg_inv_counter [OF inv] unfolding pg_inv_def pg_put_simps
    by (intro conjI distinct_fst_update allI impI) auto
qed

lemma pg_counter_inv:
  "pg_inv eng s \<Longrightarrow> p_counter s \<le> v \<Longrightarrow> v \<le> max_int64 \<Longrightarrow> pg_inv eng (s\<lparr>p_counter := v\<rparr>)"
  using pg_row_ok_mono unfolding pg_inv_def by fastforce

section \<open>The outcomes of Apply and ApplyStatus\<close>

lemma next_version_Some [simp]:
  "p_counter s < max_int64 \<Longrightarrow>
    hived_next_resource_version s = Some (p_counter s + 1, s\<lparr>p_counter := p_counter s + 1\<rparr>)"
  by (simp add: hived_next_resource_version_def Let_def)

lemma next_version_SomeD:
  "hived_next_resource_version s = Some (v, s') \<Longrightarrow>
    v = p_counter s + 1 \<and> s' = s\<lparr>p_counter := p_counter s + 1\<rparr> \<and> p_counter s < max_int64"
  by (cases "p_counter s < max_int64") (auto simp: hived_next_resource_version_def Let_def)

lemma insert_row_fields:
  assumes "insert_row eng e r st = Some ins"
  shows "key_of ins = key_of r" "r_Generation ins = 1" "r_DeletedAt ins = None"
    "r_UID ins = env_uid e" "pe_text_ok eng (r_Kind r)" "pe_text_ok eng (r_Colony r)"
    "pe_text_ok eng (r_Name r)" "pe_jsonb_in eng (jsonbBytes (r_Spec r)) = r_Spec ins"
    "pe_jsonb_in eng st = r_Status ins" "jsonb_labels eng (r_Labels r) = Some (r_Labels ins)"
    "jsonb_labels eng (r_Annotations r) = Some (r_Annotations ins)"
    "r_CreatedAt ins = pe_time eng (env_now e)" "r_UpdatedAt ins = pe_time eng (env_now e)"
  using assms
  by (auto simp: insert_row_eq key_of_def split: if_splits option.splits)

lemma key_of_set_version [simp]: "key_of (r\<lparr>r_ResourceVersion := v\<rparr>) = key_of r"
  by (simp add: key_of_def)

lemma key_of_set_status [simp]:
  "key_of (r\<lparr>r_Status := st, r_ResourceVersion := v, r_UpdatedAt := t\<rparr>) = key_of r"
  by (simp add: key_of_def)

lemma update_row_fields [simp]:
  "key_of (update_row eng e ex ins v) = key_of ex"
  "r_UID (update_row eng e ex ins v) = r_UID ex"
  "r_CreatedAt (update_row eng e ex ins v) = r_CreatedAt ex"
  "r_Status (update_row eng e ex ins v) = r_Status ex"
  "r_APIVersion (update_row eng e ex ins v) = r_APIVersion ex"
  "r_Spec (update_row eng e ex ins v) = r_Spec ins"
  "r_Labels (update_row eng e ex ins v) = r_Labels ins"
  "r_Annotations (update_row eng e ex ins v) = r_Annotations ins"
  "r_DeletedAt (update_row eng e ex ins v) = None"
  "r_ResourceVersion (update_row eng e ex ins v) = v"
  "r_Generation (update_row eng e ex ins v) =
     (if spec_distinct eng ex ins then r_Generation ex + 1 else r_Generation ex)"
  by (simp_all add: update_row_def key_of_def)

lemma update_row_names [simp]:
  "r_Kind (update_row eng e ex ins v) = r_Kind ex" "r_Colony (update_row eng e ex ins v) = r_Colony ex"
  "r_Name (update_row eng e ex ins v) = r_Name ex"
  by (simp_all add: update_row_def)

lemma pg_insertImmutable_cases:
  assumes "pg_insertImmutable eng e r s = (res, s')"
  obtains (failed) err where "res = Inl err" "s' = s" "err_is err = None"
  | (created) ins where "map_of (p_rows s) (key_of r) = None" "p_counter s < max_int64"
      "insert_row eng e r ''{}'' = Some ins"
      "res = Inr (ins\<lparr>r_ResourceVersion := p_counter s + 1\<rparr>)"
      "s' = pg_put (ins\<lparr>r_ResourceVersion := p_counter s + 1\<rparr>) (p_counter s + 1) s"
proof (cases "insert_row eng e r ''{}''")
  case None
  with assms failed show thesis by (auto simp: pg_insertImmutable_def engine_err_def)
next
  case (Some ins)
  show thesis
  proof (cases "p_counter s < max_int64 \<and> map_of (p_rows s) (key_of r) = None")
    case True
    with Some assms created [of ins] insert_row_fields(1) [OF Some] show thesis
      by (auto simp: pg_insertImmutable_def pg_put_def Let_def)
  next
    case False
    with Some assms failed show thesis
      by (auto simp: pg_insertImmutable_def hived_next_resource_version_def engine_err_def Let_def
          split: if_splits)
  qed
qed

lemma pg_applyMutable_cases:
  assumes "pg_applyMutable eng e r v s = (res, s')"
  obtains (failed) err where "res = Inl err" "s' = s" "err_is err = None"
  | (conflict) ex where "map_of (p_rows s) (key_of r) = Some ex"
      "r_DeletedAt ex \<noteq> None \<or> (v \<noteq> None \<and> v \<noteq> Some (r_ResourceVersion ex))"
      "res = Inl (wrap_err ErrConflict (key_text (r_Kind r) (r_Colony r) (r_Name r)))"
      "s' = s\<lparr>p_counter := p_counter s + 1\<rparr>" "p_counter s < max_int64"
  | (created) ins where "map_of (p_rows s) (key_of r) = None" "p_counter s < max_int64"
      "insert_row eng e r (jsonbBytes (r_Status r)) = Some ins"
      "res = Inr (ins\<lparr>r_ResourceVersion := p_counter s + 1\<rparr>)"
      "s' = pg_put (ins\<lparr>r_ResourceVersion := p_counter s + 1\<rparr>) (p_counter s + 1) s"
  | (unchanged) ins ex where "map_of (p_rows s) (key_of r) = Some ex" "p_counter s < max_int64"
      "insert_row eng e r (jsonbBytes (r_Status r)) = Some ins" "r_DeletedAt ex = None"
      "v = None \<or> v = Some (r_ResourceVersion ex)" "\<not> row_changed eng ex ins"
      "res = Inr (update_row eng e ex ins (r_ResourceVersion ex))"
      "s' = s\<lparr>p_counter := p_counter s + 1,
              p_rows := AList.update (key_of r) (update_row eng e ex ins (r_ResourceVersion ex)) (p_rows s)\<rparr>"
  | (updated) ins ex where "map_of (p_rows s) (key_of r) = Some ex" "p_counter s + 1 < max_int64"
      "insert_row eng e r (jsonbBytes (r_Status r)) = Some ins" "r_DeletedAt ex = None"
      "v = None \<or> v = Some (r_ResourceVersion ex)" "row_changed eng ex ins"
      "res = Inr (update_row eng e ex ins (p_counter s + 2))"
      "s' = s\<lparr>p_counter := p_counter s + 2,
              p_rows := AList.update (key_of r) (update_row eng e ex ins (p_counter s + 2)) (p_rows s)\<rparr>"
proof (cases "insert_row eng e r (jsonbBytes (r_Status r))")
  case None
  with assms failed show thesis by (auto simp: pg_applyMutable_def engine_err_def)
next
  case (Some ins)
  show thesis
  proof (cases "p_counter s < max_int64")
    case False
    with Some assms failed show thesis
      by (auto simp: pg_applyMutable_def hived_next_resource_version_def engine_err_def)
  next
    case room: True
    show thesis
    proof (cases "map_of (p_rows s) (key_of r)")
      case None
      with Some room assms created [of ins] insert_row_fields(1) [OF Some] show thesis
        by (auto simp: pg_applyMutable_def pg_put_def Let_def)
    next
      case ex: (Some ex)
      show thesis
      proof (cases "r_DeletedAt ex = None \<and> (v = None \<or> v = Some (r_ResourceVersion ex))")
        case False
        with Some room ex assms conflict show thesis
          by (auto simp: pg_applyMutable_def Let_def split: if_splits)
      next
        case ok: True
        show thesis
        proof (cases "row_changed eng ex ins")
          case False
          with Some room ex ok assms unchanged show thesis
            by (auto simp: pg_applyMutable_def Let_def)
        next
          case ch: True
          show thesis
          proof (cases "p_counter s + 1 < max_int64")
            case True
            then have "hived_next_resource_version (s\<lparr>p_counter := p_counter s + 1\<rparr>)
                = Some (p_counter s + 2, s\<lparr>p_counter := p_counter s + 2\<rparr>)"
              by simp
            with True Some room ex ok ch assms updated show thesis
              by (auto simp: pg_applyMutable_def Let_def)
          next
            case False
            then have "hived_next_resource_version (s\<lparr>p_counter := p_counter s + 1\<rparr>) = None"
              by (simp add: hived_next_resource_version_def)
            with Some room ex ok ch assms failed show thesis
              by (auto simp: pg_applyMutable_def engine_err_def Let_def)
          qed
        qed
      qed
    qed
  qed
qed

lemma pg_ApplyStatus_cases:
  assumes "pg_ApplyStatus eng e r s = (res, s')"
  obtains (failed) err where "res = Inl err" "s' = s"
  | (written) ex st where "map_of (p_rows s) (key_of r) = Some ex" "r_DeletedAt ex = None"
      "p_counter s < max_int64" "pe_jsonb_in eng (jsonbBytes (r_Status r)) = Some st"
      "res = Inr (ex\<lparr>r_Status := Some st, r_ResourceVersion := p_counter s + 1,
                    r_UpdatedAt := pe_time eng (env_now e)\<rparr>)"
      "s' = s\<lparr>p_counter := p_counter s + 1, p_rows := AList.update (key_of r)
              (ex\<lparr>r_Status := Some st, r_ResourceVersion := p_counter s + 1,
                  r_UpdatedAt := pe_time eng (env_now e)\<rparr>) (p_rows s)\<rparr>"
proof (cases "\<exists>ex st. map_of (p_rows s) (key_of r) = Some ex \<and> r_DeletedAt ex = None
    \<and> p_counter s < max_int64 \<and> pe_jsonb_in eng (jsonbBytes (r_Status r)) = Some st
    \<and> pe_text_ok eng (r_Kind r) \<and> pe_text_ok eng (r_Colony r) \<and> pe_text_ok eng (r_Name r)")
  case True
  with assms written show thesis by (auto simp: pg_ApplyStatus_def Let_def)
next
  case False
  with assms failed show thesis
    by (auto simp: pg_ApplyStatus_def hived_next_resource_version_def Let_def
        split: if_splits option.splits)
qed

section \<open>The contract is kept\<close>

text \<open>
  A row written under the key it is proposed for keeps the invariant; so every operation
  does.
\<close>

lemma pg_update_inv:
  assumes "pg_inv eng s" "map_of (p_rows s) k = Some ex" "p_counter s \<le> v" "v \<le> max_int64"
    and "key_of row = k" "r_Kind row = r_Kind ex" "r_Colony row = r_Colony ex" "r_Name row = r_Name ex"
    and "r_DeletedAt row = None" "1 \<le> r_Generation row" "r_Generation row \<le> r_ResourceVersion row"
    and "r_ResourceVersion row \<le> v"
  shows "pg_inv eng (s\<lparr>p_counter := v, p_rows := AList.update k row (p_rows s)\<rparr>)"
proof -
  have "pg_row_ok eng v (key_of row) row"
    using pg_inv_row [OF assms(1,2)] assms by (simp add: pg_row_ok_def)
  from pg_put_inv [OF assms(1,3,4) this] assms(5) show ?thesis by (simp add: pg_put_def)
qed

lemma pg_create_inv:
  assumes "pg_inv eng s" "insert_row eng e r st = Some ins" "p_counter s < max_int64"
  shows "pg_inv eng (pg_put (ins\<lparr>r_ResourceVersion := p_counter s + 1\<rparr>) (p_counter s + 1) s)"
proof -
  note f = insert_row_fields [OF assms(2)]
  have "r_Kind ins = r_Kind r" "r_Colony ins = r_Colony r" "r_Name ins = r_Name r"
    using f(1) by (simp_all add: key_of_def)
  with f pg_inv_counter [OF assms(1)] assms show ?thesis
    by (intro pg_put_inv) (auto simp: pg_row_ok_def)
qed

lemma pg_Apply_split:
  assumes "pg_Apply eng e r v s = (res, s')" "pg_inv eng s"
  obtains (same) ex where "map_of (p_rows s) (key_of r) = Some ex" "IsImmutableKind (r_Kind r)"
      "jsonEqual (r_Spec ex) (r_Spec r)" "res = Inr ex" "s' = s"
  | (immutable) ex where "map_of (p_rows s) (key_of r) = Some ex" "IsImmutableKind (r_Kind r)"
      "\<not> jsonEqual (r_Spec ex) (r_Spec r)"
      "res = Inl (wrap_err ErrImmutable (key_text (r_Kind r) (r_Colony r) (r_Name r)))" "s' = s"
  | (insert) "IsImmutableKind (r_Kind r)" "map_of (p_rows s) (key_of r) = None"
      "pg_insertImmutable eng e r s = (res, s')"
  | (failed) err where "IsImmutableKind (r_Kind r)" "map_of (p_rows s) (key_of r) = None"
      "res = Inl err" "s' = s" "err_is err = None"
  | (mutable) "\<not> IsImmutableKind (r_Kind r)" "pg_applyMutable eng e r v s = (res, s')"
proof (cases "IsImmutableKind (r_Kind r)")
  case False
  with assms mutable show thesis by (simp add: pg_Apply_def)
next
  case imm: True
  show thesis
  proof (cases "map_of (p_rows s) (key_of r)")
    case None
    with imm assms insert failed show thesis
      by (auto simp: pg_Apply_def pg_applyImmutable_def pg_Get_def key_of_def engine_err_def
          errors_Is_def split: if_splits)
  next
    case (Some ex)
    have "pg_row_ok eng (p_counter s) (key_of r) ex" by (rule pg_inv_row [OF assms(2) Some])
    with imm Some assms(1) show thesis
      by (cases "jsonEqual (r_Spec ex) (r_Spec r)")
        (auto simp: pg_Apply_def pg_applyImmutable_def pg_Get_def pg_row_ok_def key_of_def
          intro: same immutable)
  qed
qed

lemma pg_Apply_inv:
  assumes "pg_inv eng s" "pg_Apply eng e r v s = (res, s')"
  shows "pg_inv eng s' \<and> p_counter s \<le> p_counter s' \<and> p_counter s' \<le> p_counter s + 2"
  using assms(2,1)
proof (cases rule: pg_Apply_split)
  case insert
  from insert(3) show ?thesis
    by (cases rule: pg_insertImmutable_cases) (use assms(1) pg_create_inv in auto)
next
  case mutable
  from mutable(2) show ?thesis
  proof (cases rule: pg_applyMutable_cases)
    case (conflict ex)
    then show ?thesis using pg_counter_inv [OF assms(1)] by simp
  next
    case (created ins)
    then show ?thesis using pg_create_inv [OF assms(1)] by simp
  next
    case (unchanged ins ex)
    then show ?thesis
      using pg_inv_row [OF assms(1) unchanged(1)]
      by (auto simp: pg_row_ok_def row_changed_def intro!: pg_update_inv [OF assms(1) unchanged(1)])
  next
    case (updated ins ex)
    then show ?thesis
      using pg_inv_row [OF assms(1) updated(1)]
      by (auto simp: pg_row_ok_def intro!: pg_update_inv [OF assms(1) updated(1)])
  qed (use assms(1) in simp_all)
qed (use assms(1) in simp_all)

lemma pg_ApplyStatus_inv:
  assumes "pg_inv eng s" "pg_ApplyStatus eng e r s = (res, s')"
  shows "pg_inv eng s' \<and> p_counter s \<le> p_counter s' \<and> p_counter s' \<le> p_counter s + 2"
  using assms(2)
proof (cases rule: pg_ApplyStatus_cases)
  case (written ex st)
  then show ?thesis
    using pg_inv_row [OF assms(1) written(1)]
    by (auto simp: pg_row_ok_def intro!: pg_update_inv [OF assms(1) written(1)])
qed (use assms(1) in simp)

lemma pg_Apply_live:
  assumes "pg_inv eng s" "pg_Apply eng e r v s = (Inr out, s')"
  shows "pg_live s' = (pg_live s)(key_of r \<mapsto> out)"
  using assms(2,1)
proof (cases rule: pg_Apply_split)
  case insert
  from insert(3) show ?thesis
    by (cases rule: pg_insertImmutable_cases) (auto simp: pg_live_def insert_row_fields)
next
  case mutable
  from mutable(2) show ?thesis
    by (cases rule: pg_applyMutable_cases) (auto simp: pg_live_def insert_row_fields)
qed (auto simp: pg_live_def)

lemma pg_Apply_error:
  assumes "pg_inv eng s" "pg_Apply eng e r v s = (Inl err, s')"
  shows "pg_live s' = pg_live s"
  using assms(2,1)
proof (cases rule: pg_Apply_split)
  case insert
  from insert(3) show ?thesis
    by (cases rule: pg_insertImmutable_cases) (auto simp: pg_live_def)
next
  case mutable
  from mutable(2) show ?thesis
    by (cases rule: pg_applyMutable_cases) (auto simp: pg_live_def)
qed (auto simp: pg_live_def)

text \<open>The proposed row's stored spec is what the engine compares with the current one.\<close>

definition pg_same :: "pg_engine \<Rightarrow> resource \<Rightarrow> resource \<Rightarrow> bool" where
  "pg_same eng ex r \<longleftrightarrow>
     (case pe_jsonb_in eng (jsonbBytes (r_Spec r)) of
        None \<Rightarrow> False
      | Some sp \<Rightarrow> pe_jsonb_eq eng (bytes_of (r_Spec ex)) sp)"

definition pg_changed :: "pg_engine \<Rightarrow> resource \<Rightarrow> resource \<Rightarrow> bool" where
  "pg_changed eng ex r \<longleftrightarrow>
     \<not> pg_same eng ex r
     \<or> jsonb_labels eng (r_Labels r) \<noteq> Some (r_Labels ex)
     \<or> jsonb_labels eng (r_Annotations r) \<noteq> Some (r_Annotations ex)"

lemma insert_row_same:
  assumes "insert_row eng e r st = Some ins"
  shows "spec_distinct eng ex ins \<longleftrightarrow> \<not> pg_same eng ex r" "row_changed eng ex ins \<longleftrightarrow> pg_changed eng ex r"
proof -
  obtain sp where "pe_jsonb_in eng (jsonbBytes (r_Spec r)) = Some sp" "r_Spec ins = Some sp"
    using assms by (auto simp: insert_row_eq split: if_splits option.splits)
  then show s: "spec_distinct eng ex ins \<longleftrightarrow> \<not> pg_same eng ex r"
    by (simp add: spec_distinct_def pg_same_def bytes_of_def)
  show "row_changed eng ex ins \<longleftrightarrow> pg_changed eng ex r"
    using insert_row_fields(10,11) [OF assms] s by (auto simp: row_changed_def pg_changed_def)
qed

interpretation pg: resource_store "pg_ResourceStore eng" "pg_inv eng" pg_live p_counter
  "pg_same eng" "pg_changed eng" for eng
proof (unfold_locales, goal_cases)
  case (1 s k c n r)
  then show ?case
    using pg_inv_row [OF 1(1), of "(k, c, n)" r]
    by (auto simp: pg_ResourceStore_def pg_Get_def pg_live_def pg_row_ok_def key_of_def)
next
  case (2 s k c n)
  then show ?case by (simp add: pg_ResourceStore_def pg_Get_def pg_live_def)
next
  case (3 s k r)
  then show ?case using pg_inv_row [OF 3(1)] by (auto simp: pg_live_def pg_row_ok_def)
next
  case (4 s r e v res s')
  then show ?case using pg_Apply_inv [of eng s e r v res s'] by (simp add: pg_ResourceStore_def)
next
  case (5 s e r v err s')
  then show ?case by (simp add: pg_ResourceStore_def pg_Apply_error)
next
  case (6 s e r v out s')
  then show ?case using pg_Apply_live by (simp add: pg_ResourceStore_def)
next
  case (7 s r e v out s')
  then have "pg_Apply eng e r v s = (Inr out, s')" by (simp add: pg_ResourceStore_def)
  then show ?case using 7(1)
  proof (cases rule: pg_Apply_split)
    case insert
    from insert(3) show ?thesis
      by (cases rule: pg_insertImmutable_cases) (auto dest: insert_row_fields(2))
  next
    case mutable
    from mutable(2) show ?thesis
      using 7(3) by (cases rule: pg_applyMutable_cases) (auto simp: pg_live_def dest: insert_row_fields(2))
  qed (use 7(3) in \<open>auto simp: pg_live_def\<close>)
next
  case (8 s r ex e v out s')
  then have "pg_applyMutable eng e r v s = (Inr out, s')" by (simp add: pg_ResourceStore_def pg_Apply_def)
  then show ?case
    using 8(3) insert_row_same
    by (cases rule: pg_applyMutable_cases) (auto simp: pg_live_def row_changed_def)
next
  case (9 s r ex e rv out s')
  then have "pg_applyMutable eng e r (Some rv) s = (Inr out, s')"
    by (simp add: pg_ResourceStore_def pg_Apply_def)
  then show ?case using 9(2) by (cases rule: pg_applyMutable_cases) (auto simp: pg_live_def)
next
  case (10 s r ex e v)
  then have "pg_row_ok eng (p_counter s) (key_of r) ex"
    by (intro pg_inv_row) (auto simp: pg_live_def)
  with 10 show ?case
    by (auto simp: pg_ResourceStore_def pg_Apply_def pg_applyImmutable_def pg_Get_def pg_live_def
        pg_row_ok_def key_of_def)
next
  case (11 s e r res s')
  then show ?case using pg_ApplyStatus_inv [of eng s e r res s'] by (simp add: pg_ResourceStore_def)
next
  case (12 s e r err s')
  then have "pg_ApplyStatus eng e r s = (Inl err, s')" by (simp add: pg_ResourceStore_def)
  then show ?case by (cases rule: pg_ApplyStatus_cases) auto
next
  case (13 s e r out s')
  then have "pg_ApplyStatus eng e r s = (Inr out, s')" by (simp add: pg_ResourceStore_def)
  then show ?case by (cases rule: pg_ApplyStatus_cases) (auto simp: pg_live_def)
qed

end
