(* ===== verification/Pagination.thy ===== *)
theory Pagination
  imports MemoryStore PostgresStore
begin

text \<open>
  Paging through \<open>List\<close>: the caller starts with an empty token and follows
  \<open>NextPageToken\<close> until it is empty, as the conformance test of
  \<open>internal/store/store_test.go\<close> does. One locale carries the argument; both stores
  interpret it on their own \<open>List\<close>.
\<close>

section \<open>Following the tokens\<close>

text \<open>\<^const>\<open>None\<close>: a page failed, or the fuel ran out.\<close>

fun follow_pages :: "(string \<Rightarrow> go_error + list_result) \<Rightarrow> nat \<Rightarrow> string \<Rightarrow> resource list option" where
  "follow_pages f 0 token = None"
| "follow_pages f (Suc n) token =
     (case f token of
        Inl _ \<Rightarrow> None
      | Inr page \<Rightarrow>
          if lr_NextPageToken page = '''' then Some (lr_Items page)
          else map_option ((@) (lr_Items page)) (follow_pages f n (lr_NextPageToken page)))"

text \<open>The page made of the first \<open>n\<close> of the remaining items, and its token.\<close>

definition page_of :: "nat \<Rightarrow> resource list \<Rightarrow> resource list \<times> string" where
  "page_of n xs =
     (if n < length xs then (take n xs, encodePageToken (r_Colony (xs ! (n - 1))) (r_Name (xs ! (n - 1))))
      else (xs, ''''))"

definition is_page :: "go_error + list_result \<Rightarrow> resource list \<times> string \<Rightarrow> bool" where
  "is_page res p \<longleftrightarrow> (\<exists>v. res = Inr \<lparr>lr_Items = fst p, lr_NextPageToken = snd p, lr_ResourceVersion = v\<rparr>)"

lemma is_page_result: "is_page (Inr \<lparr>lr_Items = fst p, lr_NextPageToken = snd p, lr_ResourceVersion = v\<rparr>) p"
  by (simp add: is_page_def)

locale pager =
  fixes ok :: "'q \<Rightarrow> bool"
    and items :: "'q \<Rightarrow> resource list"
    and key :: "'q \<Rightarrow> resource \<Rightarrow> 'k::linorder"
    and size_of :: "'q \<Rightarrow> nat"
    and page :: "'q \<Rightarrow> string \<Rightarrow> go_error + list_result"
  assumes size_pos: "ok q \<Longrightarrow> 0 < size_of q"
    and sorted_items: "ok q \<Longrightarrow> sorted_wrt (<) (map (key q) (items q))"
    and first_page: "ok q \<Longrightarrow> is_page (page q '''') (page_of (size_of q) (items q))"
    and next_page: "ok q \<Longrightarrow> r \<in> set (items q) \<Longrightarrow>
      is_page (page q (encodePageToken (r_Colony r) (r_Name r)))
        (page_of (size_of q) (filter (\<lambda>x. key q r < key q x) (items q)))"
begin

lemma filter_after:
  assumes "ok q" "items q = ys @ r # zs"
  shows "filter (\<lambda>x. key q r < key q x) (items q) = zs"
proof -
  have "\<forall>y\<in>set ys. key q y < key q r" "\<forall>z\<in>set zs. key q r < key q z"
    using sorted_items [OF assms(1)] assms(2) by (auto simp: sorted_wrt_append)
  then show ?thesis using assms(2) by (auto simp: filter_empty_conv not_less intro: less_imp_le)
qed

lemma follow_suffix:
  assumes "ok q"
  shows "items q = ys @ xs \<Longrightarrow> is_page (page q t) (page_of (size_of q) xs) \<Longrightarrow> length xs < n \<Longrightarrow>
    follow_pages (page q) n t = Some xs"
proof (induction n arbitrary: ys xs t)
  case 0
  then show ?case by simp
next
  case (Suc n)
  let ?k = "size_of q"
  have k: "0 < ?k" using size_pos [OF assms] .
  obtain v where p: "page q t = Inr \<lparr>lr_Items = fst (page_of ?k xs),
      lr_NextPageToken = snd (page_of ?k xs), lr_ResourceVersion = v\<rparr>"
    using Suc.prems(2) by (auto simp: is_page_def)
  show ?case
  proof (cases "?k < length xs")
    case False
    with p show ?thesis by (simp add: page_of_def)
  next
    case True
    let ?r = "xs ! (?k - 1)"
    have split: "xs = take (?k - 1) xs @ ?r # drop ?k xs"
      using id_take_nth_drop [of "?k - 1" xs] k True by simp
    then have it: "items q = (ys @ take (?k - 1) xs) @ ?r # drop ?k xs"
      using Suc.prems(1) by (metis append.assoc)
    then have r: "?r \<in> set (items q)" by simp
    have "is_page (page q (encodePageToken (r_Colony ?r) (r_Name ?r))) (page_of ?k (drop ?k xs))"
      using next_page [OF assms r] filter_after [OF assms it] by simp
    moreover have "items q = (ys @ take ?k xs) @ drop ?k xs"
      using Suc.prems(1) by simp
    moreover have "length (drop ?k xs) < n" using Suc.prems(3) k True by simp
    ultimately have "follow_pages (page q) n (encodePageToken (r_Colony ?r) (r_Name ?r)) = Some (drop ?k xs)"
      by (intro Suc.IH)
    with p True show ?thesis by (simp add: page_of_def)
  qed
qed

lemma follow_all: "ok q \<Longrightarrow> length (items q) < n \<Longrightarrow> follow_pages (page q) n '''' = Some (items q)"
  using follow_suffix [of q "[]"] first_page by simp

end

section \<open>Sorted selections\<close>

lemma sorted_strict_sort_key:
  fixes f :: "resource \<Rightarrow> 'k::linorder"
  assumes "distinct (map f xs)"
  shows "sorted_wrt (<) (map f (sort_key f xs))"
proof -
  have "distinct (map f (sort_key f xs))"
    using assms by (simp add: distinct_map)
  then show ?thesis by (simp add: strict_sorted_iff)
qed

lemma cut_page_eq:
  assumes "0 < n" "n \<le> 1000" "length xs < 2147483648"
  shows "cut_page n xs = page_of (nat n) xs"
  using assms by (auto simp: cut_page_def page_of_def Let_def nat_diff_distrib)

text \<open>Cutting a page from one item more than it holds gives the same page as from all.\<close>

lemma cut_page_take:
  assumes "0 < n" "n \<le> 1000"
  shows "cut_page n (take (nat (n + 1)) xs) = page_of (nat n) xs"
proof -
  have n1: "nat (n + 1) = Suc (nat n)" using assms by simp
  have "cut_page n (take (nat (n + 1)) xs) = page_of (nat n) (take (nat (n + 1)) xs)"
    using assms n1 by (intro cut_page_eq) auto
  also have "\<dots> = page_of (nat n) xs"
    using assms n1 by (auto simp: page_of_def min_def)
  finally show ?thesis .
qed

section \<open>MemoryStore\<close>

type_synonym 's list_query = "'s \<times> string \<times> list_options"

definition mem_items :: "MemoryStore list_query \<Rightarrow> resource list" where
  "mem_items q = (case q of (m, kind, opts) \<Rightarrow>
     sort_key list_key (filter (mem_selects kind opts) (map snd (m_resources m))))"

definition mem_page :: "MemoryStore list_query \<Rightarrow> string \<Rightarrow> go_error + list_result" where
  "mem_page q token = (case q of (m, kind, opts) \<Rightarrow> mem_List kind (opts\<lparr>lo_PageToken := token\<rparr>) m)"

definition page_size :: "'s list_query \<Rightarrow> nat" where
  "page_size q = (case q of (s, kind, opts) \<Rightarrow> nat (clampPageSize (lo_PageSize opts)))"

text \<open>
  Paging is right when the invariant holds, the result fits an \<open>int32\<close>, and no colony
  holds the separator.
\<close>

definition mem_pageable :: "MemoryStore list_query \<Rightarrow> bool" where
  "mem_pageable q = (case q of (m, kind, opts) \<Rightarrow>
     mem_inv m \<and> length (m_resources m) < 2147483648
     \<and> (\<forall>r\<in>snd ` set (m_resources m). pageTokenSep \<notin> set (r_Colony r)))"

lemma mem_selects_token [simp]: "mem_selects kind (opts\<lparr>lo_PageToken := t\<rparr>) = mem_selects kind opts"
  by (simp add: mem_selects_def fun_eq_iff)

lemma keyed_list_distinct:
  assumes "distinct (map fst xs)" "\<forall>(k, r)\<in>set xs. key_of r = k" "\<And>r. P r \<Longrightarrow> r_Kind r = kind"
  shows "distinct (map list_key (filter P (map snd xs)))"
  using assms
proof (induction xs)
  case Nil
  then show ?case by simp
next
  case (Cons x xs)
  obtain k r where x: "x = (k, r)" by (cases x)
  have IH: "distinct (map list_key (filter P (map snd xs)))" using Cons by auto
  have "list_key r \<noteq> list_key r'" if P: "P r" "P r'" and r': "r' \<in> snd ` set xs" for r'
  proof
    assume "list_key r = list_key r'"
    then have eq: "key_of r = key_of r'" using P Cons.prems(3) by (simp add: list_key_def key_of_def)
    from r' obtain k' where k': "(k', r') \<in> set xs" by auto
    then have "key_of r' = k'" using Cons.prems(2) by auto
    moreover have "key_of r = k" using Cons.prems(2) x by auto
    ultimately have "k \<in> fst ` set xs" using k' eq by force
    then show False using Cons.prems(1) x by simp
  qed
  then have "P r \<Longrightarrow> list_key r \<notin> list_key ` set (filter P (map snd xs))" by auto
  with IH x show ?case by simp
qed

lemma mem_inv_entry: "mem_inv m \<Longrightarrow> (k, r) \<in> set (m_resources m) \<Longrightarrow> mem_row_ok (m_seq m) k r"
  by (intro mem_inv_row) (auto simp: mem_inv_def)

lemma mem_selected_distinct:
  assumes "mem_inv m"
  shows "distinct (map list_key (filter (mem_selects kind opts) (map snd (m_resources m))))"
proof (rule keyed_list_distinct)
  show "distinct (map fst (m_resources m))" using assms by (simp add: mem_inv_def)
  show "\<forall>(k, r)\<in>set (m_resources m). key_of r = k"
    using mem_inv_entry [OF assms] by (auto simp: mem_row_ok_def)
qed (simp add: mem_selects_def)

lemma mem_after_iff:
  "\<not> (r_Colony x < c \<or> r_Colony x = c \<and> r_Name x \<le> n) \<longleftrightarrow> (c, n) < list_key x"
  by (auto simp: list_key_def less_prod_def' not_less not_le)

lemma length_mem_items: "length (mem_items (m, kind, opts)) \<le> length (m_resources m)"
  using length_filter_le [of "mem_selects kind opts" "map snd (m_resources m)"]
  by (simp add: mem_items_def)

lemma mem_after_filter:
  "filter (\<lambda>r. \<not> (r_Colony r < c \<or> r_Colony r = c \<and> r_Name r \<le> n)) = filter (\<lambda>x. (c, n) < list_key x)"
  unfolding mem_after_iff ..

text \<open>What is left of the result after a token.\<close>

definition mem_rest :: "MemoryStore list_query \<Rightarrow> string \<Rightarrow> string \<times> string \<Rightarrow> resource list" where
  "mem_rest q token p =
     (if token = '''' then mem_items q else filter (\<lambda>x. p < list_key x) (mem_items q))"

lemma mem_page_eq:
  assumes "decodePageToken token = Inr p"
  shows "mem_page (m, kind, opts) token =
    Inr \<lparr>lr_Items = fst (cut_page (clampPageSize (lo_PageSize opts)) (mem_rest (m, kind, opts) token p)),
      lr_NextPageToken = snd (cut_page (clampPageSize (lo_PageSize opts)) (mem_rest (m, kind, opts) token p)),
      lr_ResourceVersion = m_seq m\<rparr>"
proof (cases p)
  case (Pair c n)
  have L: "mem_List kind (opts\<lparr>lo_PageToken := token\<rparr>) m =
      (let items = sort_key list_key (filter (mem_selects kind opts) (map snd (m_resources m)));
           rest = if token = [] then items else filter (\<lambda>x. (c, n) < list_key x) items
       in Inr \<lparr>lr_Items = fst (cut_page (clampPageSize (lo_PageSize opts)) rest),
            lr_NextPageToken = snd (cut_page (clampPageSize (lo_PageSize opts)) rest),
            lr_ResourceVersion = m_seq m\<rparr>)"
    using assms Pair unfolding mem_List_def mem_after_filter
    by (simp add: Let_def comp_def case_prod_beta)
  show ?thesis by (simp add: mem_page_def L Pair mem_items_def mem_rest_def Let_def)
qed

lemma length_mem_rest: "length (mem_rest (m, kind, opts) token p) \<le> length (m_resources m)"
  using length_mem_items [of m kind opts]
  by (auto simp: mem_rest_def intro: le_trans [OF length_filter_le])

lemma mem_page_is:
  assumes "mem_pageable (m, kind, opts)" "decodePageToken token = Inr p"
  shows "is_page (mem_page (m, kind, opts) token)
    (page_of (page_size (m, kind, opts)) (mem_rest (m, kind, opts) token p))"
proof -
  have "length (mem_rest (m, kind, opts) token p) < 2147483648"
    using assms(1) length_mem_rest [of m kind opts token p] by (simp add: mem_pageable_def)
  then have "cut_page (clampPageSize (lo_PageSize opts)) (mem_rest (m, kind, opts) token p)
      = page_of (page_size (m, kind, opts)) (mem_rest (m, kind, opts) token p)"
    using clampPageSize_bounds [of "lo_PageSize opts"] by (simp add: page_size_def cut_page_eq)
  then show ?thesis
    using mem_page_eq [OF assms(2), of m kind opts] by (simp add: is_page_result)
qed

lemma decode_empty_token [simp]: "decodePageToken '''' = Inr ('''', '''')"
  by (simp add: decodePageToken_def)

interpretation mem_pager: pager mem_pageable mem_items "\<lambda>_. list_key" page_size mem_page
proof (unfold_locales, goal_cases)
  case (1 q)
  then show ?case by (auto simp: page_size_def split: prod.splits)
next
  case (2 q)
  then show ?case
    by (auto simp: mem_items_def mem_pageable_def intro!: sorted_strict_sort_key mem_selected_distinct
        split: prod.splits)
next
  case (3 q)
  then show ?case
    using mem_page_is [of "fst q" "fst (snd q)" "snd (snd q)" "''''"] by (simp add: mem_rest_def)
next
  case (4 q r)
  obtain m kind opts where q: "q = (m, kind, opts)" by (cases q)
  have "pageTokenSep \<notin> set (r_Colony r)"
    using 4 q by (auto simp: mem_pageable_def mem_items_def)
  then show ?case
    using mem_page_is [of m kind opts "encodePageToken (r_Colony r) (r_Name r)"] 4(1) q
    by (simp add: mem_rest_def decode_encodePageToken list_key_def [of r])
qed

section \<open>PostgresStore\<close>

definition pg_selector :: "pg_engine \<Rightarrow> list_options \<Rightarrow> str_map" where
  "pg_selector eng opts = (case jsonb_labels eng (lo_LabelSelector opts) of
     None \<Rightarrow> fmempty | Some sel \<Rightarrow> sel)"

definition pg_items :: "pg_engine \<Rightarrow> Postgres list_query \<Rightarrow> resource list" where
  "pg_items eng q = (case q of (s, kind, opts) \<Rightarrow>
     sort_key (pg_key eng \<circ> list_key)
       (filter (pg_selects kind (lo_Colony opts) (pg_selector eng opts)) (map snd (p_rows s))))"

definition pg_page :: "pg_engine \<Rightarrow> Postgres list_query \<Rightarrow> string \<Rightarrow> go_error + list_result" where
  "pg_page eng q token = (case q of (s, kind, opts) \<Rightarrow> pg_List eng kind (opts\<lparr>lo_PageToken := token\<rparr>) s)"

text \<open>
  What paging takes from the engine: the collation orders distinct names apart, no \<open>text\<close>
  holds a NUL byte (both documented of PostgreSQL), and the query's own parameters are
  accepted.
\<close>

definition pg_pageable :: "pg_engine \<Rightarrow> Postgres list_query \<Rightarrow> bool" where
  "pg_pageable eng q = (case q of (s, kind, opts) \<Rightarrow>
     pg_inv eng s \<and> inj (pe_coll eng) \<and> (\<forall>t. pe_text_ok eng t \<longrightarrow> pageTokenSep \<notin> set t)
     \<and> pe_text_ok eng '''' \<and> pe_text_ok eng kind \<and> pe_text_ok eng (lo_Colony opts)
     \<and> jsonb_labels eng (lo_LabelSelector opts) \<noteq> None)"

lemma pg_inv_entry: "pg_inv eng s \<Longrightarrow> (k, r) \<in> set (p_rows s) \<Longrightarrow> pg_row_ok eng (p_counter s) k r"
  by (intro pg_inv_row) (auto simp: pg_inv_def)

lemma pg_selected_distinct:
  assumes "pg_inv eng s" "inj (pe_coll eng)"
  shows "distinct (map (pg_key eng \<circ> list_key) (filter (pg_selects kind c sel) (map snd (p_rows s))))"
proof -
  have "distinct (map list_key (filter (pg_selects kind c sel) (map snd (p_rows s))))"
  proof (rule keyed_list_distinct)
    show "distinct (map fst (p_rows s))" using assms(1) by (simp add: pg_inv_def)
    show "\<forall>(k, r)\<in>set (p_rows s). key_of r = k"
      using pg_inv_entry [OF assms(1)] by (auto simp: pg_row_ok_def)
  qed (simp add: pg_selects_def)
  moreover have "inj (pg_key eng)"
    using assms(2) by (auto simp: inj_def pg_key_def)
  ultimately show ?thesis
    by (auto simp: distinct_map intro: comp_inj_on inj_on_subset [OF _ subset_UNIV])
qed

definition pg_rest :: "pg_engine \<Rightarrow> Postgres list_query \<Rightarrow> string \<Rightarrow> string \<times> string \<Rightarrow> resource list" where
  "pg_rest eng q token p =
     (if token = '''' then pg_items eng q
      else filter (\<lambda>x. pg_key eng p < (pg_key eng \<circ> list_key) x) (pg_items eng q))"

lemma pg_page_is:
  assumes "pg_pageable eng (s, kind, opts)" "decodePageToken token = Inr p"
    and "pe_text_ok eng (fst p)" "pe_text_ok eng (snd p)"
  shows "is_page (pg_page eng (s, kind, opts) token)
    (page_of (page_size (s, kind, opts)) (pg_rest eng (s, kind, opts) token p))"
proof (cases p)
  case (Pair c n)
  obtain sel where sel: "jsonb_labels eng (lo_LabelSelector opts) = Some sel"
    using assms(1) by (auto simp: pg_pageable_def)
  let ?k = "clampPageSize (lo_PageSize opts)"
  let ?P = "pg_selects kind (lo_Colony opts) sel"
  have rest: "sort_key (pg_key eng \<circ> list_key) (filter (\<lambda>r. ?P r
       \<and> (token \<noteq> [] \<longrightarrow> pg_key eng (list_key r) > pg_key eng (c, n))) (map snd (p_rows s)))
      = pg_rest eng (s, kind, opts) token p"
    using sel Pair
    by (simp add: pg_rest_def pg_items_def pg_selector_def filter_sort conj_commute)
  have "is_page (pg_List eng kind (opts\<lparr>lo_PageToken := token\<rparr>) s)
      (cut_page ?k (take (nat (?k + 1)) (pg_rest eng (s, kind, opts) token p)))"
    using assms sel Pair
    by (simp add: pg_List_def pg_List2_def Let_def pg_pageable_def is_page_def case_prod_beta rest)
  then show ?thesis
    using clampPageSize_bounds [of "lo_PageSize opts"]
    by (simp add: pg_page_def page_size_def cut_page_take)
qed

interpretation pg_pager: pager "pg_pageable eng" "pg_items eng" "\<lambda>_. pg_key eng \<circ> list_key" page_size
  "pg_page eng" for eng
proof (unfold_locales, goal_cases)
  case (1 q)
  then show ?case by (auto simp: page_size_def split: prod.splits)
next
  case (2 q)
  then show ?case
    by (auto simp: pg_items_def pg_pageable_def intro!: sorted_strict_sort_key pg_selected_distinct
        split: prod.splits)
next
  case (3 q)
  then show ?case
    using pg_page_is [of eng "fst q" "fst (snd q)" "snd (snd q)" "''''" "('''', '''')"]
    by (auto simp: pg_rest_def pg_pageable_def)
next
  case (4 q r)
  obtain s kind opts where q: "q = (s, kind, opts)" by (cases q)
  have inv: "pg_inv eng s" and nul: "\<And>t. pe_text_ok eng t \<Longrightarrow> pageTokenSep \<notin> set t"
    using 4(1) q by (auto simp: pg_pageable_def)
  have r: "pe_text_ok eng (r_Colony r)" "pe_text_ok eng (r_Name r)"
    using 4(2) q pg_inv_entry [OF inv] by (auto simp: pg_items_def pg_row_ok_def)
  then show ?case
    using pg_page_is [of eng s kind opts "encodePageToken (r_Colony r) (r_Name r)"] 4(1) q nul
    by (simp add: pg_rest_def decode_encodePageToken list_key_def [of r])
qed

section \<open>The order of the Go map does not show\<close>

text \<open>
  \<open>MemoryStore.List\<close> ranges over a Go map, whose order is unspecified: two stores with the
  same entries in any order list the same.
\<close>

lemma mem_items_order:
  assumes "mem_inv m" "mem_inv m'" "set (m_resources m) = set (m_resources m')"
  shows "mem_items (m, kind, opts) = mem_items (m', kind, opts)"
proof -
  let ?xs = "\<lambda>m. filter (mem_selects kind opts) (map snd (m_resources m))"
  have d: "distinct (map list_key (?xs m))" "distinct (map list_key (?xs m'))"
    using mem_selected_distinct assms(1,2) by blast+
  have "set (?xs m) = snd ` set (m_resources m) \<inter> Collect (mem_selects kind opts)" for m by auto
  then have s: "set (?xs m) = set (?xs m')" using assms(3) by simp
  show ?thesis
    unfolding mem_items_def prod.case
    using s inj_on_distinct_map [OF d(1)] sorted_distinct_key_sort [OF d(1)] sorted_distinct_key_sort [OF d(2)]
    by (intro sorted_key_set_unique [where f = list_key]) (simp_all only: set_sort)
qed

lemma mem_List_order:
  assumes "mem_inv m" "mem_inv m'" "set (m_resources m) = set (m_resources m')" "m_seq m = m_seq m'"
  shows "mem_List kind opts m = mem_List kind opts m'"
proof -
  have "sort_key list_key (filter (mem_selects kind opts) (map (cloneResource \<circ> snd) (m_resources m)))
      = sort_key list_key (filter (mem_selects kind opts) (map (cloneResource \<circ> snd) (m_resources m')))"
    using mem_items_order [OF assms(1-3), of kind opts] by (simp add: mem_items_def comp_def)
  then show ?thesis unfolding mem_List_def assms(4) by (simp only:)
qed

section \<open>Label selectors\<close>

text \<open>
  The two stores agree on a selector unless one of its values is empty: the Go map reads a
  missing label as the empty string, \<open>@>\<close> requires the label to be there.
\<close>

lemma pg_contains_matches: "pg_contains labels sel \<Longrightarrow> matchesLabels labels sel"
  by (auto simp: pg_contains_def matchesLabels_def fmpred_iff map_index_def)

lemma matches_pg_contains:
  assumes "\<And>k. fmlookup sel k \<noteq> Some ''''"
  shows "matchesLabels labels sel \<longleftrightarrow> pg_contains labels sel"
  using assms
  by (fastforce simp: pg_contains_def matchesLabels_def fmpred_iff map_index_def split: option.splits)

end
