(* ===== verification/Watch.thy ===== *)
theory Watch
  imports StoreTypes
begin

text \<open>
  The poll-based \<open>Watch\<close> and \<open>WatchEvents\<close> goroutines of \<open>internal/store/memory.go\<close> and
  \<open>postgres.go\<close>: one goroutine polls the store past its cursor, sends what it found one
  item at a time, and advances the cursor; bookmarks come between polls; other goroutines
  write to the store between any two of its steps. The four goroutines differ in the poll
  and in what they send, the record \<open>feed\<close>. The locale \<open>feed_source\<close> states what a poll
  and a write must keep for the watch to be complete, and proves that it is.
\<close>

section \<open>The goroutine\<close>

text \<open>
  \<open>fd_poll s cursor\<close>: the due items with their versions. \<open>fd_emit\<close>: what is sent for one,
  with the session's set of UIDs. \<open>fd_mark\<close>: the bookmark, if the goroutine sends any.
\<close>

record ('s, 'x, 'o) feed =
  fd_poll :: "'s \<Rightarrow> int \<Rightarrow> (int \<times> 'x) list"
  fd_emit :: "int \<Rightarrow> 'x \<Rightarrow> string list \<Rightarrow> 'o \<times> string list"
  fd_mark :: "int \<Rightarrow> 'o option"

text \<open>\<open>w_sent\<close> is everything put on the channel, in order; \<open>w_pending\<close> the rest of the poll.\<close>

record ('x, 'o) watcher =
  w_cursor :: int
  w_seen :: "string list"
  w_pending :: "(int \<times> 'x) list"
  w_sent :: "'o list"
  w_done :: bool

definition watch_start :: "int \<Rightarrow> ('x, 'o) watcher" where
  "watch_start since = \<lparr>w_cursor = since, w_seen = [], w_pending = [], w_sent = [], w_done = False\<rparr>"

definition watch_send :: "('s, 'x, 'o) feed \<Rightarrow> int \<Rightarrow> 'x \<Rightarrow> (int \<times> 'x) list \<Rightarrow> ('x, 'o) watcher \<Rightarrow> ('x, 'o) watcher" where
  "watch_send F v x rest w =
     (let (ev, seen) = fd_emit F v x (w_seen w)
      in w\<lparr>w_sent := w_sent w @ [ev], w_seen := seen, w_pending := rest,
           w_cursor := (if v > w_cursor w then v else w_cursor w)\<rparr>)"

inductive watch_step ::
  "('s \<Rightarrow> 's \<Rightarrow> bool) \<Rightarrow> ('s, 'x, 'o) feed \<Rightarrow> 's \<times> ('x, 'o) watcher \<Rightarrow> 's \<times> ('x, 'o) watcher \<Rightarrow> bool"
  for wr :: "'s \<Rightarrow> 's \<Rightarrow> bool" and F :: "('s, 'x, 'o) feed" where
  wrote: "wr s s' \<Longrightarrow> watch_step wr F (s, w) (s', w)"
| tick: "\<not> w_done w \<Longrightarrow> w_pending w = [] \<Longrightarrow>
    watch_step wr F (s, w) (s, w\<lparr>w_pending := fd_poll F s (w_cursor w)\<rparr>)"
| send: "\<not> w_done w \<Longrightarrow> w_pending w = (v, x) # rest \<Longrightarrow>
    watch_step wr F (s, w) (s, watch_send F v x rest w)"
| bookmark: "\<not> w_done w \<Longrightarrow> w_pending w = [] \<Longrightarrow> fd_mark F (w_cursor w) = Some ev \<Longrightarrow>
    watch_step wr F (s, w) (s, w\<lparr>w_sent := w_sent w @ [ev]\<rparr>)"
| cancel: "watch_step wr F (s, w) (s, w\<lparr>w_done := True, w_pending := []\<rparr>)"

text \<open>One undisturbed poll, sent to its end, and \<open>n\<close> of them.\<close>

fun watch_flush :: "('s, 'x, 'o) feed \<Rightarrow> (int \<times> 'x) list \<Rightarrow> ('x, 'o) watcher \<Rightarrow> ('x, 'o) watcher" where
  "watch_flush F [] w = w"
| "watch_flush F ((v, x) # rest) w = watch_flush F rest (watch_send F v x rest w)"

definition watch_round :: "('s, 'x, 'o) feed \<Rightarrow> 's \<Rightarrow> ('x, 'o) watcher \<Rightarrow> ('x, 'o) watcher" where
  "watch_round F s w =
     (let due = fd_poll F s (w_cursor w) in watch_flush F due (w\<lparr>w_pending := due\<rparr>))"

fun watch_rounds :: "('s, 'x, 'o) feed \<Rightarrow> 's \<Rightarrow> nat \<Rightarrow> ('x, 'o) watcher \<Rightarrow> ('x, 'o) watcher" where
  "watch_rounds F s 0 w = w"
| "watch_rounds F s (Suc n) w = watch_rounds F s n (watch_round F s w)"

inductive_cases watch_stepE: "watch_step wr F (s, w) c'"

lemma watch_start_simps [simp]:
  "w_cursor (watch_start since) = since" "w_pending (watch_start since) = []"
  "w_sent (watch_start since) = []" "\<not> w_done (watch_start since)"
  by (simp_all add: watch_start_def)

lemma watch_send_simps [simp]:
  "w_pending (watch_send F v x rest w) = rest" "w_done (watch_send F v x rest w) = w_done w"
  "w_cursor (watch_send F v x rest w) = (if v > w_cursor w then v else w_cursor w)"
  "w_sent (watch_send F v x rest w) = w_sent w @ [fst (fd_emit F v x (w_seen w))]"
  by (simp_all add: watch_send_def case_prod_beta)

lemma watch_flush_steps:
  "w_pending w = due \<Longrightarrow> \<not> w_done w \<Longrightarrow> (watch_step wr F)\<^sup>*\<^sup>* (s, w) (s, watch_flush F due w)"
proof (induction due arbitrary: w)
  case Nil
  then show ?case by simp
next
  case (Cons p due)
  obtain v x where p: "p = (v, x)" by (cases p)
  have "watch_step wr F (s, w) (s, watch_send F v x due w)"
    using Cons.prems p by (intro watch_step.send) auto
  moreover have "(watch_step wr F)\<^sup>*\<^sup>* (s, watch_send F v x due w) (s, watch_flush F due (watch_send F v x due w))"
    using Cons.prems by (intro Cons.IH) auto
  ultimately show ?case using p by (simp add: converse_rtranclp_into_rtranclp)
qed

lemma watch_flush_simps [simp]: "w_done (watch_flush F due w) = w_done w"
  by (induction F due w rule: watch_flush.induct) auto

lemma watch_flush_pending [simp]: "w_pending w = due \<Longrightarrow> w_pending (watch_flush F due w) = []"
  by (induction F due w rule: watch_flush.induct) auto

lemma watch_flush_cursor:
  "sorted_wrt (<) (map fst due) \<Longrightarrow> \<forall>p\<in>set due. w_cursor w < fst p \<Longrightarrow>
    w_cursor (watch_flush F due w) = (if due = [] then w_cursor w else fst (last due))"
  by (induction F due w rule: watch_flush.induct) auto

lemma watch_round_steps:
  assumes "w_pending w = []" "\<not> w_done w"
  shows "(watch_step wr F)\<^sup>*\<^sup>* (s, w) (s, watch_round F s w)"
    and "w_pending (watch_round F s w) = []" "\<not> w_done (watch_round F s w)"
proof -
  let ?w = "w\<lparr>w_pending := fd_poll F s (w_cursor w)\<rparr>"
  have "watch_step wr F (s, w) (s, ?w)" using assms by (intro watch_step.tick) auto
  moreover have "(watch_step wr F)\<^sup>*\<^sup>* (s, ?w) (s, watch_round F s w)"
    unfolding watch_round_def Let_def using assms by (intro watch_flush_steps) auto
  ultimately show "(watch_step wr F)\<^sup>*\<^sup>* (s, w) (s, watch_round F s w)"
    by (simp add: converse_rtranclp_into_rtranclp)
  show "w_pending (watch_round F s w) = []" "\<not> w_done (watch_round F s w)"
    using assms by (simp_all add: watch_round_def Let_def)
qed

lemma watch_rounds_steps:
  "w_pending w = [] \<Longrightarrow> \<not> w_done w \<Longrightarrow>
    (watch_step wr F)\<^sup>*\<^sup>* (s, w) (s, watch_rounds F s n w) \<and> w_pending (watch_rounds F s n w) = []
    \<and> \<not> w_done (watch_rounds F s n w)"
proof (induction n arbitrary: w)
  case 0
  then show ?case by simp
next
  case (Suc n)
  note r = watch_round_steps [OF Suc.prems, where F = F and s = s]
  from Suc.IH [OF r(2,3)] r(1) [where wr = wr] show ?case by (auto intro: rtranclp_trans)
qed

section \<open>The contract of a poll, and completeness\<close>

text \<open>
  \<open>current s\<close>: the keys the store holds with their versions. A poll is in order and past
  the cursor, and holds every current item past the cursor unless the page was cut before
  it; a write gives new items a version past the watermark. \<open>wanted\<close>: the items this watch
  is about. \<open>view\<close> reads version and key back from what was sent, \<^const>\<open>None\<close> for a
  bookmark.
\<close>

definition delivered :: "('o \<Rightarrow> (int \<times> 'k) option) \<Rightarrow> 'o list \<Rightarrow> (int \<times> 'k) list" where
  "delivered view evs = List.map_filter view evs"

lemma delivered_simps [simp]:
  "delivered view [] = []"
  "delivered view (xs @ ys) = delivered view xs @ delivered view ys"
  "delivered view [e] = (case view e of None \<Rightarrow> [] | Some p \<Rightarrow> [p])"
  by (simp_all add: delivered_def List.map_filter_def split: option.splits)

locale feed_source =
  fixes wr :: "'s \<Rightarrow> 's \<Rightarrow> bool"
    and F :: "('s, 'x, 'o) feed"
    and inv :: "'s \<Rightarrow> bool"
    and watermark :: "'s \<Rightarrow> int"
    and current :: "'s \<Rightarrow> ('k \<times> int) set"
    and key :: "'x \<Rightarrow> 'k"
    and wanted :: "int \<times> 'x \<Rightarrow> bool"
    and view :: "'o \<Rightarrow> (int \<times> 'k) option"
  assumes poll_wanted: "inv s \<Longrightarrow> p \<in> set (fd_poll F s c) \<Longrightarrow> wanted p"
    and poll_after: "inv s \<Longrightarrow> p \<in> set (fd_poll F s c) \<Longrightarrow> c < fst p \<and> fst p \<le> watermark s"
    and poll_sorted: "inv s \<Longrightarrow> sorted_wrt (<) (map fst (fd_poll F s c))"
    and poll_complete: "inv s \<Longrightarrow> (k, v) \<in> current s \<Longrightarrow> c < v \<Longrightarrow>
      (\<exists>x. (v, x) \<in> set (fd_poll F s c) \<and> key x = k)
      \<or> fd_poll F s c \<noteq> [] \<and> fst (last (fd_poll F s c)) < v"
    and write_ok: "inv s \<Longrightarrow> wr s s' \<Longrightarrow> inv s' \<and> watermark s \<le> watermark s'
      \<and> (\<forall>(k, v)\<in>current s'. (k, v) \<in> current s \<or> watermark s < v)"
    and emit_view: "wanted (v, x) \<Longrightarrow> view (fst (fd_emit F v x seen)) = Some (v, key x)"
    and mark_view: "fd_mark F c = Some ev \<Longrightarrow> view ev = None"
begin

definition watch_ok :: "int \<Rightarrow> 's \<times> ('x, 'o) watcher \<Rightarrow> bool" where
  "watch_ok since c = (case c of (s, w) \<Rightarrow>
     inv s \<and> since \<le> w_cursor w \<and> (w_cursor w = since \<or> w_cursor w \<le> watermark s)
     \<and> sorted_wrt (<) (map fst (delivered view (w_sent w)))
     \<and> (\<forall>p\<in>set (delivered view (w_sent w)). since < fst p \<and> fst p \<le> w_cursor w
          \<and> (\<exists>x. wanted (fst p, x) \<and> key x = snd p))
     \<and> sorted_wrt (<) (map fst (w_pending w))
     \<and> (\<forall>p\<in>set (w_pending w). w_cursor w < fst p \<and> fst p \<le> watermark s \<and> wanted p)
     \<and> (\<forall>(k, v)\<in>current s. since < v \<and> v \<le> w_cursor w \<longrightarrow> (v, k) \<in> set (delivered view (w_sent w)))
     \<and> (\<forall>(k, v)\<in>current s. w_pending w \<noteq> [] \<and> w_cursor w < v \<and> v \<le> fst (last (w_pending w)) \<longrightarrow>
          (\<exists>x. (v, x) \<in> set (w_pending w) \<and> key x = k)))"

lemma watch_okD:
  assumes "watch_ok since (s, w)"
  shows "inv s" "since \<le> w_cursor w" "w_cursor w = since \<or> w_cursor w \<le> watermark s"
    "sorted_wrt (<) (map fst (delivered view (w_sent w)))"
    "\<And>p. p \<in> set (delivered view (w_sent w)) \<Longrightarrow> since < fst p \<and> fst p \<le> w_cursor w
      \<and> (\<exists>x. wanted (fst p, x) \<and> key x = snd p)"
    "sorted_wrt (<) (map fst (w_pending w))"
    "\<And>p. p \<in> set (w_pending w) \<Longrightarrow> w_cursor w < fst p \<and> fst p \<le> watermark s \<and> wanted p"
    "\<And>k v. (k, v) \<in> current s \<Longrightarrow> since < v \<Longrightarrow> v \<le> w_cursor w \<Longrightarrow> (v, k) \<in> set (delivered view (w_sent w))"
    "\<And>k v. (k, v) \<in> current s \<Longrightarrow> w_pending w \<noteq> [] \<Longrightarrow> w_cursor w < v \<Longrightarrow>
      v \<le> fst (last (w_pending w)) \<Longrightarrow> \<exists>x. (v, x) \<in> set (w_pending w) \<and> key x = k"
  using assms unfolding watch_ok_def prod.case by blast+

lemma watch_okI:
  assumes "inv s" "since \<le> w_cursor w" "w_cursor w = since \<or> w_cursor w \<le> watermark s"
    "sorted_wrt (<) (map fst (delivered view (w_sent w)))"
    "\<And>p. p \<in> set (delivered view (w_sent w)) \<Longrightarrow> since < fst p \<and> fst p \<le> w_cursor w
      \<and> (\<exists>x. wanted (fst p, x) \<and> key x = snd p)"
    "sorted_wrt (<) (map fst (w_pending w))"
    "\<And>p. p \<in> set (w_pending w) \<Longrightarrow> w_cursor w < fst p \<and> fst p \<le> watermark s \<and> wanted p"
    "\<And>k v. (k, v) \<in> current s \<Longrightarrow> since < v \<Longrightarrow> v \<le> w_cursor w \<Longrightarrow> (v, k) \<in> set (delivered view (w_sent w))"
    "\<And>k v. (k, v) \<in> current s \<Longrightarrow> w_pending w \<noteq> [] \<Longrightarrow> w_cursor w < v \<Longrightarrow>
      v \<le> fst (last (w_pending w)) \<Longrightarrow> \<exists>x. (v, x) \<in> set (w_pending w) \<and> key x = k"
  shows "watch_ok since (s, w)"
  using assms unfolding watch_ok_def prod.case by blast

lemma watch_ok_start: "inv s \<Longrightarrow> watch_ok since (s, watch_start since)"
  by (rule watch_okI) simp_all

lemma watch_ok_write:
  assumes ok: "watch_ok since (s, w)" and wr: "wr s s'"
  shows "watch_ok since (s', w)"
proof -
  note D = watch_okD [OF ok]
  note W = write_ok [OF D(1) wr]
  have new: "(k, v) \<in> current s \<or> watermark s < v" if "(k, v) \<in> current s'" for k v
    using W that by blast
  have last: "fst (last (w_pending w)) \<le> watermark s" if "w_pending w \<noteq> []"
    using D(7) [OF last_in_set [OF that]] by simp
  show ?thesis
  proof (rule watch_okI)
    fix k v assume "(k, v) \<in> current s'" "since < v" "v \<le> w_cursor w"
    then show "(v, k) \<in> set (delivered view (w_sent w))"
      using new [of k v] D(3) D(8) [of k v] by linarith
  next
    fix k v assume "(k, v) \<in> current s'" "w_pending w \<noteq> []" "w_cursor w < v"
      "v \<le> fst (last (w_pending w))"
    then show "\<exists>x. (v, x) \<in> set (w_pending w) \<and> key x = k"
      using new [of k v] D(9) [of k v] last by fastforce
  next
    fix p assume "p \<in> set (w_pending w)"
    then show "w_cursor w < fst p \<and> fst p \<le> watermark s' \<and> wanted p" using D(7) [of p] W by auto
  qed (use W D in \<open>auto\<close>)
qed

lemma watch_ok_tick:
  assumes ok: "watch_ok since (s, w)" and idle: "w_pending w = []"
  shows "watch_ok since (s, w\<lparr>w_pending := fd_poll F s (w_cursor w)\<rparr>)"
proof -
  note D = watch_okD [OF ok]
  have "\<exists>x. (v, x) \<in> set (fd_poll F s (w_cursor w)) \<and> key x = k"
    if "(k, v) \<in> current s" "w_cursor w < v" "v \<le> fst (last (fd_poll F s (w_cursor w)))" for k v
    using poll_complete [OF D(1) that(1,2)] that(3) by auto
  then show ?thesis
    using D poll_after [OF D(1)] poll_sorted [OF D(1)] poll_wanted [OF D(1)] by (intro watch_okI) simp_all
qed

lemma watch_ok_send:
  assumes ok: "watch_ok since (s, w)" and p: "w_pending w = (v, x) # rest"
  shows "watch_ok since (s, watch_send F v x rest w)"
proof -
  note D = watch_okD [OF ok]
  have v: "w_cursor w < v" "v \<le> watermark s" "wanted (v, x)" using D(7) [of "(v, x)"] p by auto
  have rest: "v < fst q" "fst q \<le> watermark s" "wanted q" if "q \<in> set rest" for q
    using D(6) D(7) [of q] p that by auto
  have d: "delivered view (w_sent (watch_send F v x rest w)) = delivered view (w_sent w) @ [(v, key x)]"
    by (simp add: emit_view [OF v(3)])
  have cur: "w_cursor (watch_send F v x rest w) = v" using v by simp
  have pend: "u = v \<and> k = key x \<or> (\<exists>y. (u, y) \<in> set rest \<and> key y = k)"
    if "(k, u) \<in> current s" "w_cursor w < u" "u \<le> fst (last (w_pending w))" for k u
    using D(9) [OF that(1) _ that(2,3)] p by auto
  have lastv: "v \<le> fst (last (w_pending w))"
    using p rest(1) [of "last rest"] by (cases "rest = []") auto
  show ?thesis
  proof (rule watch_okI)
    show "sorted_wrt (<) (map fst (delivered view (w_sent (watch_send F v x rest w))))"
      unfolding d using D(4,5) v(1) by (fastforce simp: sorted_wrt_append)
  next
    fix k u assume u: "(k, u) \<in> current s" "since < u" "u \<le> w_cursor (watch_send F v x rest w)"
    then have "u \<le> v" by (simp only: cur)
    then show "(u, k) \<in> set (delivered view (w_sent (watch_send F v x rest w)))"
      unfolding d using D(8) [OF u(1,2)] pend [OF u(1)] lastv rest(1) by (cases "u \<le> w_cursor w") fastforce+
  next
    fix k u assume "(k, u) \<in> current s" "w_pending (watch_send F v x rest w) \<noteq> []"
      "w_cursor (watch_send F v x rest w) < u" "u \<le> fst (last (w_pending (watch_send F v x rest w)))"
    then show "\<exists>y. (u, y) \<in> set (w_pending (watch_send F v x rest w)) \<and> key y = k"
      unfolding cur using pend [of k u] p v(1) by auto
  next
    fix q assume "q \<in> set (delivered view (w_sent (watch_send F v x rest w)))"
    then show "since < fst q \<and> fst q \<le> w_cursor (watch_send F v x rest w)
        \<and> (\<exists>x. wanted (fst q, x) \<and> key x = snd q)"
      unfolding d cur using D(2) D(5) [of q] v(1,3) by auto
  next
    fix q assume "q \<in> set (w_pending (watch_send F v x rest w))"
    then show "w_cursor (watch_send F v x rest w) < fst q \<and> fst q \<le> watermark s \<and> wanted q"
      unfolding cur using rest [of q] by simp
  next
    show "sorted_wrt (<) (map fst (w_pending (watch_send F v x rest w)))" using D(6) p by simp
  qed (use D v in auto)
qed

lemma watch_ok_step:
  assumes "watch_step wr F c c'" "watch_ok since c"
  shows "watch_ok since c'"
  using assms
proof (cases rule: watch_step.cases)
  case (bookmark w ev s)
  then show ?thesis using assms(2) mark_view by (simp add: watch_ok_def)
next
  case (cancel s w)
  then show ?thesis using assms(2) by (simp add: watch_ok_def)
qed (use assms(2) watch_ok_write watch_ok_tick watch_ok_send in blast)+

lemma watch_ok_reach: "(watch_step wr F)\<^sup>*\<^sup>* c c' \<Longrightarrow> watch_ok since c \<Longrightarrow> watch_ok since c'"
  by (induction rule: rtranclp_induct) (auto intro: watch_ok_step)

text \<open>Everything current up to the cursor was delivered, in order of version, none twice.\<close>

lemma watch_complete:
  assumes "inv s0" "(watch_step wr F)\<^sup>*\<^sup>* (s0, watch_start since) (s, w)"
  shows "sorted_wrt (<) (map fst (delivered view (w_sent w)))"
    and "p \<in> set (delivered view (w_sent w)) \<Longrightarrow> since < fst p \<and> fst p \<le> w_cursor w
      \<and> (\<exists>x. wanted (fst p, x) \<and> key x = snd p)"
    and "(k, v) \<in> current s \<Longrightarrow> since < v \<Longrightarrow> v \<le> w_cursor w \<Longrightarrow> (v, k) \<in> set (delivered view (w_sent w))"
  using watch_okD [OF watch_ok_reach [OF assms(2) watch_ok_start [OF assms(1)]]] by blast+

lemma watch_round_progress:
  assumes "inv s" "fd_poll F s (w_cursor w) \<noteq> []"
  shows "w_cursor w < w_cursor (watch_round F s w) \<and> w_cursor (watch_round F s w) \<le> watermark s"
proof -
  let ?due = "fd_poll F s (w_cursor w)"
  have "w_cursor (watch_round F s w) = fst (last ?due)"
    using poll_sorted [OF assms(1)] poll_after [OF assms(1)] assms(2) watch_flush_cursor [of ?due "w\<lparr>w_pending := ?due\<rparr>" F]
    by (simp add: watch_round_def Let_def)
  with poll_after [OF assms(1) last_in_set [OF assms(2)]] show ?thesis by simp
qed

lemma watch_rounds_idle:
  "inv s \<Longrightarrow> watermark s - w_cursor w \<le> int n \<Longrightarrow> fd_poll F s (w_cursor (watch_rounds F s n w)) = []"
proof (induction n arbitrary: w)
  case 0
  show ?case
  proof (rule ccontr)
    assume "fd_poll F s (w_cursor (watch_rounds F s 0 w)) \<noteq> []"
    then obtain p where "p \<in> set (fd_poll F s (w_cursor w))" by (cases "fd_poll F s (w_cursor w)") auto
    with poll_after [OF 0(1)] 0(2) show False by fastforce
  qed
next
  case (Suc n)
  show ?case
  proof (cases "fd_poll F s (w_cursor w) = []")
    case True
    then have r: "watch_round F s w = w\<lparr>w_pending := []\<rparr>" by (simp add: watch_round_def)
    have "w_cursor (watch_rounds F s n w') = w_cursor w" if "w_cursor w' = w_cursor w" for w'
      using that True by (induction n arbitrary: w') (simp_all add: watch_round_def)
    then show ?thesis using r True by simp
  next
    case False
    then have "watermark s - w_cursor (watch_round F s w) \<le> int n"
      using watch_round_progress [OF Suc.prems(1) False] Suc.prems(2) by simp
    with Suc.IH [OF Suc.prems(1)] show ?thesis by simp
  qed
qed

text \<open>Once the writers pause, as many polls as versions are left deliver everything.\<close>

lemma watch_catches_up:
  assumes "inv s0" "(watch_step wr F)\<^sup>*\<^sup>* (s0, watch_start since) (s, w)"
    and "w_pending w = []" "\<not> w_done w" "watermark s - w_cursor w \<le> int n"
    and "(k, v) \<in> current s" "since < v"
  shows "(v, k) \<in> set (delivered view (w_sent (watch_rounds F s n w)))"
proof -
  let ?w = "watch_rounds F s n w"
  have i: "inv s"
    by (rule watch_okD [OF watch_ok_reach [OF assms(2) watch_ok_start [OF assms(1)]]])
  have "(watch_step wr F)\<^sup>*\<^sup>* (s0, watch_start since) (s, ?w)"
    by (rule rtranclp_trans [OF assms(2) watch_rounds_steps [OF assms(3,4), THEN conjunct1]])
  note all = watch_complete [OF assms(1) this]
  have idle: "fd_poll F s (w_cursor ?w) = []" by (rule watch_rounds_idle [OF i assms(5)])
  have "v \<le> w_cursor ?w"
  proof (rule ccontr)
    assume "\<not> v \<le> w_cursor ?w"
    then have "w_cursor ?w < v" by simp
    from poll_complete [OF i assms(6) this] idle show False by simp
  qed
  then show ?thesis by (rule all(3) [OF assms(6,7)])
qed

end

section \<open>A source that keeps its history\<close>

text \<open>
  When the store keeps every version it gave out (\<open>MemoryStore.log\<close>, the event log) and a
  poll is not cut, the watch delivers exactly the versions of the history past \<open>since\<close>.
\<close>

locale history_feed = feed_source +
  fixes history :: "'a \<Rightarrow> int list"
  assumes history_sorted: "inv s \<Longrightarrow> sorted_wrt (<) (history s)"
    and poll_history: "inv s \<Longrightarrow>
      \<exists>rest. map fst (fd_poll F s c) @ rest = filter (\<lambda>v. c < v) (history s)
        \<and> (fd_poll F s c = [] \<longrightarrow> rest = [])"
    and write_history: "inv s \<Longrightarrow> wr s s' \<Longrightarrow>
      \<exists>new. history s' = history s @ new \<and> (\<forall>v\<in>set new. watermark s < v)"
begin

definition exact_ok :: "int \<Rightarrow> 'a \<times> ('b, 'c) watcher \<Rightarrow> bool" where
  "exact_ok since c = (case c of (s, w) \<Rightarrow>
     map fst (delivered view (w_sent w)) = filter (\<lambda>v. since < v \<and> v \<le> w_cursor w) (history s)
     \<and> (\<exists>rest. map fst (w_pending w) @ rest = (if w_pending w = [] then [] else filter (\<lambda>v. w_cursor w < v) (history s))))"

lemma sorted_filter_prefix:
  fixes xs :: "int list"
  assumes "sorted_wrt (<) xs" "filter (\<lambda>v. c < v) xs = u # us"
  shows "filter (\<lambda>v. a < v \<and> v \<le> u) xs = filter (\<lambda>v. a < v \<and> v \<le> c) xs @ (if a < u then [u] else [])
    \<and> filter (\<lambda>v. u < v) xs = us"
  using assms
proof (induction xs)
  case Nil
  then show ?case by simp
next
  case (Cons x xs)
  show ?case
  proof (cases "c < x")
    case True
    then have "x = u" "us = filter (\<lambda>v. c < v) xs" using Cons.prems(2) by auto
    moreover have "\<forall>v\<in>set xs. u < v" using Cons.prems(1) \<open>x = u\<close> by simp
    moreover have "filter (\<lambda>v. c < v) xs = xs" using True Cons.prems(1) by (intro filter_True) auto
    moreover have "filter (\<lambda>v. u < v) xs = xs" using calculation(3) by (intro filter_True) auto
    moreover have "filter (\<lambda>v. a < v \<and> v \<le> u) xs = []" "filter (\<lambda>v. a < v \<and> v \<le> c) xs = []"
      using calculation(3) True \<open>x = u\<close> by (auto simp: filter_empty_conv)
    ultimately show ?thesis using True by auto
  next
    case False
    have "u \<in> set xs" "c < u" using Cons.prems(2) False by (auto simp: filter_eq_Cons_iff)
    then have "\<not> u < x" using False by simp
    then show ?thesis using Cons False \<open>c < u\<close> by auto
  qed
qed

lemma exact_ok_step:
  assumes st: "watch_step wr F c c'" and ok: "watch_ok since c" and ex: "exact_ok since c"
  shows "exact_ok since c'"
  using st
proof (cases rule: watch_step.cases)
  case (wrote s s' w)
  then have D: "watch_ok since (s, w)" using ok by simp
  obtain new where new: "history s' = history s @ new" "\<forall>v\<in>set new. watermark s < v"
    using write_history [OF watch_okD(1) [OF D] wrote(3)] by blast
  have "filter (\<lambda>v. since < v \<and> v \<le> w_cursor w) new = []"
    using new(2) watch_okD(3) [OF D] by (auto simp: filter_empty_conv)
  moreover have "\<exists>r. map fst (w_pending w) @ r = filter (\<lambda>v. w_cursor w < v) (history s')"
    if "map fst (w_pending w) @ rest = filter (\<lambda>v. w_cursor w < v) (history s)" for rest
    using that new(1) by (intro exI [of _ "rest @ filter (\<lambda>v. w_cursor w < v) new"]) (simp flip: append_assoc)
  ultimately show ?thesis
    using ex wrote new(1) by (auto simp: exact_ok_def)
next
  case (tick w s)
  then show ?thesis
    using ex poll_history [of s "w_cursor w"] watch_okD(1) [of since s w] ok by (auto simp: exact_ok_def)
next
  case (send w v x rest s)
  then have D: "watch_ok since (s, w)" using ok by simp
  have p: "w_pending w = (v, x) # rest" using send by simp
  obtain more where "filter (\<lambda>u. w_cursor w < u) (history s) = v # (map fst rest @ more)"
    using ex send by (auto simp: exact_ok_def dest: sym)
  note f = sorted_filter_prefix [OF history_sorted [OF watch_okD(1) [OF D]] this, of since]
  have "w_cursor w < v" "since < v" using watch_okD(2,7) [OF D] p by fastforce+
  moreover have "view (fst (fd_emit F v x (w_seen w))) = Some (v, key x)"
    using watch_okD(7) [OF D, of "(v, x)"] p by (simp add: emit_view)
  ultimately show ?thesis
    using ex send f by (auto simp: exact_ok_def)
next
  case (bookmark w ev s)
  then show ?thesis using ex mark_view by (simp add: exact_ok_def)
next
  case (cancel s w)
  then show ?thesis using ex by (simp add: exact_ok_def)
qed

lemma exact_ok_reach:
  "(watch_step wr F)\<^sup>*\<^sup>* c c' \<Longrightarrow> watch_ok since c \<Longrightarrow> exact_ok since c \<Longrightarrow> exact_ok since c'"
proof (induction rule: rtranclp_induct)
  case base
  then show ?case by simp
next
  case (step c' c'')
  then show ?case using exact_ok_step watch_ok_reach by blast
qed

lemma watch_exact:
  assumes "inv s0" "(watch_step wr F)\<^sup>*\<^sup>* (s0, watch_start since) (s, w)"
  shows "map fst (delivered view (w_sent w)) = filter (\<lambda>v. since < v \<and> v \<le> w_cursor w) (history s)"
  using exact_ok_reach [OF assms(2) watch_ok_start [OF assms(1)]]
  by (simp add: exact_ok_def)

end

end
