(* ===== verification/EventLog.thy ===== *)
theory EventLog
  imports MemoryStore PostgresStore
begin

text \<open>
  The append-only log of a Run's events (\<open>Append\<close> and \<open>ListEvents\<close> of \<open>memory.go\<close> and
  \<open>postgres.go\<close>) as a contract: events of a Run are numbered from one without gaps, are
  never changed or removed, and are listed in order from any sequence number. The
  concurrent case of the PostgreSQL \<open>Append\<close> is in theory \<open>PgTxn\<close>.
\<close>

section \<open>Sequences of appends and reads\<close>

fun append_run :: "'s EventStore \<Rightarrow> (env \<times> event) list \<Rightarrow> 's \<Rightarrow> 's" where
  "append_run E [] s = s"
| "append_run E ((e, ev) # evs) s = append_run E evs (snd (es_Append E e ev s))"

text \<open>
  A reader that asks for the events after the last one it has, until it gets none;
  \<^const>\<open>None\<close> when a read fails or the fuel runs out.
\<close>

fun follow_events :: "(int \<Rightarrow> go_error + event list) \<Rightarrow> nat \<Rightarrow> int \<Rightarrow> event list option" where
  "follow_events f 0 since = None"
| "follow_events f (Suc n) since =
     (case f since of
        Inl _ \<Rightarrow> None
      | Inr es \<Rightarrow>
          if es = [] then Some []
          else map_option ((@) es) (follow_events f n (e_Seq (last es))))"

lemma filter_numbered:
  "map e_Seq es = [i..i + int (length es) - 1] \<Longrightarrow> i - 1 \<le> since \<Longrightarrow>
    filter (\<lambda>e. since < e_Seq e) es = drop (nat (since - i + 1)) es"
proof (induction es arbitrary: i)
  case Nil
  then show ?case by simp
next
  case (Cons e es)
  have up: "[i..i + int (length (e # es)) - 1] = i # [i + 1..(i + 1) + int (length es) - 1]"
    by (subst upto_rec1) (auto simp: algebra_simps)
  then have e: "e_Seq e = i" and es: "map e_Seq es = [i + 1..(i + 1) + int (length es) - 1]"
    using Cons.prems(1) by auto
  show ?case
  proof (cases "since = i - 1")
    case True
    have "filter (\<lambda>e. since < e_Seq e) es = es"
    proof (rule filter_True, rule)
      fix x assume "x \<in> set es"
      then have "e_Seq x \<in> set [i + 1..(i + 1) + int (length es) - 1]" using es by (metis imageI list.set_map)
      then show "since < e_Seq x" using True by simp
    qed
    with e True show ?thesis by simp
  next
    case False
    then have s: "i \<le> since" using Cons.prems(2) by simp
    then have "nat (since - i + 1) = Suc (nat (since - (i + 1) + 1))" by simp
    then show ?thesis using Cons.IH [OF es] s e by simp
  qed
qed

section \<open>The contract\<close>

locale event_log =
  fixes E :: "'s EventStore"
    and inv :: "'s \<Rightarrow> bool"
    and version :: "'s \<Rightarrow> int"
    and events :: "'s \<Rightarrow> string \<Rightarrow> string \<Rightarrow> event list"
    and okev :: "event \<Rightarrow> bool"
    and readable :: "string \<Rightarrow> string \<Rightarrow> bool"
  assumes append_event: "inv s \<Longrightarrow> okev ev \<Longrightarrow> version s < max_int64 \<Longrightarrow>
      es_Append E e ev s = (Inr out, s') \<Longrightarrow>
      inv s' \<and> version s' = version s + 1 \<and> e_ResourceVersion out = version s + 1
      \<and> e_Colony out = e_Colony ev \<and> e_Run out = e_Run ev \<and> e_Type out = e_Type ev
      \<and> e_Seq out = int (length (events s (e_Colony ev) (e_Run ev))) + 1
      \<and> (\<forall>c r. events s' c r = events s c r @ (if c = e_Colony ev \<and> r = e_Run ev then [out] else []))"
    and append_event_error: "inv s \<Longrightarrow> es_Append E e ev s = (Inl err, s') \<Longrightarrow>
      inv s' \<and> version s' = version s \<and> (\<forall>c r. events s' c r = events s c r)"
    and numbered: "inv s \<Longrightarrow> map e_Seq (events s c r) = [1..int (length (events s c r))]"
    and list_events: "inv s \<Longrightarrow> readable c r \<Longrightarrow> es_ListEvents E c r since limit s =
      Inr (take (nat (clampPageSize limit)) (filter (\<lambda>e. since < e_Seq e) (events s c r)))"
begin

lemma append_run_grows:
  "inv s \<Longrightarrow> \<forall>p\<in>set evs. okev (snd p) \<Longrightarrow> version s + int (length evs) \<le> max_int64 \<Longrightarrow>
    inv (append_run E evs s)
    \<and> (\<exists>more. events (append_run E evs s) c r = events s c r @ more)"
proof (induction evs arbitrary: s)
  case Nil
  then show ?case by simp
next
  case (Cons p evs)
  obtain e ev where p: "p = (e, ev)" by (cases p)
  obtain res s' where a: "es_Append E e ev s = (res, s')" by fastforce
  have "inv s' \<and> version s' \<le> version s + 1 \<and> (\<exists>more. events s' c r = events s c r @ more)"
  proof (cases res)
    case (Inl err)
    with append_event_error [OF Cons.prems(1)] a show ?thesis by auto
  next
    case (Inr out)
    with append_event [OF Cons.prems(1), of ev e out s'] a Cons.prems(2,3) p show ?thesis by auto
  qed
  then show ?case
    using Cons.IH [of s'] Cons.prems(2,3) p a by auto
qed

lemma list_since:
  assumes "inv s" "readable c r" "0 \<le> since"
  shows "es_ListEvents E c r since limit s =
    Inr (take (nat (clampPageSize limit)) (drop (nat since) (events s c r)))"
  using list_events [OF assms(1,2)] filter_numbered [of "events s c r" 1 since] numbered [OF assms(1)]
    assms(3) by simp

lemma seq_nth: "inv s \<Longrightarrow> i < length (events s c r) \<Longrightarrow> e_Seq (events s c r ! i) = int i + 1"
  using numbered [of s c r] nth_map [of i "events s c r" e_Seq] by simp

lemma follow_from:
  assumes "inv s" "readable c r"
  shows "i \<le> length (events s c r) \<Longrightarrow> length (events s c r) - i < n \<Longrightarrow>
    follow_events (\<lambda>since. es_ListEvents E c r since limit s) n (int i) = Some (drop i (events s c r))"
proof (induction n arbitrary: i)
  case 0
  then show ?case by simp
next
  case (Suc n)
  let ?es = "events s c r" and ?k = "nat (clampPageSize limit)"
  let ?page = "take ?k (drop i ?es)"
  have l: "es_ListEvents E c r (int i) limit s = Inr ?page"
    using list_since [OF assms, of "int i" limit] by simp
  show ?case
  proof (cases "i = length ?es")
    case True
    with l show ?thesis by simp
  next
    case False
    define j where "j = min (i + ?k) (length ?es)"
    have ij: "i < j" "j \<le> length ?es" using False Suc.prems(1) by (auto simp: j_def)
    have page: "?page = take (j - i) (drop i ?es)" "?page \<noteq> []"
      using ij by (auto simp: j_def min_def)
    then have "last ?page = ?es ! (j - 1)"
      using ij by (subst page(1)) (simp add: last_conv_nth)
    then have last: "e_Seq (last ?page) = int j"
      using seq_nth [OF assms(1), of "j - 1" c r] ij by simp
    have "follow_events (\<lambda>since. es_ListEvents E c r since limit s) n (int j) = Some (drop j ?es)"
      using ij Suc.prems(2) by (intro Suc.IH) auto
    moreover have "?page @ drop j ?es = drop i ?es"
      using ij append_take_drop_id [of "j - i" "drop i ?es"] by (simp add: page(1))
    ultimately show ?thesis using l page(2) last by simp
  qed
qed

lemma follow_all_events:
  "inv s \<Longrightarrow> readable c r \<Longrightarrow> length (events s c r) < n \<Longrightarrow>
    follow_events (\<lambda>since. es_ListEvents E c r since limit s) n 0 = Some (events s c r)"
  using follow_from [of s c r 0] by simp

end

section \<open>MemoryStore\<close>

definition mem_event_count :: "MemoryStore \<Rightarrow> string \<Rightarrow> int" where
  "mem_event_count m key = (case map_of (m_eventSeq m) key of None \<Rightarrow> 0 | Some k \<Rightarrow> k)"

definition mem_key_events :: "MemoryStore \<Rightarrow> string \<Rightarrow> event list" where
  "mem_key_events m key = filter (\<lambda>e. event_key (e_Colony e) (e_Run e) = key) (m_events m)"

definition mem_run_events :: "MemoryStore \<Rightarrow> string \<Rightarrow> string \<Rightarrow> event list" where
  "mem_run_events m colony run = filter (\<lambda>e. e_Colony e = colony \<and> e_Run e = run) (m_events m)"

text \<open>
  The counter of a key is the number of its events, and their sequence numbers are
  \<open>1, 2, \<dots>\<close>. The key \<open>colony/run\<close> tells Runs apart when no colony holds a slash.
\<close>

definition slash_free :: "event \<Rightarrow> bool" where
  "slash_free e \<longleftrightarrow> CHR ''/'' \<notin> set (e_Colony e)"

definition mem_ev_inv :: "MemoryStore \<Rightarrow> bool" where
  "mem_ev_inv m \<longleftrightarrow> 0 \<le> m_seq m \<and> m_seq m \<le> max_int64
     \<and> (\<forall>key. mem_event_count m key = int (length (mem_key_events m key))
          \<and> map e_Seq (mem_key_events m key) = [1..mem_event_count m key]
          \<and> mem_event_count m key \<le> m_seq m)
     \<and> sorted_wrt (<) (map e_ResourceVersion (m_events m))
     \<and> (\<forall>e\<in>set (m_events m). slash_free e \<and> 1 \<le> e_ResourceVersion e \<and> e_ResourceVersion e \<le> m_seq m)"

lemma mem_ev_inv_init: "mem_ev_inv NewMemoryStore"
  by (simp add: mem_ev_inv_def NewMemoryStore_def mem_event_count_def mem_key_events_def)

lemma mem_ev_inv_key:
  assumes "mem_ev_inv m"
  shows "mem_event_count m key = int (length (mem_key_events m key))"
    and "map e_Seq (mem_key_events m key) = [1..mem_event_count m key]"
    and "mem_event_count m key \<le> m_seq m"
  using assms unfolding mem_ev_inv_def by blast+

lemma event_key_inj:
  assumes "CHR ''/'' \<notin> set c" "CHR ''/'' \<notin> set c'"
  shows "event_key c r = event_key c' r' \<longleftrightarrow> c = c' \<and> r = r'"
proof
  assume "event_key c r = event_key c' r'"
  then have eq: "c @ CHR ''/'' # r = c' @ CHR ''/'' # r'" by (simp add: event_key_def)
  then have "takeWhile (\<lambda>x. x \<noteq> CHR ''/'') (c @ CHR ''/'' # r) = takeWhile (\<lambda>x. x \<noteq> CHR ''/'') (c' @ CHR ''/'' # r')"
    by simp
  then have "c = c'" by (simp only: takeWhile_until [OF assms(1)] takeWhile_until [OF assms(2)])
  with eq show "c = c' \<and> r = r'" by simp
qed simp

lemma mem_key_run_events:
  assumes "\<forall>e\<in>set (m_events m). slash_free e" "CHR ''/'' \<notin> set c"
  shows "mem_key_events m (event_key c r) = mem_run_events m c r"
  unfolding mem_key_events_def mem_run_events_def
  using assms by (intro filter_cong) (auto simp: slash_free_def event_key_inj)

text \<open>What one append does.\<close>

lemma mem_Append_result:
  assumes "mem_ev_inv m" "m_seq m < max_int64" "mem_Append e ev m = (res, m')"
  obtains out where "res = Inr out" "m_events m' = m_events m @ [out]" "m_seq m' = m_seq m + 1"
    "e_Colony out = e_Colony ev" "e_Run out = e_Run ev" "e_Type out = e_Type ev"
    "e_Payload out = e_Payload ev" "e_ResourceVersion out = m_seq m + 1"
    "e_Seq out = mem_event_count m (event_key (e_Colony ev) (e_Run ev)) + 1"
    "m_eventSeq m' = AList.update (event_key (e_Colony ev) (e_Run ev)) (e_Seq out) (m_eventSeq m)"
    "m_resources m' = m_resources m" "m_log m' = m_log m"
proof -
  let ?n = "mem_event_count m (event_key (e_Colony ev) (e_Run ev))"
  have n: "0 \<le> ?n" "?n \<le> m_seq m" "0 \<le> m_seq m"
    using mem_ev_inv_key [OF assms(1)] assms(1) by (auto simp: mem_ev_inv_def)
  then have "int64 (?n + 1) = ?n + 1" "int64 (m_seq m + 1) = m_seq m + 1"
    using assms(2) by simp_all
  with assms(3) show thesis
    by (intro that [of "ev\<lparr>e_Seq := ?n + 1, e_ResourceVersion := m_seq m + 1,
        e_TS := (if e_TS ev = 0 then env_now e else e_TS ev)\<rparr>"])
      (auto simp: mem_Append_def mem_nextSeq_def mem_event_count_def Let_def option.map_id)
qed

lemma mem_Append_inv:
  assumes "mem_ev_inv m" "m_seq m < max_int64" "slash_free ev" "mem_Append e ev m = (res, m')"
  shows "mem_ev_inv m'"
  using assms(1,2,4)
proof (rule mem_Append_result)
  fix out
  let ?k = "event_key (e_Colony ev) (e_Run ev)"
  assume m': "m_events m' = m_events m @ [out]" "m_seq m' = m_seq m + 1"
    "e_Colony out = e_Colony ev" "e_Run out = e_Run ev" "e_ResourceVersion out = m_seq m + 1"
    "e_Seq out = mem_event_count m ?k + 1"
    "m_eventSeq m' = AList.update ?k (e_Seq out) (m_eventSeq m)"
  note key = mem_ev_inv_key [OF assms(1)]
  have cnt: "mem_event_count m' k = (if k = ?k then mem_event_count m k + 1 else mem_event_count m k)" for k
    using m'(6,7) by (simp add: mem_event_count_def)
  have evs: "mem_key_events m' k = mem_key_events m k @ (if k = ?k then [out] else [])" for k
    using m' by (auto simp: mem_key_events_def)
  have "mem_event_count m' k = int (length (mem_key_events m' k))
      \<and> map e_Seq (mem_key_events m' k) = [1..mem_event_count m' k] \<and> mem_event_count m' k \<le> m_seq m'" for k
  proof (cases "k = ?k")
    case True
    have "[1..mem_event_count m k + 1] = [1..mem_event_count m k] @ [mem_event_count m k + 1]"
      using key(1) [of k] by (subst upto_rec2) auto
    with True show ?thesis
      using cnt [of k] evs [of k] key(1,2,3) [of k] m'(2,6) by simp
  next
    case False
    then show ?thesis using cnt [of k] evs [of k] key [of k] m'(2) by simp
  qed
  moreover have "sorted_wrt (<) (map e_ResourceVersion (m_events m'))"
    using assms(1) m'(1,5) by (fastforce simp: mem_ev_inv_def sorted_wrt_append)
  moreover have "slash_free out" using assms(3) m'(3) by (simp add: slash_free_def)
  ultimately show ?thesis
    using assms(1,2) m'(1,2,5) unfolding mem_ev_inv_def by fastforce
qed

lemma list_events_loop_take:
  "length out < nat (clampPageSize limit) \<Longrightarrow>
    list_events_loop P limit out es = out @ take (nat (clampPageSize limit) - length out) (filter P es)"
proof (induction es arbitrary: out)
  case Nil
  then show ?case by simp
next
  case (Cons e es)
  have i: "int32 (1 + int (length out)) = 1 + int (length out)"
    using Cons.prems clampPageSize_bounds [of limit] by (intro int32_id) auto
  have n: "nat (clampPageSize limit) - length out = Suc (nat (clampPageSize limit) - Suc (length out))"
    using Cons.prems by simp
  show ?case
  proof (cases "P e \<and> int (length out) + 1 < clampPageSize limit")
    case True
    then have "length (out @ [e]) < nat (clampPageSize limit)"
      by (simp add: zless_nat_eq_int_zless)
    with True i n Cons.IH [of "out @ [e]"] show ?thesis by (simp add: Let_def)
  next
    case False
    with Cons i n show ?thesis by (auto simp: Let_def)
  qed
qed

lemma mem_ListEvents_eq:
  "mem_ListEvents c r since limit m =
    Inr (take (nat (clampPageSize limit)) (filter (\<lambda>e. since < e_Seq e) (mem_run_events m c r)))"
  by (simp add: mem_ListEvents_def list_events_loop_take mem_run_events_def conj_commute conj_left_commute)

lemma mem_log_inv_numbered:
  assumes "mem_ev_inv m"
  shows "map e_Seq (mem_run_events m c r) = [1..int (length (mem_run_events m c r))]"
proof (cases "CHR ''/'' \<in> set c")
  case True
  have "\<forall>e\<in>set (m_events m). slash_free e" using assms by (simp add: mem_ev_inv_def)
  with True have "mem_run_events m c r = []"
    by (auto simp: mem_run_events_def filter_empty_conv slash_free_def)
  then show ?thesis by simp
next
  case False
  have "mem_key_events m (event_key c r) = mem_run_events m c r"
    using assms False by (intro mem_key_run_events) (auto simp: mem_ev_inv_def)
  then show ?thesis using mem_ev_inv_key [OF assms, of "event_key c r"] by simp
qed

interpretation mem_events: event_log mem_EventStore mem_ev_inv m_seq mem_run_events slash_free
  "\<lambda>_ _. True"
proof (unfold_locales, goal_cases)
  case (1 s ev e out s')
  then have a: "mem_Append e ev s = (Inr out, s')" by (simp add: mem_EventStore_def)
  from mem_Append_result [OF 1(1,3) a] obtain o' where o: "out = o'" "m_events s' = m_events s @ [o']"
    "m_seq s' = m_seq s + 1" "e_Colony o' = e_Colony ev" "e_Run o' = e_Run ev" "e_Type o' = e_Type ev"
    "e_ResourceVersion o' = m_seq s + 1"
    "e_Seq o' = mem_event_count s (event_key (e_Colony ev) (e_Run ev)) + 1"
    by (metis Inr_inject)
  have "mem_key_events s (event_key (e_Colony ev) (e_Run ev)) = mem_run_events s (e_Colony ev) (e_Run ev)"
    using 1(1,2) by (intro mem_key_run_events) (auto simp: mem_ev_inv_def slash_free_def)
  then have "mem_event_count s (event_key (e_Colony ev) (e_Run ev))
      = int (length (mem_run_events s (e_Colony ev) (e_Run ev)))"
    using mem_ev_inv_key(1) [OF 1(1)] by simp
  moreover have "mem_ev_inv s'" using mem_Append_inv [OF 1(1,3,2) a] .
  ultimately show ?case using o by (auto simp: mem_run_events_def)
next
  case (2 s e ev err s')
  then show ?case by (auto simp: mem_EventStore_def mem_Append_def Let_def split: prod.splits)
next
  case (3 s c r)
  then show ?case by (rule mem_log_inv_numbered)
next
  case (4 s c r since limit)
  then show ?case by (simp add: mem_EventStore_def mem_ListEvents_eq)
qed

section \<open>PostgresStore\<close>

definition pg_ev_inv :: "Postgres \<Rightarrow> bool" where
  "pg_ev_inv s \<longleftrightarrow> 0 \<le> p_counter s \<and> p_counter s \<le> max_int64
     \<and> int (length (p_events s)) \<le> p_counter s
     \<and> (\<forall>c r. map e_Seq (run_events c r s) = [1..int (length (run_events c r s))])
     \<and> sorted_wrt (<) (map (e_ResourceVersion \<circ> snd) (p_events s))
     \<and> (\<forall>p\<in>set (p_events s). 1 \<le> e_ResourceVersion (snd p) \<and> e_ResourceVersion (snd p) \<le> p_counter s)"

lemma pg_ev_inv_init: "pg_ev_inv init_postgres"
  by (simp add: pg_ev_inv_def init_postgres_def run_events_def)

lemma foldl_max_upto: "foldl max (i::int) [i + 1..i + int n] = i + int n"
proof (induction n)
  case 0
  then show ?case by simp
next
  case (Suc n)
  have "[i + 1..i + int (Suc n)] = [i + 1..i + int n] @ [i + int n + 1]"
    by (subst upto_rec2) (auto simp: algebra_simps)
  with Suc show ?case by simp
qed

lemma max_seq_numbered:
  assumes "map e_Seq es = [1..int (length es)]"
  shows "max_seq es = int (length es)"
proof (cases es)
  case Nil
  then show ?thesis by (simp add: max_seq_def)
next
  case (Cons e es')
  have "[1..int (length es)] = 1 # [1 + 1..1 + int (length es')]"
    using Cons by (subst upto_rec1) (auto simp: algebra_simps)
  with assms Cons have "e_Seq e = 1" "map e_Seq es' = [1 + 1..1 + int (length es')]" by simp_all
  then show ?thesis
    using foldl_max_upto [of 1 "length es'"] Cons by (simp add: max_seq_def)
qed

lemma run_events_append:
  "p_events s' = p_events s @ [(i, ev)] \<Longrightarrow>
    run_events c r s' = run_events c r s @ (if e_Colony ev = c \<and> e_Run ev = r then [ev] else [])"
  by (simp add: run_events_def)

lemma run_events_counter [simp]: "run_events c r (s\<lparr>p_counter := v\<rparr>) = run_events c r s"
  by (simp add: run_events_def)

lemma length_run_events: "length (run_events c r s) \<le> length (p_events s)"
  using length_filter_le [of _ "map snd (p_events s)"] by (simp add: run_events_def)

lemma pg_Append_cases:
  assumes "pg_ev_inv s" "pg_Append eng e ev s = (res, s')"
  obtains (failed) err where "res = Inl err" "s' = s"
  | (appended) out where "res = Inr out" "p_counter s < max_int64"
      "p_events s' = p_events s @ [(p_event_id s + 1, out)]" "p_counter s' = p_counter s + 1"
      "e_Colony out = e_Colony ev" "e_Run out = e_Run ev" "e_Type out = e_Type ev"
      "e_ResourceVersion out = p_counter s + 1"
      "e_Seq out = int (length (run_events (e_Colony ev) (e_Run ev) s)) + 1"
      "p_rows s' = p_rows s"
proof (cases "p_counter s < max_int64")
  case False
  with assms(2) failed show thesis
    by (auto simp: pg_Append_def hived_next_resource_version_def split: if_splits option.splits)
next
  case True
  let ?es = "run_events (e_Colony ev) (e_Run ev) s"
  have "map e_Seq ?es = [1..int (length ?es)]"
    using assms(1) unfolding pg_ev_inv_def by blast
  then have m: "max_seq ?es = int (length ?es)" by (rule max_seq_numbered)
  have "int (length ?es) \<le> p_counter s"
    using length_run_events [of "e_Colony ev" "e_Run ev" s] assms(1) by (auto simp: pg_ev_inv_def)
  then show thesis
    using assms(2) True m failed appended
    by (auto simp: pg_Append_def Let_def split: if_splits option.splits)
qed

lemma pg_Append_inv:
  assumes "pg_ev_inv s" "pg_Append eng e ev s = (res, s')"
  shows "pg_ev_inv s'"
  using assms
proof (cases rule: pg_Append_cases)
  case (appended out)
  have "map e_Seq (run_events c r s') = [1..int (length (run_events c r s'))]" for c r
  proof (cases "c = e_Colony ev \<and> r = e_Run ev")
    case True
    have "map e_Seq (run_events c r s) = [1..int (length (run_events c r s))]"
      using assms(1) unfolding pg_ev_inv_def by blast
    moreover have "[1..1 + int (length (run_events c r s))]
        = [1..int (length (run_events c r s))] @ [int (length (run_events c r s)) + 1]"
      by (subst upto_rec2) auto
    ultimately show ?thesis
      using True appended(5,6,9) run_events_append [OF appended(3), of c r] by simp
  next
    case False
    then show ?thesis
      using assms(1) appended(5,6) run_events_append [OF appended(3), of c r] unfolding pg_ev_inv_def by auto
  qed
  moreover have "sorted_wrt (<) (map (e_ResourceVersion \<circ> snd) (p_events s'))"
    using assms(1) appended(3,8) by (fastforce simp: pg_ev_inv_def sorted_wrt_append)
  moreover have "\<forall>p\<in>set (p_events s'). 1 \<le> e_ResourceVersion (snd p) \<and> e_ResourceVersion (snd p) \<le> p_counter s'"
    using assms(1) appended(3,4,8) by (fastforce simp: pg_ev_inv_def)
  ultimately show ?thesis
    using assms(1) appended(2-4) by (simp add: pg_ev_inv_def)
qed (use assms(1) in simp)

lemma sorted_map_upto: "map f xs = [1..n] \<Longrightarrow> sorted (map f xs)"
  by simp

interpretation pg_events: event_log "pg_EventStore eng" pg_ev_inv p_counter "\<lambda>s c r. run_events c r s"
  "\<lambda>_. True" "\<lambda>c r. pe_text_ok eng c \<and> pe_text_ok eng r" for eng
proof (unfold_locales, goal_cases)
  case (1 s ev e out s')
  then have a: "pg_Append eng e ev s = (Inr out, s')" by (simp add: pg_EventStore_def)
  from 1(1) a show ?case
  proof (cases rule: pg_Append_cases)
    case (appended o')
    then show ?thesis
      using pg_Append_inv [OF 1(1) a] run_events_append [OF appended(3)] by auto
  qed simp
next
  case (2 s e ev err s')
  then have "pg_Append eng e ev s = (Inl err, s')" by (simp add: pg_EventStore_def)
  from 2(1) this show ?case using 2(1) by (cases rule: pg_Append_cases) auto
next
  case (3 s c r)
  then show ?case unfolding pg_ev_inv_def by blast
next
  case (4 s c r since limit)
  have "map e_Seq (run_events c r s) = [1..int (length (run_events c r s))]"
    using 4(1) unfolding pg_ev_inv_def by blast
  then have "sorted (map e_Seq (run_events c r s))" by simp
  then have "sorted (map e_Seq (filter (\<lambda>e. since < e_Seq e) (run_events c r s)))"
    by (rule sorted_filter)
  with 4 show ?case
    by (simp add: pg_EventStore_def pg_ListEvents_def sorted_sort_id sort_key_id_if_sorted)
qed

end
