(* ===== verification/StoreWatch.thy ===== *)
theory StoreWatch
  imports Watch EventLog
begin

text \<open>
  \<open>Watch\<close> and \<open>WatchEvents\<close> of both stores as feeds of theory \<open>Watch\<close>: their polls, what
  they send, and the proof that each keeps the contract against any interleaving of
  writes to the same store.
\<close>

section \<open>What Watch sends\<close>

definition watch_emit :: "int \<Rightarrow> resource \<Rightarrow> string list \<Rightarrow> watch_event \<times> string list" where
  "watch_emit v r seen =
     (let (t, seen') = classifyWatchEvent r seen
      in (\<lparr>we_Type = t, we_ResourceVersion = v, we_Object = r\<rparr>, seen'))"

definition watch_bookmark :: "int \<Rightarrow> watch_event option" where
  "watch_bookmark cursor =
     Some \<lparr>we_Type = WatchBookmark, we_ResourceVersion = cursor, we_Object = empty_resource\<rparr>"

text \<open>Version and resource of an event, none for a bookmark.\<close>

definition event_view :: "watch_event \<Rightarrow> (int \<times> resKey) option" where
  "event_view e = (if we_Type e = WatchBookmark then None
     else Some (we_ResourceVersion e, key_of (we_Object e)))"

definition in_scope :: "string \<Rightarrow> string \<Rightarrow> resKey \<Rightarrow> bool" where
  "in_scope kind colony k \<longleftrightarrow> fst k = kind \<and> (colony = '''' \<or> fst (snd k) = colony)"

lemma watch_emit_simps [simp]:
  "we_ResourceVersion (fst (watch_emit v r seen)) = v" "we_Object (fst (watch_emit v r seen)) = r"
  "we_Type (fst (watch_emit v r seen)) = fst (classifyWatchEvent r seen)"
  "snd (watch_emit v r seen) = r_UID r # seen"
  by (simp_all add: watch_emit_def case_prod_beta)

lemma event_view_emit [simp]: "event_view (fst (watch_emit v r seen)) = Some (v, key_of r)"
  by (simp add: event_view_def)

lemma event_view_bookmark [simp]: "watch_bookmark c = Some e \<Longrightarrow> event_view e = None"
  by (auto simp: watch_bookmark_def event_view_def)

section \<open>ADDED comes once\<close>

text \<open>
  Whatever the feed, if it sends through \<open>watch_emit\<close>: a session sends \<open>ADDED\<close> at most once
  per UID, and \<open>MODIFIED\<close> only for a UID it has sent before.
\<close>

definition added_uids :: "watch_event list \<Rightarrow> string list" where
  "added_uids evs = map (\<lambda>e. r_UID (we_Object e)) (filter (\<lambda>e. we_Type e = WatchAdded) evs)"

definition sent_uids :: "watch_event list \<Rightarrow> string set" where
  "sent_uids evs = (\<lambda>e. r_UID (we_Object e)) ` {e \<in> set evs. we_Type e \<noteq> WatchBookmark}"

definition modified_after :: "watch_event list \<Rightarrow> bool" where
  "modified_after evs \<longleftrightarrow> (\<forall>i<length evs. we_Type (evs ! i) = WatchModified \<longrightarrow>
     r_UID (we_Object (evs ! i)) \<in> sent_uids (take i evs))"

definition session_ok :: "(resource, watch_event) watcher \<Rightarrow> bool" where
  "session_ok w \<longleftrightarrow> set (w_seen w) = sent_uids (w_sent w) \<and> distinct (added_uids (w_sent w))
     \<and> modified_after (w_sent w)"

lemma sent_uids_append [simp]: "sent_uids (xs @ ys) = sent_uids xs \<union> sent_uids ys"
  by (auto simp: sent_uids_def)

lemma sent_uids_Nil [simp]: "sent_uids [] = {}"
  by (simp add: sent_uids_def)

lemma sent_uids_single [simp]:
  "sent_uids [e] = (if we_Type e = WatchBookmark then {} else {r_UID (we_Object e)})"
  by (auto simp: sent_uids_def)

lemma added_uids_sent: "set (added_uids evs) \<subseteq> sent_uids evs"
  by (auto simp: added_uids_def sent_uids_def)

lemma modified_after_snoc:
  "modified_after (evs @ [e]) \<longleftrightarrow> modified_after evs
    \<and> (we_Type e = WatchModified \<longrightarrow> r_UID (we_Object e) \<in> sent_uids evs)"
  by (auto simp: modified_after_def nth_append less_Suc_eq)

lemma session_ok_send:
  assumes "session_ok w" "fd_emit F = watch_emit"
  shows "session_ok (watch_send F v r rest w)"
proof -
  let ?e = "fst (watch_emit v r (w_seen w))"
  have sent: "w_sent (watch_send F v r rest w) = w_sent w @ [?e]"
    and seen: "w_seen (watch_send F v r rest w) = r_UID r # w_seen w"
    using assms(2) by (simp_all add: watch_send_def case_prod_beta)
  have uids: "sent_uids (w_sent w @ [?e]) = insert (r_UID r) (sent_uids (w_sent w))"
    by simp
  have "distinct (added_uids (w_sent w @ [?e]))"
    using assms(1) added_uids_sent [of "w_sent w"]
    by (auto simp: session_ok_def added_uids_def classifyWatchEvent_def Let_def split: if_splits)
  moreover have "modified_after (w_sent w @ [?e])"
    using assms(1) by (auto simp: session_ok_def modified_after_snoc classifyWatchEvent_def Let_def split: if_splits)
  ultimately show ?thesis
    using assms(1) unfolding session_ok_def sent seen uids by simp
qed

lemma session_ok_step:
  assumes "watch_step wr F (s, w) (s', w')" "session_ok w"
    and "fd_emit F = watch_emit" "fd_mark F = watch_bookmark"
  shows "session_ok w'"
  using assms(1)
proof (cases rule: watch_step.cases)
  case (send v x rest)
  then show ?thesis using session_ok_send assms(2,3) by blast
next
  case (bookmark e)
  then have "we_Type e = WatchBookmark" using assms(4) by (auto simp: watch_bookmark_def)
  then show ?thesis
    using bookmark assms(2) by (simp add: session_ok_def added_uids_def modified_after_snoc)
qed (use assms(2) in \<open>auto simp: session_ok_def\<close>)

lemma session_ok_reach:
  assumes "(watch_step wr F)\<^sup>*\<^sup>* (s0, watch_start since) c"
    and "fd_emit F = watch_emit" "fd_mark F = watch_bookmark"
  shows "session_ok (snd c)"
  using assms(1)
proof (induction rule: rtranclp_induct)
  case base
  then show ?case by (simp add: session_ok_def watch_start_def added_uids_def sent_uids_def modified_after_def)
next
  case (step c c')
  then show ?case using session_ok_step [OF _ _ assms(2,3)] by (cases c; cases c') auto
qed

section \<open>MemoryStore\<close>

definition mem_resource_at :: "MemoryStore \<Rightarrow> resKey \<Rightarrow> resource" where
  "mem_resource_at m k = (case map_of (m_resources m) k of None \<Rightarrow> empty_resource | Some r \<Rightarrow> r)"

text \<open>The due log entries past the cursor, each with the resource as it is now.\<close>

definition mem_watch_due :: "string \<Rightarrow> list_options \<Rightarrow> MemoryStore \<Rightarrow> int \<Rightarrow> (int \<times> resource) list" where
  "mem_watch_due kind opts m cursor =
     map (\<lambda>e. (le_ResourceVersion e, mem_resource_at m (le_Kind e, le_Colony e, le_Name e)))
       (filter (\<lambda>e. le_Kind e = kind \<and> le_ResourceVersion e > cursor
                  \<and> (lo_Colony opts = '''' \<or> le_Colony e = lo_Colony opts)) (m_log m))"

definition mem_Watch :: "string \<Rightarrow> list_options \<Rightarrow> (MemoryStore, resource, watch_event) feed" where
  "mem_Watch kind opts = \<lparr>fd_poll = mem_watch_due kind opts, fd_emit = watch_emit, fd_mark = watch_bookmark\<rparr>"

definition mem_events_due :: "string \<Rightarrow> string \<Rightarrow> MemoryStore \<Rightarrow> int \<Rightarrow> (int \<times> event) list" where
  "mem_events_due colony run m cursor =
     map (\<lambda>e. (e_ResourceVersion e, e))
       (filter (\<lambda>e. e_Colony e = colony \<and> e_Run e = run \<and> e_ResourceVersion e > cursor) (m_events m))"

definition mem_WatchEvents :: "string \<Rightarrow> string \<Rightarrow> (MemoryStore, event, event) feed" where
  "mem_WatchEvents colony run =
     \<lparr>fd_poll = mem_events_due colony run, fd_emit = (\<lambda>v e seen. (e, seen)), fd_mark = (\<lambda>_. None)\<rparr>"

text \<open>Any other goroutine's write: a resource write or an event.\<close>

inductive mem_wr :: "MemoryStore \<Rightarrow> MemoryStore \<Rightarrow> bool" where
  resource: "client_op op \<Longrightarrow> m_seq m + 2 \<le> max_int64 \<Longrightarrow> mem_wr m (op_step mem_ResourceStore op m)"
| event: "slash_free ev \<Longrightarrow> m_seq m < max_int64 \<Longrightarrow> mem_wr m (snd (mem_Append e ev m))"

definition mem_all_inv :: "MemoryStore \<Rightarrow> bool" where
  "mem_all_inv m \<longleftrightarrow> mem_inv m \<and> mem_ev_inv m"

lemma mem_all_inv_init: "mem_all_inv NewMemoryStore"
  by (simp add: mem_all_inv_def mem_inv_init mem_ev_inv_init)

text \<open>A resource write adds at most one entry to the log, past the watermark.\<close>

lemma mem_op_effect:
  assumes "mem_inv m" "m_seq m + 2 \<le> max_int64"
  shows "m_events (op_step mem_ResourceStore op m) = m_events m"
    and "m_eventSeq (op_step mem_ResourceStore op m) = m_eventSeq m"
    and "\<exists>new. m_log (op_step mem_ResourceStore op m) = m_log m @ new
      \<and> (\<forall>l\<in>set new. le_ResourceVersion l = m_seq m + 1)"
proof -
  have s: "int64 (m_seq m + 1) = m_seq m + 1" using mem_inv_seq [OF assms(1)] assms(2) by simp
  have "m_events (op_step mem_ResourceStore op m) = m_events m
    \<and> m_eventSeq (op_step mem_ResourceStore op m) = m_eventSeq m
    \<and> (\<exists>new. m_log (op_step mem_ResourceStore op m) = m_log m @ new
      \<and> (\<forall>l\<in>set new. le_ResourceVersion l = m_seq m + 1))"
  proof (cases op)
    case (OpApply e r v)
    obtain res m' where a: "mem_Apply e r v m = (res, m')" by fastforce
    then have "m_events m' = m_events m \<and> m_eventSeq m' = m_eventSeq m
      \<and> (\<exists>new. m_log m' = m_log m @ new \<and> (\<forall>l\<in>set new. le_ResourceVersion l = m_seq m + 1))"
      using s by (cases rule: mem_Apply_cases) (auto simp: mem_store_def)
    with a OpApply show ?thesis by (simp add: op_step_def mem_ResourceStore_def)
  next
    case (OpStatus e r)
    obtain res m' where a: "mem_ApplyStatus e r m = (res, m')" by fastforce
    then have "m_events m' = m_events m \<and> m_eventSeq m' = m_eventSeq m
      \<and> (\<exists>new. m_log m' = m_log m @ new \<and> (\<forall>l\<in>set new. le_ResourceVersion l = m_seq m + 1))"
      using s by (cases rule: mem_ApplyStatus_cases) (auto simp: mem_store_def mem_log_def)
    with a OpStatus show ?thesis by (simp add: op_step_def mem_ResourceStore_def)
  qed
  then show "m_events (op_step mem_ResourceStore op m) = m_events m"
    "m_eventSeq (op_step mem_ResourceStore op m) = m_eventSeq m"
    "\<exists>new. m_log (op_step mem_ResourceStore op m) = m_log m @ new
      \<and> (\<forall>l\<in>set new. le_ResourceVersion l = m_seq m + 1)" by blast+
qed

lemma mem_ev_inv_seq:
  assumes "mem_ev_inv m" "m_events m' = m_events m" "m_eventSeq m' = m_eventSeq m"
    and "m_seq m \<le> m_seq m'" "m_seq m' \<le> max_int64"
  shows "mem_ev_inv m'"
proof -
  have c: "mem_event_count m' key = mem_event_count m key" "mem_key_events m' key = mem_key_events m key" for key
    using assms(2,3) by (simp_all add: mem_event_count_def mem_key_events_def)
  have "mem_event_count m key \<le> m_seq m'" for key
    using mem_ev_inv_key(3) [OF assms(1), of key] assms(4) by linarith
  moreover have "slash_free e \<and> 1 \<le> e_ResourceVersion e \<and> e_ResourceVersion e \<le> m_seq m'"
    if "e \<in> set (m_events m)" for e
    using assms(1,4) that unfolding mem_ev_inv_def by fastforce
  moreover have "0 \<le> m_seq m" "sorted_wrt (<) (map e_ResourceVersion (m_events m))"
    using assms(1) unfolding mem_ev_inv_def by blast+
  ultimately show ?thesis
    unfolding mem_ev_inv_def c using mem_ev_inv_key(1,2) [OF assms(1)] assms(2,4,5) by simp
qed

lemma mem_row_ok_mono: "mem_row_ok v k r \<Longrightarrow> v \<le> v' \<Longrightarrow> mem_row_ok v' k r"
  by (auto simp: mem_row_ok_def)

lemma mem_inv_events:
  assumes inv: "mem_inv m" and eq: "m_resources m' = m_resources m" "m_log m' = m_log m"
    and sq: "m_seq m \<le> m_seq m'" "m_seq m' \<le> max_int64"
  shows "mem_inv m'"
proof -
  have rows: "mem_row_ok (m_seq m') k r" if "map_of (m_resources m) k = Some r" for k r
    using mem_row_ok_mono [OF mem_inv_row [OF inv that] sq(1)] .
  have "\<forall>l\<in>set (m_log m). 1 \<le> le_ResourceVersion l \<and> le_ResourceVersion l \<le> m_seq m'"
    using mem_log_bounds [OF mem_inv_log [OF inv]] sq(1) by fastforce
  then have log: "mem_log_ok m'"
    using mem_inv_log [OF inv] unfolding mem_log_ok_def eq by blast
  have d: "distinct (map fst (m_resources m))" "0 \<le> m_seq m" using inv unfolding mem_inv_def by blast+
  show ?thesis
    unfolding mem_inv_def eq using d rows log sq by (intro conjI allI impI) simp_all
qed

lemma mem_wr_effect:
  assumes inv: "mem_all_inv m" and wr: "mem_wr m m'"
  shows "mem_all_inv m'" "m_seq m \<le> m_seq m'"
    and "\<exists>new. m_log m' = m_log m @ new \<and> (\<forall>l\<in>set new. m_seq m < le_ResourceVersion l)"
    and "\<exists>new. m_events m' = m_events m @ new \<and> (\<forall>e\<in>set new. m_seq m < e_ResourceVersion e)"
    and "mem_live m' k = Some r \<Longrightarrow>
      (\<exists>ex. mem_live m k = Some ex \<and> r_ResourceVersion ex = r_ResourceVersion r) \<or> m_seq m < r_ResourceVersion r"
proof -
  have i: "mem_inv m" "mem_ev_inv m" using inv by (auto simp: mem_all_inv_def)
  have "mem_all_inv m' \<and> m_seq m \<le> m_seq m'
    \<and> (\<exists>new. m_log m' = m_log m @ new \<and> (\<forall>l\<in>set new. m_seq m < le_ResourceVersion l))
    \<and> (\<exists>new. m_events m' = m_events m @ new \<and> (\<forall>e\<in>set new. m_seq m < e_ResourceVersion e))
    \<and> (mem_live m' k = Some r \<longrightarrow>
      (\<exists>ex. mem_live m k = Some ex \<and> r_ResourceVersion ex = r_ResourceVersion r) \<or> m_seq m < r_ResourceVersion r)"
    using wr
  proof (cases rule: mem_wr.cases)
    case (resource op)
    note s = mem.op_step_inv [OF i(1) resource(2,3)] and ef = mem_op_effect [OF i(1) resource(3), of op]
    obtain new where "m_log m' = m_log m @ new" "\<forall>l\<in>set new. le_ResourceVersion l = m_seq m + 1"
      using ef(3) resource(1) by auto
    moreover have "mem_ev_inv m'"
      using s ef(1,2) resource(1,3) by (intro mem_ev_inv_seq [OF i(2)]) auto
    ultimately show ?thesis
      using s ef mem.op_step_version [OF i(1) resource(2,3), of k r] resource(1)
      by (fastforce simp: mem_all_inv_def)
  next
    case (event ev e)
    obtain res m1 where a: "mem_Append e ev m = (res, m1)" by fastforce
    then have m1: "m' = m1" using event(1) by simp
    have ev: "mem_ev_inv m1" by (rule mem_Append_inv [OF i(2) event(3,2) a])
    from mem_Append_result [OF i(2) event(3) a] obtain out where
      "m_events m1 = m_events m @ [out]" "m_seq m1 = m_seq m + 1" "e_ResourceVersion out = m_seq m + 1"
      "m_resources m1 = m_resources m" "m_log m1 = m_log m" by metis
    with ev m1 mem_inv_events [OF i(1), of m1] event(3) show ?thesis
      by (auto simp: mem_all_inv_def mem_live_def)
  qed
  then show "mem_all_inv m'" "m_seq m \<le> m_seq m'"
    "\<exists>new. m_log m' = m_log m @ new \<and> (\<forall>l\<in>set new. m_seq m < le_ResourceVersion l)"
    "\<exists>new. m_events m' = m_events m @ new \<and> (\<forall>e\<in>set new. m_seq m < e_ResourceVersion e)"
    "mem_live m' k = Some r \<Longrightarrow>
      (\<exists>ex. mem_live m k = Some ex \<and> r_ResourceVersion ex = r_ResourceVersion r) \<or> m_seq m < r_ResourceVersion r"
    by blast+
qed

text \<open>The store's keys in the scope of a watch, with their versions; and every version ever logged.\<close>

definition mem_current :: "string \<Rightarrow> string \<Rightarrow> MemoryStore \<Rightarrow> (resKey \<times> int) set" where
  "mem_current kind colony m =
     {(k, v). in_scope kind colony k \<and> map_option r_ResourceVersion (mem_live m k) = Some v}"

definition mem_versions :: "string \<Rightarrow> string \<Rightarrow> MemoryStore \<Rightarrow> int list" where
  "mem_versions kind colony m =
     map le_ResourceVersion (filter (\<lambda>l. in_scope kind colony (le_key l)) (m_log m))"

lemma mem_watch_due_eq:
  "mem_watch_due kind opts m c = map (\<lambda>l. (le_ResourceVersion l, mem_resource_at m (le_key l)))
     (filter (\<lambda>l. in_scope kind (lo_Colony opts) (le_key l) \<and> c < le_ResourceVersion l) (m_log m))"
  unfolding mem_watch_due_def by (intro map_cong filter_cong) (auto simp: in_scope_def le_key_def)

lemma mem_resource_at_key:
  assumes "mem_inv m" "l \<in> set (m_log m)"
  shows "key_of (mem_resource_at m (le_key l)) = le_key l"
proof -
  obtain r where "map_of (m_resources m) (le_key l) = Some r"
    using mem_log_named [OF mem_inv_log [OF assms(1)] assms(2)] by blast
  with mem_inv_row [OF assms(1) this] show ?thesis by (simp add: mem_resource_at_def mem_row_ok_def)
qed

lemma sorted_wrt_map_filter: "sorted_wrt R (map f xs) \<Longrightarrow> sorted_wrt R (map f (filter P xs))"
  by (simp add: sorted_wrt_map sorted_wrt_filter)

interpretation mem_watch: history_feed mem_wr "mem_Watch kind opts" mem_all_inv m_seq
  "mem_current kind (lo_Colony opts)" key_of "\<lambda>p. in_scope kind (lo_Colony opts) (key_of (snd p))"
  event_view "mem_versions kind (lo_Colony opts)" for kind opts
proof (unfold_locales, goal_cases)
  case (1 s p c)
  then show ?case
    using mem_resource_at_key by (auto simp: mem_Watch_def mem_watch_due_eq mem_all_inv_def)
next
  case (2 s p c)
  then show ?case
    using mem_log_bounds [OF mem_inv_log] by (fastforce simp: mem_Watch_def mem_watch_due_eq mem_all_inv_def)
next
  case (3 s c)
  then have "sorted_wrt (<) (map le_ResourceVersion (m_log s))"
    using mem_log_sorted [OF mem_inv_log] by (simp add: mem_all_inv_def)
  then show ?case
    by (simp add: mem_Watch_def mem_watch_due_eq comp_def sorted_wrt_map_filter)
next
  case (4 s k v c)
  then obtain r where r: "map_of (m_resources s) k = Some r" "r_ResourceVersion r = v"
    "in_scope kind (lo_Colony opts) k" "mem_inv s"
    by (auto simp: mem_current_def mem_live_def mem_all_inv_def)
  obtain l where l: "l \<in> set (m_log s)" "le_key l = k" "le_ResourceVersion l = v"
    using mem_log_current [OF mem_inv_log [OF r(4)] r(1)] r(2) by blast
  then have "(v, mem_resource_at s k) \<in> set (mem_watch_due kind opts s c)"
    using 4(3) r(3) by (auto simp: mem_watch_due_eq)
  moreover have "key_of (mem_resource_at s k) = k" using mem_resource_at_key [OF r(4) l(1)] l(2) by simp
  ultimately show ?case by (auto simp: mem_Watch_def)
next
  case (5 s s')
  then show ?case
    using mem_wr_effect(1,2,5) [OF 5] by (fastforce simp: mem_current_def)
next
  case (6 v x seen)
  then show ?case by (simp add: mem_Watch_def)
next
  case (7 c ev)
  then show ?case by (simp add: mem_Watch_def)
next
  case (8 s)
  then have "sorted_wrt (<) (map le_ResourceVersion (m_log s))"
    using mem_log_sorted [OF mem_inv_log] by (simp add: mem_all_inv_def)
  then show ?case by (simp add: mem_versions_def sorted_wrt_map_filter)
next
  case (9 s c)
  have "map fst (mem_watch_due kind opts s c) = filter ((<) c) (mem_versions kind (lo_Colony opts) s)"
    by (simp add: mem_watch_due_eq mem_versions_def filter_map comp_def conj_commute)
  then show ?case by (simp add: mem_Watch_def)
next
  case (10 s s')
  obtain new where new: "m_log s' = m_log s @ new" "\<forall>l\<in>set new. m_seq s < le_ResourceVersion l"
    using mem_wr_effect(3) [OF 10] by blast
  then have "mem_versions kind (lo_Colony opts) s' = mem_versions kind (lo_Colony opts) s
      @ map le_ResourceVersion (filter (\<lambda>l. in_scope kind (lo_Colony opts) (le_key l)) new)"
    by (simp add: mem_versions_def)
  with new(2) show ?case by fastforce
qed

definition mem_run_current :: "string \<Rightarrow> string \<Rightarrow> MemoryStore \<Rightarrow> (event \<times> int) set" where
  "mem_run_current colony run m = {(e, v). e \<in> set (mem_run_events m colony run) \<and> e_ResourceVersion e = v}"

definition mem_run_versions :: "string \<Rightarrow> string \<Rightarrow> MemoryStore \<Rightarrow> int list" where
  "mem_run_versions colony run m = map e_ResourceVersion (mem_run_events m colony run)"

lemma mem_events_due_eq:
  "mem_events_due colony run m c = map (\<lambda>e. (e_ResourceVersion e, e))
     (filter (\<lambda>e. c < e_ResourceVersion e) (mem_run_events m colony run))"
  by (simp add: mem_events_due_def mem_run_events_def conj_commute conj_left_commute)

lemma mem_run_versions_sorted: "mem_ev_inv m \<Longrightarrow> sorted_wrt (<) (map e_ResourceVersion (mem_run_events m colony run))"
  by (simp add: mem_run_events_def mem_ev_inv_def sorted_wrt_map_filter)

definition run_event_ok :: "string \<Rightarrow> string \<Rightarrow> int \<times> event \<Rightarrow> bool" where
  "run_event_ok colony run p \<longleftrightarrow>
     fst p = e_ResourceVersion (snd p) \<and> e_Colony (snd p) = colony \<and> e_Run (snd p) = run"

definition run_event_view :: "event \<Rightarrow> (int \<times> event) option" where
  "run_event_view e = Some (e_ResourceVersion e, e)"

interpretation mem_watch_events: history_feed mem_wr "mem_WatchEvents colony run" mem_all_inv m_seq
  "mem_run_current colony run" id "run_event_ok colony run" run_event_view
  "mem_run_versions colony run" for colony run
proof (unfold_locales, goal_cases)
  case (1 s p c)
  then show ?case by (auto simp: mem_WatchEvents_def mem_events_due_def run_event_ok_def)
next
  case (2 s p c)
  then show ?case by (auto simp: mem_WatchEvents_def mem_events_due_def mem_all_inv_def mem_ev_inv_def)
next
  case (3 s c)
  then show ?case
    using mem_run_versions_sorted [of s colony run]
    by (simp add: mem_WatchEvents_def mem_events_due_eq comp_def sorted_wrt_map_filter mem_all_inv_def)
next
  case (4 s k v c)
  then show ?case by (auto simp: mem_WatchEvents_def mem_events_due_eq mem_run_current_def)
next
  case (5 s s')
  obtain new where new: "m_events s' = m_events s @ new" "\<forall>e\<in>set new. m_seq s < e_ResourceVersion e"
    using mem_wr_effect(4) [OF 5] by blast
  with mem_wr_effect(1,2) [OF 5] show ?case by (auto simp: mem_run_current_def mem_run_events_def)
next
  case (6 v x seen)
  then show ?case by (simp add: mem_WatchEvents_def run_event_view_def run_event_ok_def)
next
  case (7 c ev)
  then show ?case by (simp add: mem_WatchEvents_def)
next
  case (8 s)
  then show ?case
    using mem_run_versions_sorted [of s colony run] by (simp add: mem_run_versions_def mem_all_inv_def)
next
  case (9 s c)
  have "map fst (mem_events_due colony run s c) = filter ((<) c) (mem_run_versions colony run s)"
    by (simp add: mem_events_due_eq mem_run_versions_def filter_map comp_def)
  then show ?case by (simp add: mem_WatchEvents_def)
next
  case (10 s s')
  obtain new where new: "m_events s' = m_events s @ new" "\<forall>e\<in>set new. m_seq s < e_ResourceVersion e"
    using mem_wr_effect(4) [OF 10] by blast
  then have "mem_run_versions colony run s' = mem_run_versions colony run s
      @ map e_ResourceVersion (filter (\<lambda>e. e_Colony e = colony \<and> e_Run e = run) new)"
    by (simp add: mem_run_versions_def mem_run_events_def)
  with new(2) show ?case by fastforce
qed

end
