(* ===== verification/PgWatch.thy ===== *)
theory PgWatch
  imports StoreWatch
begin

text \<open>
  \<open>Watch\<close> and \<open>WatchEvents\<close> of \<open>internal/store/postgres.go\<close>: each poll is one \<open>SELECT\<close> of
  the rows past the cursor, ordered by version and limited to 500. The resource rows hold
  the latest version only, so the watch delivers every row's latest version; the event log
  holds them all, so \<open>WatchEvents\<close> delivers exactly the Run's events.
\<close>

section \<open>The polls\<close>

definition poll_limit :: nat where
  "poll_limit = 500"

text \<open>A query that fails sends nothing, and the goroutine goes on.\<close>

definition pg_watch_due :: "pg_engine \<Rightarrow> string \<Rightarrow> list_options \<Rightarrow> Postgres \<Rightarrow> int \<Rightarrow> (int \<times> resource) list" where
  "pg_watch_due eng kind opts s cursor =
     (if \<not> (pe_text_ok eng kind \<and> pe_text_ok eng (lo_Colony opts)) then []
      else map (\<lambda>r. (r_ResourceVersion r, r))
        (take poll_limit (sort_key r_ResourceVersion
          (filter (\<lambda>r. r_Kind r = kind \<and> (lo_Colony opts = '''' \<or> r_Colony r = lo_Colony opts)
                     \<and> r_ResourceVersion r > cursor) (map snd (p_rows s))))))"

definition pg_Watch :: "pg_engine \<Rightarrow> string \<Rightarrow> list_options \<Rightarrow> (Postgres, resource, watch_event) feed" where
  "pg_Watch eng kind opts =
     \<lparr>fd_poll = pg_watch_due eng kind opts, fd_emit = watch_emit, fd_mark = watch_bookmark\<rparr>"

definition pg_events_due :: "pg_engine \<Rightarrow> string \<Rightarrow> string \<Rightarrow> Postgres \<Rightarrow> int \<Rightarrow> (int \<times> event) list" where
  "pg_events_due eng colony run s cursor =
     (if \<not> (pe_text_ok eng colony \<and> pe_text_ok eng run) then []
      else map (\<lambda>e. (e_ResourceVersion e, e))
        (take poll_limit (sort_key e_ResourceVersion
          (filter (\<lambda>e. e_ResourceVersion e > cursor) (run_events colony run s)))))"

definition pg_WatchEvents :: "pg_engine \<Rightarrow> string \<Rightarrow> string \<Rightarrow> (Postgres, event, event) feed" where
  "pg_WatchEvents eng colony run =
     \<lparr>fd_poll = pg_events_due eng colony run, fd_emit = (\<lambda>v e seen. (e, seen)), fd_mark = (\<lambda>_. None)\<rparr>"

section \<open>Sorted pages\<close>

lemma sorted_wrt_take: "sorted_wrt R xs \<Longrightarrow> sorted_wrt R (take n xs)"
  by (metis append_take_drop_id sorted_wrt_append)

lemma take_sorted_last:
  fixes f :: "'a \<Rightarrow> int"
  assumes "sorted_wrt (<) (map f xs)" "x \<in> set xs" "x \<notin> set (take n xs)" "0 < n"
  shows "take n xs \<noteq> [] \<and> f (last (take n xs)) < f x"
proof -
  have "xs = take n xs @ drop n xs" by simp
  then have "x \<in> set (drop n xs)" using assms(2,3) by (metis Un_iff set_append)
  moreover from this have "take n xs \<noteq> []" using assms(4) by auto
  moreover have "\<forall>y\<in>set (take n xs). \<forall>z\<in>set (drop n xs). f y < f z"
    using assms(1) sorted_wrt_append [of "(<)" "map f (take n xs)" "map f (drop n xs)"]
    by (simp flip: map_append)
  ultimately show ?thesis by simp
qed

lemma poll_limit_pos: "0 < poll_limit"
  by (simp add: poll_limit_def)

section \<open>Writes\<close>

text \<open>
  A write of another client; a version may also be taken and not given to anything (an
  \<open>ApplyStatus\<close> that is computed twice, theory \<open>PgTxn\<close>).
\<close>

inductive pg_wr :: "pg_engine \<Rightarrow> Postgres \<Rightarrow> Postgres \<Rightarrow> bool" for eng where
  resource: "client_op op \<Longrightarrow> p_counter s + 2 \<le> max_int64 \<Longrightarrow>
    pg_wr eng s (op_step (pg_ResourceStore eng) op s)"
| event: "pg_wr eng s (snd (pg_Append eng e ev s))"
| skipped: "p_counter s < max_int64 \<Longrightarrow> pg_wr eng s (s\<lparr>p_counter := p_counter s + 1\<rparr>)"

definition pg_all_inv :: "pg_engine \<Rightarrow> Postgres \<Rightarrow> bool" where
  "pg_all_inv eng s \<longleftrightarrow> pg_inv eng s \<and> pg_ev_inv s \<and> pg.versions_distinct s"

lemma pg_all_inv_init: "pg_all_inv eng init_postgres"
  unfolding pg_all_inv_def pg.versions_distinct_def
  using pg_inv_init pg_ev_inv_init by (simp add: pg_live_def) (simp add: init_postgres_def)

lemma pg_op_events:
  assumes "pg_inv eng s"
  shows "p_events (op_step (pg_ResourceStore eng) op s) = p_events s"
proof (cases op)
  case (OpApply e r v)
  obtain res s' where a: "pg_Apply eng e r v s = (res, s')" by fastforce
  from a assms have "p_events s' = p_events s"
    by (auto elim!: pg_Apply_split elim: pg_insertImmutable_cases pg_applyMutable_cases)
  with a OpApply show ?thesis by (simp add: op_step_def pg_ResourceStore_def)
next
  case (OpStatus e r)
  obtain res s' where a: "pg_ApplyStatus eng e r s = (res, s')" by fastforce
  then have "p_events s' = p_events s" by (cases rule: pg_ApplyStatus_cases) auto
  with a OpStatus show ?thesis by (simp add: op_step_def pg_ResourceStore_def)
qed

lemma pg_ev_inv_counter:
  assumes "pg_ev_inv s" "p_events s' = p_events s" "p_counter s \<le> p_counter s'" "p_counter s' \<le> max_int64"
  shows "pg_ev_inv s'"
proof -
  have r: "run_events c r s' = run_events c r s" for c r using assms(2) by (simp add: run_events_def)
  have "\<forall>p\<in>set (p_events s). 1 \<le> e_ResourceVersion (snd p) \<and> e_ResourceVersion (snd p) \<le> p_counter s'"
    using assms(1,3) unfolding pg_ev_inv_def by fastforce
  moreover have "map e_Seq (run_events c r s) = [1..int (length (run_events c r s))]" for c r
    using assms(1) unfolding pg_ev_inv_def by blast
  moreover have "0 \<le> p_counter s" "int (length (p_events s)) \<le> p_counter s"
    "sorted_wrt (<) (map (e_ResourceVersion \<circ> snd) (p_events s))"
    using assms(1) unfolding pg_ev_inv_def by blast+
  ultimately show ?thesis unfolding pg_ev_inv_def r assms(2) using assms(3,4) by simp
qed

lemma pg_wr_effect:
  assumes inv: "pg_all_inv eng s" and wr: "pg_wr eng s s'"
  shows "pg_all_inv eng s'" "p_counter s \<le> p_counter s'"
    and "\<exists>new. p_events s' = p_events s @ new \<and> (\<forall>p\<in>set new. p_counter s < e_ResourceVersion (snd p))"
    and "pg_live s' k = Some r \<Longrightarrow>
      (\<exists>ex. pg_live s k = Some ex \<and> r_ResourceVersion ex = r_ResourceVersion r) \<or> p_counter s < r_ResourceVersion r"
proof -
  have i: "pg_inv eng s" "pg_ev_inv s" "pg.versions_distinct s" using inv by (auto simp: pg_all_inv_def)
  have "pg_all_inv eng s' \<and> p_counter s \<le> p_counter s'
    \<and> (\<exists>new. p_events s' = p_events s @ new \<and> (\<forall>p\<in>set new. p_counter s < e_ResourceVersion (snd p)))
    \<and> (pg_live s' k = Some r \<longrightarrow>
      (\<exists>ex. pg_live s k = Some ex \<and> r_ResourceVersion ex = r_ResourceVersion r) \<or> p_counter s < r_ResourceVersion r)"
    using wr
  proof (cases rule: pg_wr.cases)
    case (resource op)
    note st = pg.op_step_inv [OF i(1) resource(2,3)]
    have "pg_ev_inv s'"
      using st resource(1,3) pg_op_events [OF i(1), of op] by (intro pg_ev_inv_counter [OF i(2)]) auto
    then show ?thesis
      using st resource(1) pg_op_events [OF i(1), of op] pg.op_step_version [OF i(1) resource(2,3), of k r]
        pg.op_step_distinct [OF i(1) resource(2,3) i(3)]
      by (simp add: pg_all_inv_def)
  next
    case skipped
    have "pg_inv eng s'" using pg_counter_inv [OF i(1), of "p_counter s + 1"] skipped by simp
    moreover have "pg_ev_inv s'" using skipped by (intro pg_ev_inv_counter [OF i(2)]) auto
    ultimately show ?thesis
      using i(3) skipped(1) by (auto simp: pg_all_inv_def pg.versions_distinct_def pg_live_def)
  next
    case (event e ev)
    obtain res s1 where a: "pg_Append eng e ev s = (res, s1)" by fastforce
    have s1: "s' = s1" using a event by simp
    have ev: "pg_ev_inv s1" by (rule pg_Append_inv [OF i(2) a])
    from i(2) a show ?thesis
    proof (cases rule: pg_Append_cases)
      case failed
      with s1 inv show ?thesis by auto
    next
      case (appended out)
      have l: "pg_live s1 = pg_live s" using appended(10) by (simp add: pg_live_def)
      have "pg_inv eng s1"
        using pg_counter_inv [OF i(1), of "p_counter s1"] appended(2,4,10) by (simp add: pg_inv_def)
      then show ?thesis
        using ev i(3) l s1 appended(3,4,8) by (simp add: pg_all_inv_def pg.versions_distinct_def)
    qed
  qed
  then show "pg_all_inv eng s'" "p_counter s \<le> p_counter s'"
    "\<exists>new. p_events s' = p_events s @ new \<and> (\<forall>p\<in>set new. p_counter s < e_ResourceVersion (snd p))"
    "pg_live s' k = Some r \<Longrightarrow>
      (\<exists>ex. pg_live s k = Some ex \<and> r_ResourceVersion ex = r_ResourceVersion r) \<or> p_counter s < r_ResourceVersion r"
    by blast+
qed

section \<open>The watch on resources\<close>

definition pg_current :: "string \<Rightarrow> string \<Rightarrow> Postgres \<Rightarrow> (resKey \<times> int) set" where
  "pg_current kind colony s =
     {(k, v). in_scope kind colony k \<and> map_option r_ResourceVersion (pg_live s k) = Some v}"

text \<open>The rows a poll chooses from.\<close>

definition pg_due_rows :: "string \<Rightarrow> list_options \<Rightarrow> Postgres \<Rightarrow> int \<Rightarrow> resource list" where
  "pg_due_rows kind opts s cursor = sort_key r_ResourceVersion
     (filter (\<lambda>r. r_Kind r = kind \<and> (lo_Colony opts = '''' \<or> r_Colony r = lo_Colony opts)
                \<and> r_ResourceVersion r > cursor) (map snd (p_rows s)))"

lemma pg_watch_due_rows:
  "pe_text_ok eng kind \<Longrightarrow> pe_text_ok eng (lo_Colony opts) \<Longrightarrow> pg_watch_due eng kind opts s c =
    map (\<lambda>r. (r_ResourceVersion r, r)) (take poll_limit (pg_due_rows kind opts s c))"
  by (simp add: pg_watch_due_def pg_due_rows_def)

lemma in_scope_key: "in_scope kind colony (key_of r) \<longleftrightarrow> r_Kind r = kind \<and> (colony = '''' \<or> r_Colony r = colony)"
  by (simp add: in_scope_def key_of_def)

lemma set_pg_due_rows:
  "set (pg_due_rows kind opts s c) =
    {r \<in> snd ` set (p_rows s). in_scope kind (lo_Colony opts) (key_of r) \<and> c < r_ResourceVersion r}"
  by (auto simp: pg_due_rows_def in_scope_key)

lemma rows_distinct_versions:
  assumes "pg_inv eng s" "pg.versions_distinct s"
  shows "distinct (map r_ResourceVersion (map snd (p_rows s)))"
proof -
  have d: "distinct (map fst (p_rows s))" using assms(1) by (simp add: pg_inv_def)
  have "p = q" if pq: "p \<in> set (p_rows s)" "q \<in> set (p_rows s)"
    "r_ResourceVersion (snd p) = r_ResourceVersion (snd q)" for p q
  proof -
    have "map_of (p_rows s) (fst p) = Some (snd p)" "map_of (p_rows s) (fst q) = Some (snd q)"
      using d pq(1,2) by (auto intro!: map_of_is_SomeI)
    then have "fst p = fst q"
      using assms(2) pq(3) unfolding pg.versions_distinct_def pg_live_def by blast
    then show ?thesis using d pq(1,2) by (metis eq_key_imp_eq_value prod.collapse)
  qed
  then have "inj_on (\<lambda>p. r_ResourceVersion (snd p)) (set (p_rows s))" by (auto simp: inj_on_def)
  moreover have "distinct (p_rows s)" using d by (auto simp: distinct_map)
  ultimately show ?thesis by (simp add: distinct_map comp_def)
qed

lemma distinct_sort_map: "distinct (map f xs) \<Longrightarrow> distinct (map f (sort_key f xs))"
  by (simp add: distinct_map)

lemma pg_due_rows_sorted:
  assumes "pg_all_inv eng s"
  shows "sorted_wrt (<) (map r_ResourceVersion (pg_due_rows kind opts s c))"
proof -
  have "distinct (map r_ResourceVersion (map snd (p_rows s)))"
    using assms unfolding pg_all_inv_def by (blast intro: rows_distinct_versions)
  then have "distinct (map r_ResourceVersion (pg_due_rows kind opts s c))"
    unfolding pg_due_rows_def by (intro distinct_sort_map distinct_map_filter')
  then show ?thesis
    by (simp add: strict_sorted_iff) (simp add: pg_due_rows_def)
qed

interpretation pg_watch: feed_source "pg_wr eng" "pg_Watch eng kind opts" "pg_all_inv eng" p_counter
  "\<lambda>s. if pe_text_ok eng kind \<and> pe_text_ok eng (lo_Colony opts) then pg_current kind (lo_Colony opts) s else {}"
  key_of "\<lambda>p. in_scope kind (lo_Colony opts) (key_of (snd p))" event_view for eng kind opts
proof (unfold_locales, goal_cases)
  case (1 s p c)
  then show ?case
    using set_take_subset [of poll_limit "pg_due_rows kind opts s c"]
    by (cases "pe_text_ok eng kind \<and> pe_text_ok eng (lo_Colony opts)")
      (auto simp: pg_Watch_def pg_watch_due_rows set_pg_due_rows, auto simp: pg_watch_due_def)
next
  case (2 s p c)
  have "r_ResourceVersion r \<le> p_counter s" if "r \<in> snd ` set (p_rows s)" for r
  proof -
    from that obtain k where "map_of (p_rows s) k = Some r" using 2(1)
      by (auto simp: pg_all_inv_def pg_inv_def)
    then show ?thesis using pg_inv_row [of eng s k r] 2(1) by (simp add: pg_all_inv_def pg_row_ok_def)
  qed
  then show ?case
    using 2(2) set_take_subset [of poll_limit "pg_due_rows kind opts s c"] set_pg_due_rows [of kind opts s c]
    by (cases "pe_text_ok eng kind \<and> pe_text_ok eng (lo_Colony opts)")
      (auto simp: pg_Watch_def pg_watch_due_rows subset_iff, auto simp: pg_watch_due_def)
next
  case (3 s c)
  have "sorted_wrt (<) (map r_ResourceVersion (take poll_limit (pg_due_rows kind opts s c)))"
    using pg_due_rows_sorted [OF 3] by (simp add: sorted_wrt_take flip: take_map)
  then show ?case
    by (cases "pe_text_ok eng kind \<and> pe_text_ok eng (lo_Colony opts)")
      (auto simp: pg_Watch_def pg_watch_due_rows comp_def, auto simp: pg_watch_due_def)
next
  case (4 s k v c)
  then have ok: "pe_text_ok eng kind" "pe_text_ok eng (lo_Colony opts)" and
    cur: "(k, v) \<in> pg_current kind (lo_Colony opts) s" by (auto split: if_splits)
  from cur obtain r where r: "map_of (p_rows s) k = Some r" "r_ResourceVersion r = v" "in_scope kind (lo_Colony opts) k"
    by (auto simp: pg_current_def pg_live_def)
  have key: "key_of r = k" using pg_inv_row [OF _ r(1)] 4(1) by (auto simp: pg_all_inv_def pg_row_ok_def)
  have "r \<in> snd ` set (p_rows s)" using map_of_SomeD [OF r(1)] by force
  then have mem: "r \<in> set (pg_due_rows kind opts s c)"
    using r key 4(3) by (auto simp: set_pg_due_rows)
  let ?page = "take poll_limit (pg_due_rows kind opts s c)"
  have poll: "fd_poll (pg_Watch eng kind opts) s c = map (\<lambda>r. (r_ResourceVersion r, r)) ?page"
    using ok by (simp add: pg_Watch_def pg_watch_due_rows)
  show ?case
  proof (cases "r \<in> set ?page")
    case True
    then have "(v, r) \<in> set (fd_poll (pg_Watch eng kind opts) s c)" unfolding poll using r(2) by auto
    then show ?thesis using key by blast
  next
    case False
    from take_sorted_last [OF pg_due_rows_sorted [OF 4(1)] mem False poll_limit_pos] r(2)
    show ?thesis unfolding poll by (simp add: last_map)
  qed
next
  case (5 s s')
  have "(k, v) \<in> pg_current kind (lo_Colony opts) s \<or> p_counter s < v"
    if "(k, v) \<in> pg_current kind (lo_Colony opts) s'" for k v
    using that pg_wr_effect(4) [OF 5, of k] by (auto simp: pg_current_def)
  then show ?case using pg_wr_effect(1,2) [OF 5] by auto
next
  case (6 v x seen)
  then show ?case by (simp add: pg_Watch_def)
next
  case (7 c ev)
  then show ?case by (simp add: pg_Watch_def)
qed

section \<open>The watch on events\<close>

definition pg_run_current :: "string \<Rightarrow> string \<Rightarrow> Postgres \<Rightarrow> (event \<times> int) set" where
  "pg_run_current colony run s = {(e, v). e \<in> set (run_events colony run s) \<and> e_ResourceVersion e = v}"

definition pg_run_versions :: "string \<Rightarrow> string \<Rightarrow> Postgres \<Rightarrow> int list" where
  "pg_run_versions colony run s = map e_ResourceVersion (run_events colony run s)"

lemma run_events_versions_sorted:
  "pg_ev_inv s \<Longrightarrow> sorted_wrt (<) (map e_ResourceVersion (run_events colony run s))"
  using sorted_wrt_map_filter [of "(<)" e_ResourceVersion "map snd (p_events s)"]
  by (simp add: run_events_def pg_ev_inv_def)

lemma pg_events_due_eq:
  assumes "pg_ev_inv s" "pe_text_ok eng colony" "pe_text_ok eng run"
  shows "pg_events_due eng colony run s c = map (\<lambda>e. (e_ResourceVersion e, e))
    (take poll_limit (filter (\<lambda>e. c < e_ResourceVersion e) (run_events colony run s)))"
proof -
  have "sorted_wrt (<) (map e_ResourceVersion (filter (\<lambda>e. c < e_ResourceVersion e) (run_events colony run s)))"
    by (rule sorted_wrt_map_filter [OF run_events_versions_sorted [OF assms(1)]])
  then have "sorted (map e_ResourceVersion (filter (\<lambda>e. c < e_ResourceVersion e) (run_events colony run s)))"
    by (simp add: strict_sorted_iff)
  then show ?thesis using assms(2,3) by (simp add: pg_events_due_def sort_key_id_if_sorted)
qed

interpretation pg_watch_events: history_feed "pg_wr eng" "pg_WatchEvents eng colony run" "pg_all_inv eng"
  p_counter
  "\<lambda>s. if pe_text_ok eng colony \<and> pe_text_ok eng run then pg_run_current colony run s else {}"
  id "run_event_ok colony run" run_event_view
  "\<lambda>s. if pe_text_ok eng colony \<and> pe_text_ok eng run then pg_run_versions colony run s else []"
  for eng colony run
proof (cases "pe_text_ok eng colony \<and> pe_text_ok eng run")
  case False
  then have "fd_poll (pg_WatchEvents eng colony run) s c = []" for s c
    by (auto simp: pg_WatchEvents_def pg_events_due_def)
  then show "history_feed (pg_wr eng) (pg_WatchEvents eng colony run) (pg_all_inv eng) p_counter
      (\<lambda>s. if pe_text_ok eng colony \<and> pe_text_ok eng run then pg_run_current colony run s else {})
      id (run_event_ok colony run) run_event_view
      (\<lambda>s. if pe_text_ok eng colony \<and> pe_text_ok eng run then pg_run_versions colony run s else [])"
    using False pg_wr_effect(1,2)
    by (unfold_locales) (auto simp: pg_WatchEvents_def run_event_view_def run_event_ok_def)
next
  case ok: True
  have ev: "pg_ev_inv s" if "pg_all_inv eng s" for s using that by (simp add: pg_all_inv_def)
  have poll: "fd_poll (pg_WatchEvents eng colony run) s c = map (\<lambda>e. (e_ResourceVersion e, e))
    (take poll_limit (filter (\<lambda>e. c < e_ResourceVersion e) (run_events colony run s)))"
    if "pg_all_inv eng s" for s c
    using pg_events_due_eq [OF ev [OF that]] ok by (simp add: pg_WatchEvents_def)
  have grow: "\<exists>new. run_events colony run s' = run_events colony run s @ new
      \<and> (\<forall>e\<in>set new. p_counter s < e_ResourceVersion e)" if s: "pg_all_inv eng s" "pg_wr eng s s'" for s s'
  proof -
    obtain new where "p_events s' = p_events s @ new" "\<forall>p\<in>set new. p_counter s < e_ResourceVersion (snd p)"
      using pg_wr_effect(3) [OF s] by blast
    then show ?thesis by (auto simp: run_events_def)
  qed
  show "history_feed (pg_wr eng) (pg_WatchEvents eng colony run) (pg_all_inv eng) p_counter
      (\<lambda>s. if pe_text_ok eng colony \<and> pe_text_ok eng run then pg_run_current colony run s else {})
      id (run_event_ok colony run) run_event_view
      (\<lambda>s. if pe_text_ok eng colony \<and> pe_text_ok eng run then pg_run_versions colony run s else [])"
  proof (unfold_locales, goal_cases)
    case (1 s p c)
    then show ?case using poll [OF 1(1)] by (auto simp: run_event_ok_def run_events_def dest: in_set_takeD)
  next
    case (2 s p c)
    then show ?case
      using poll [OF 2(1)] ev [OF 2(1)] by (auto simp: pg_ev_inv_def run_events_def dest!: in_set_takeD)
  next
    case (3 s c)
    have "sorted_wrt (<) (map e_ResourceVersion (filter (\<lambda>e. c < e_ResourceVersion e) (run_events colony run s)))"
      by (rule sorted_wrt_map_filter [OF run_events_versions_sorted [OF ev [OF 3]]])
    then show ?case using poll [OF 3] by (simp add: comp_def sorted_wrt_take flip: take_map)
  next
    case (4 s k v c)
    let ?due = "filter (\<lambda>e. c < e_ResourceVersion e) (run_events colony run s)"
    have k: "k \<in> set ?due" "e_ResourceVersion k = v" using 4 ok by (auto simp: pg_run_current_def)
    have srt: "sorted_wrt (<) (map e_ResourceVersion ?due)"
      by (rule sorted_wrt_map_filter [OF run_events_versions_sorted [OF ev [OF 4(1)]]])
    show ?case
    proof (cases "k \<in> set (take poll_limit ?due)")
      case True
      then have "(v, k) \<in> set (fd_poll (pg_WatchEvents eng colony run) s c)"
        unfolding poll [OF 4(1)] using k(2) by auto
      then show ?thesis by auto
    next
      case False
      from take_sorted_last [OF srt k(1) False poll_limit_pos] k(2)
      show ?thesis unfolding poll [OF 4(1)] by (simp add: last_map)
    qed
  next
    case (5 s s')
    then show ?case
      using pg_wr_effect(1,2) [OF 5] grow [OF 5] ok by (auto simp: pg_run_current_def)
  next
    case (6 v x seen)
    then show ?case by (simp add: pg_WatchEvents_def run_event_view_def run_event_ok_def)
  next
    case (7 c e)
    then show ?case by (simp add: pg_WatchEvents_def)
  next
    case (8 s)
    then show ?case using run_events_versions_sorted [OF ev [OF 8]] ok by (simp add: pg_run_versions_def)
  next
    case (9 s c)
    let ?due = "filter (\<lambda>e. c < e_ResourceVersion e) (run_events colony run s)"
    have "map fst (fd_poll (pg_WatchEvents eng colony run) s c) @ map e_ResourceVersion (drop poll_limit ?due)
        = map e_ResourceVersion ?due"
      unfolding poll [OF 9] by (simp add: comp_def flip: map_append)
    moreover have "map e_ResourceVersion ?due = filter ((<) c) (pg_run_versions colony run s)"
      by (simp add: pg_run_versions_def filter_map comp_def)
    moreover have "?due = []" if "fd_poll (pg_WatchEvents eng colony run) s c = []"
      using that poll_limit_pos unfolding poll [OF 9] by simp
    ultimately show ?case using ok by fastforce
  next
    case (10 s s')
    then show ?case using grow [OF 10] ok by (auto simp: pg_run_versions_def)
  qed
qed

end
