(* ===== verification/Samples.thy ===== *)
theory Samples
  imports Pagination PgWatch
begin

text \<open>
  Concrete inputs: a PostgreSQL engine that stores what it is given, some resources and
  writes, and what evaluating the two stores on them gives. The witnesses of the
  properties apply them here.
\<close>

section \<open>Engines and inputs\<close>

definition plain_engine :: pg_engine where
  "plain_engine = \<lparr>pe_text_ok = (\<lambda>s. pageTokenSep \<notin> set s), pe_jsonb_in = Some,
     pe_jsonb_eq = (=), pe_coll = id, pe_time = id\<rparr>"

definition env_a :: env where "env_a = \<lparr>env_now = 7, env_uid = ''u1''\<rparr>"
definition env_b :: env where "env_b = \<lparr>env_now = 9, env_uid = ''u2''\<rparr>"

definition agent_a :: resource where
  "agent_a = empty_resource\<lparr>r_Kind := ''Agent'', r_Colony := ''c'', r_Name := ''a'', r_Spec := Some ''{}''\<rparr>"

definition agent_a2 :: resource where
  "agent_a2 = agent_a\<lparr>r_Spec := Some ''{\"d\":true}''\<rparr>"

definition agent_b :: resource where
  "agent_b = agent_a\<lparr>r_Name := ''b''\<rparr>"

definition version_a :: resource where
  "version_a = agent_a\<lparr>r_Kind := ''AgentVersion''\<rparr>"

definition version_a2 :: resource where
  "version_a2 = agent_a2\<lparr>r_Kind := ''AgentVersion''\<rparr>"

definition event_a :: event where
  "event_a = \<lparr>e_Colony = ''c'', e_Run = ''r'', e_Seq = 0, e_Type = ''t'', e_TS = 0,
     e_Payload = Some ''{}'', e_ResourceVersion = 0\<rparr>"

lemmas sample_defs = plain_engine_def env_a_def env_b_def agent_a_def agent_a2_def agent_b_def
  version_a_def version_a2_def event_a_def empty_resource_def

section \<open>Reached states\<close>

text \<open>The state of a store after a sequence of client writes from the start.\<close>

definition mem_after :: "store_op list \<Rightarrow> MemoryStore" where
  "mem_after ws = op_run mem_ResourceStore ws NewMemoryStore"

definition pg_after :: "pg_engine \<Rightarrow> store_op list \<Rightarrow> Postgres" where
  "pg_after eng ws = op_run (pg_ResourceStore eng) ws init_postgres"

lemma mem_after_append: "mem_after (ws @ ws') = op_run mem_ResourceStore ws' (mem_after ws)"
  by (simp add: mem_after_def op_run_append)

lemma pg_after_append: "pg_after eng (ws @ ws') = op_run (pg_ResourceStore eng) ws' (pg_after eng ws)"
  by (simp add: pg_after_def op_run_append)

lemma mem_after_inv:
  assumes "\<forall>w\<in>set ws. client_op w" "room 0 ws"
  shows "mem_inv (mem_after ws)" "m_seq (mem_after ws) \<le> 2 * int (length ws)"
  using mem.op_run_inv [OF mem_inv_init assms(1)] assms(2)
  by (simp_all add: mem_after_def NewMemoryStore_def)

lemma pg_after_inv:
  assumes "\<forall>w\<in>set ws. client_op w" "room 0 ws"
  shows "pg_inv eng (pg_after eng ws)" "p_counter (pg_after eng ws) \<le> 2 * int (length ws)"
  using pg.op_run_inv [OF pg_inv_init assms(1)] assms(2)
  by (simp_all add: pg_after_def init_postgres_def)

lemma room_append: "room v (ws @ ws') \<Longrightarrow> u \<le> v + 2 * int (length ws) \<Longrightarrow> room u ws'"
  by (simp add: room_def)

lemma mem_Get_live: "mem_inv m \<Longrightarrow> mem_Get k c n m = Inr r \<longleftrightarrow> mem_live m (k, c, n) = Some r"
  using mem_inv_row [of m "(k, c, n)"] by (auto simp: mem_Get_def mem_live_def mem_row_ok_def split: option.splits)

lemma pg_Get_live: "pg_inv eng s \<Longrightarrow> pg_Get eng k c n s = Inr r \<longleftrightarrow> pg_live s (k, c, n) = Some r"
  using pg_inv_row [of eng s "(k, c, n)"]
  by (auto simp: pg_Get_def pg_live_def pg_row_ok_def key_of_def split: option.splits if_splits)

section \<open>Small runs\<close>

definition writes_1 :: "store_op list" where "writes_1 = [OpApply env_a agent_a None]"
definition writes_v :: "store_op list" where "writes_v = [OpApply env_a version_a None]"
definition writes_v2 :: "store_op list" where "writes_v2 = [OpApply env_b version_a2 None]"

lemma sample_writes_ok [simp]:
  "\<forall>w\<in>set writes_1. client_op w" "\<forall>w\<in>set writes_v. client_op w" "\<forall>w\<in>set writes_v2. client_op w"
  "room 0 writes_1" "room 0 (writes_v @ writes_v2)" "room 0 writes_v"
  by (simp_all add: writes_1_def writes_v_def writes_v2_def room_def sample_defs)

lemma mem_writes_1: "mem_after writes_1 =
   \<lparr>m_resources = [((''Agent'', ''c'', ''a''), agent_a\<lparr>r_APIVersion := DefaultAPIVersion, r_UID := ''u1'',
        r_Generation := 1, r_ResourceVersion := 1, r_CreatedAt := 7, r_UpdatedAt := 7\<rparr>)],
    m_log = [\<lparr>le_Kind = ''Agent'', le_Colony = ''c'', le_Name = ''a'', le_ResourceVersion = 1\<rparr>],
    m_seq = 1, m_events = [], m_eventSeq = []\<rparr>"
  by (simp add: mem_after_def writes_1_def op_step_def mem_ResourceStore_def mem_Apply_def sample_defs
      NewMemoryStore_def mem_nextSeq_def mem_created_def with_default_version_def mem_log_def mem_store_def
      DefaultAPIVersion_def cloneResource_def Let_def)

lemma pg_writes_1: "pg_after plain_engine writes_1 =
   \<lparr>p_rows = [((''Agent'', ''c'', ''a''), agent_a\<lparr>r_APIVersion := DefaultAPIVersion, r_UID := ''u1'',
        r_Generation := 1, r_ResourceVersion := 1, r_Status := Some ''{}'', r_CreatedAt := 7, r_UpdatedAt := 7\<rparr>)],
    p_counter = 1, p_events = [], p_event_id = 0\<rparr>"
  by (simp add: pg_after_def writes_1_def op_step_def pg_ResourceStore_def pg_Apply_def pg_applyMutable_def
      sample_defs init_postgres_def insert_row_eq jsonbBytes_def blen_def bytes_of_def
      api_version_of_def pageTokenSep_def hived_next_resource_version_def DefaultAPIVersion_def key_of_def
      IsImmutableKind_def ImmutableKinds_def Let_def)

end
