(* ===== verification/StoreProps.thy ===== *)
theory StoreProps
  imports Samples
begin

text \<open>
  The properties of the two stores, each with a witness: what a sequence of writes keeps,
  optimistic concurrency, unchanged re-applies, paging, the event log and the watches.
\<close>

section \<open>Sequences of writes\<close>

text \<open>
  C2: whatever clients write to the PostgreSQL store, a resource that can be read stays
  readable under its key with the same UID, its resource version and generation never
  decrease, and the spec and generation of an immutable kind (AgentVersion) never change.
\<close>

theorem postgres_writes_keep:
  assumes "\<forall>w\<in>set (ws @ ws'). client_op w" "room 0 (ws @ ws')"
    and "pg_Get eng k c n (pg_after eng ws) = Inr ex"
  shows "\<exists>r. pg_Get eng k c n (pg_after eng (ws @ ws')) = Inr r
    \<and> r_ResourceVersion ex \<le> r_ResourceVersion r \<and> r_Generation ex \<le> r_Generation r
    \<and> r_UID r = r_UID ex
    \<and> (IsImmutableKind k \<longrightarrow> r_Spec r = r_Spec ex \<and> r_Generation r = r_Generation ex)"
proof -
  have "room 0 ws" using assms(2) by (auto simp: room_def)
  then have i: "pg_inv eng (pg_after eng ws)" "p_counter (pg_after eng ws) \<le> 2 * int (length ws)"
    using pg_after_inv [of ws eng] assms(1) by auto
  have i': "pg_inv eng (pg_after eng (ws @ ws'))" using pg_after_inv assms(1,2) by blast
  have "room (p_counter (pg_after eng ws)) ws'" using room_append [OF assms(2)] i(2) by simp
  from pg.op_run_live [OF i(1) _ this, of "(k, c, n)"] assms(1,3) pg_Get_live [OF i(1)] show ?thesis
    unfolding pg_Get_live [OF i'] by (simp add: pg_after_append)
qed

lemma pg_writes_v: "pg_Get plain_engine ''AgentVersion'' ''c'' ''a'' (pg_after plain_engine writes_v) =
   Inr (version_a\<lparr>r_APIVersion := DefaultAPIVersion, r_UID := ''u1'', r_Generation := 1,
      r_ResourceVersion := 1, r_Status := Some ''{}'', r_CreatedAt := 7, r_UpdatedAt := 7\<rparr>)"
  by (simp add: pg_after_def writes_v_def op_step_def pg_ResourceStore_def pg_Apply_def pg_applyImmutable_def
      pg_insertImmutable_def pg_Get_def sample_defs init_postgres_def insert_row_eq jsonbBytes_def
      blen_def bytes_of_def api_version_of_def pageTokenSep_def hived_next_resource_version_def
      DefaultAPIVersion_def key_of_def IsImmutableKind_def ImmutableKinds_def Let_def)

theorem postgres_writes_keep_witness:
  "\<exists>r. pg_Get plain_engine ''AgentVersion'' ''c'' ''a'' (pg_after plain_engine (writes_v @ writes_v2)) = Inr r
    \<and> r_Spec r = Some ''{}'' \<and> r_Generation r = 1 \<and> r_UID r = ''u1'' \<and> 1 \<le> r_ResourceVersion r"
  using postgres_writes_keep [OF _ _ pg_writes_v, of writes_v2]
  by (auto simp: IsImmutableKind_def ImmutableKinds_def ball_Un sample_defs)

text \<open>
  C7: the same of the in-memory store: reads survive every sequence of client writes, with
  the UID kept, versions and generations non-decreasing, immutable specs fixed.
\<close>

theorem memory_writes_keep:
  assumes "\<forall>w\<in>set (ws @ ws'). client_op w" "room 0 (ws @ ws')"
    and "mem_Get k c n (mem_after ws) = Inr ex"
  shows "\<exists>r. mem_Get k c n (mem_after (ws @ ws')) = Inr r
    \<and> r_ResourceVersion ex \<le> r_ResourceVersion r \<and> r_Generation ex \<le> r_Generation r
    \<and> r_UID r = r_UID ex
    \<and> (IsImmutableKind k \<longrightarrow> r_Spec r = r_Spec ex \<and> r_Generation r = r_Generation ex)"
proof -
  have "room 0 ws" using assms(2) by (auto simp: room_def)
  then have i: "mem_inv (mem_after ws)" "m_seq (mem_after ws) \<le> 2 * int (length ws)"
    using mem_after_inv [of ws] assms(1) by auto
  have i': "mem_inv (mem_after (ws @ ws'))" using mem_after_inv assms(1,2) by blast
  have "room (m_seq (mem_after ws)) ws'" using room_append [OF assms(2)] i(2) by simp
  from mem.op_run_live [OF i(1) _ this, of "(k, c, n)"] assms(1,3) mem_Get_live [OF i(1)] show ?thesis
    unfolding mem_Get_live [OF i'] by (simp add: mem_after_append)
qed

lemma mem_writes_v: "mem_Get ''AgentVersion'' ''c'' ''a'' (mem_after writes_v) =
   Inr (version_a\<lparr>r_APIVersion := DefaultAPIVersion, r_UID := ''u1'', r_Generation := 1,
      r_ResourceVersion := 1, r_CreatedAt := 7, r_UpdatedAt := 7\<rparr>)"
  by (simp add: mem_after_def writes_v_def op_step_def mem_ResourceStore_def mem_Apply_def mem_Get_def
      sample_defs NewMemoryStore_def mem_nextSeq_def mem_created_def with_default_version_def mem_log_def
      mem_store_def DefaultAPIVersion_def cloneResource_def Let_def)

theorem memory_writes_keep_witness:
  "\<exists>r. mem_Get ''AgentVersion'' ''c'' ''a'' (mem_after (writes_v @ writes_v2)) = Inr r
    \<and> r_Spec r = Some ''{}'' \<and> r_Generation r = 1 \<and> r_UID r = ''u1'' \<and> 1 \<le> r_ResourceVersion r"
  using memory_writes_keep [OF _ _ mem_writes_v, of writes_v2]
  by (auto simp: IsImmutableKind_def ImmutableKinds_def ball_Un sample_defs)

section \<open>One write\<close>

text \<open>
  C15: a successful \<open>Apply\<close> over an existing mutable row of the PostgreSQL store keeps its UID
  and creation time, raises the generation by one exactly when the spec changed, gives a
  version past the store's watermark exactly when the spec, the labels or the annotations
  changed, and keeps the stored status; \<open>Get\<close> then returns what \<open>Apply\<close> returned.
\<close>

theorem postgres_apply_update:
  assumes "\<forall>w\<in>set ws. client_op w" "room 0 ws" "2 * int (length ws) + 2 \<le> max_int64"
    and "r_DeletedAt r = None" "\<not> IsImmutableKind (r_Kind r)"
    and "pg_Get eng (r_Kind r) (r_Colony r) (r_Name r) (pg_after eng ws) = Inr ex"
    and "pg_Apply eng e r v (pg_after eng ws) = (Inr out, s')"
  shows "r_UID out = r_UID ex \<and> r_CreatedAt out = r_CreatedAt ex \<and> r_Status out = r_Status ex
    \<and> r_Generation out = r_Generation ex + (if pg_same eng ex r then 0 else 1)
    \<and> (if pg_changed eng ex r then p_counter (pg_after eng ws) < r_ResourceVersion out
       else r_ResourceVersion out = r_ResourceVersion ex)
    \<and> pg_Get eng (r_Kind r) (r_Colony r) (r_Name r) s' = Inr out"
proof -
  let ?s = "pg_after eng ws"
  note i = pg_after_inv [OF assms(1,2), of eng]
  have rm: "p_counter ?s + 2 \<le> max_int64" using i(2) assms(3) by linarith
  have ex: "pg_live ?s (key_of r) = Some ex"
    using assms(6) pg_Get_live [OF i(1)] by (simp add: key_of_def)
  have a: "rs_Apply (pg_ResourceStore eng) e r v ?s = (Inr out, s')"
    using assms(7) by (simp add: pg_ResourceStore_def)
  have "pg_applyMutable eng e r v ?s = (Inr out, s')" using assms(5,7) by (simp add: pg_Apply_def)
  then have "r_Status out = r_Status ex"
    using ex by (cases rule: pg_applyMutable_cases) (auto simp: pg_live_def)
  moreover have "pg_Get eng (r_Kind r) (r_Colony r) (r_Name r) s' = Inr out"
    using pg.get_after_apply [OF i(1) assms(4) rm a] by (simp add: pg_ResourceStore_def)
  ultimately show ?thesis
    using pg.apply_update [OF i(1) rm ex assms(5) a] by simp
qed

lemma pg_apply_a2: "fst (pg_Apply plain_engine env_b agent_a2 None (pg_after plain_engine writes_1)) =
   Inr (agent_a2\<lparr>r_APIVersion := DefaultAPIVersion, r_UID := ''u1'', r_Generation := 2,
      r_ResourceVersion := 3, r_Status := Some ''{}'', r_CreatedAt := 7, r_UpdatedAt := 9\<rparr>)"
  unfolding pg_writes_1
  by (simp add: pg_Apply_def pg_applyMutable_def sample_defs insert_row_eq jsonbBytes_def
      blen_def bytes_of_def api_version_of_def pageTokenSep_def hived_next_resource_version_def
      DefaultAPIVersion_def key_of_def IsImmutableKind_def ImmutableKinds_def row_changed_def
      spec_distinct_def update_row_def Let_def)

theorem postgres_apply_update_witness:
  "\<exists>out s'. pg_Apply plain_engine env_b agent_a2 None (pg_after plain_engine writes_1) = (Inr out, s')
    \<and> r_UID out = ''u1'' \<and> r_Generation out = 2
    \<and> pg_Get plain_engine ''Agent'' ''c'' ''a'' s' = Inr out"
proof -
  obtain out s' where a: "pg_Apply plain_engine env_b agent_a2 None (pg_after plain_engine writes_1) = (Inr out, s')"
    using pg_apply_a2 by (metis eq_fst_iff)
  have g: "pg_Get plain_engine (r_Kind agent_a2) (r_Colony agent_a2) (r_Name agent_a2) (pg_after plain_engine writes_1) =
     Inr (agent_a\<lparr>r_APIVersion := DefaultAPIVersion, r_UID := ''u1'',
        r_Generation := 1, r_ResourceVersion := 1, r_Status := Some ''{}'', r_CreatedAt := 7, r_UpdatedAt := 7\<rparr>)"
    unfolding pg_Get_def pg_writes_1 by (simp add: sample_defs pageTokenSep_def)
  have "r_Generation out = 2" using a pg_apply_a2 by simp
  then show ?thesis
    using postgres_apply_update [OF _ _ _ _ _ g a] a
    by (auto simp: sample_defs IsImmutableKind_def ImmutableKinds_def) (auto simp: writes_1_def)
qed

section \<open>Optimistic concurrency\<close>

text \<open>
  C21: two clients of the in-memory store read the same version of a mutable resource and
  apply over it with that version; once the first has changed it, the second gets the
  conflict error and writes nothing.
\<close>

theorem memory_no_lost_update:
  assumes "\<forall>w\<in>set ws. client_op w" "room 0 ws" "2 * int (length ws) + 2 \<le> max_int64"
    and "key_of r1 = key_of r2" "\<not> IsImmutableKind (r_Kind r1)"
    and "mem_Get (r_Kind r1) (r_Colony r1) (r_Name r1) (mem_after ws) = Inr ex"
    and "mem_Apply e1 r1 (Some (r_ResourceVersion ex)) (mem_after ws) = (Inr out, m1)"
    and "res_changed ex r1"
  shows "\<exists>err. mem_Apply e2 r2 (Some (r_ResourceVersion ex)) m1 = (Inl err, m1) \<and> errors_Is err ErrConflict"
proof -
  let ?m = "mem_after ws"
  note i = mem_after_inv [OF assms(1,2)]
  have rm: "m_seq ?m + 2 \<le> max_int64" using i(2) assms(3) by linarith
  have ex: "mem_live ?m (key_of r1) = Some ex" using assms(6) mem_Get_live [OF i(1)] by (simp add: key_of_def)
  have a: "rs_Apply mem_ResourceStore e1 r1 (Some (r_ResourceVersion ex)) ?m = (Inr out, m1)"
    using assms(7) by (simp add: mem_ResourceStore_def)
  have "r_ResourceVersion ex < r_ResourceVersion out"
    using mem.apply_update [OF i(1) rm ex assms(5) a] mem.live_ok [OF i(1) ex] assms(8) by simp
  moreover have "map_of (m_resources m1) (key_of r2) = Some out"
    using mem.apply_live [OF i(1) a] assms(4) by (simp add: mem_live_def)
  moreover have "\<not> IsImmutableKind (r_Kind r2)" using assms(4,5) by (simp add: key_of_def)
  ultimately show ?thesis by (auto simp: mem_Apply_def key_of_def Let_def)
qed

lemma sample_specs_differ: "jsonEqual (Some ''{}'') (Some ''{\"d\":true}'') = False"
  by code_simp

lemma mem_apply_a2: "fst (mem_Apply env_b agent_a2 (Some 1) (mem_after writes_1)) =
   Inr (agent_a2\<lparr>r_APIVersion := DefaultAPIVersion, r_UID := ''u1'', r_Generation := 2,
      r_ResourceVersion := 2, r_CreatedAt := 7, r_UpdatedAt := 9\<rparr>)"
  unfolding mem_writes_1
  by (simp add: mem_Apply_def sample_defs mem_nextSeq_def mem_updated_def with_default_version_def
      DefaultAPIVersion_def IsImmutableKind_def ImmutableKinds_def res_changed_def sample_specs_differ Let_def)

lemma mem_get_a: "mem_Get ''Agent'' ''c'' ''a'' (mem_after writes_1) = Inr (agent_a
   \<lparr>r_APIVersion := DefaultAPIVersion, r_UID := ''u1'', r_Generation := 1, r_ResourceVersion := 1,
    r_CreatedAt := 7, r_UpdatedAt := 7\<rparr>)"
  unfolding mem_writes_1 mem_Get_def by (simp add: sample_defs)

theorem memory_no_lost_update_witness:
  "\<exists>out m1 err. mem_Apply env_b agent_a2 (Some 1) (mem_after writes_1) = (Inr out, m1)
    \<and> r_ResourceVersion out = 2
    \<and> mem_Apply env_a agent_a2 (Some 1) m1 = (Inl err, m1) \<and> errors_Is err ErrConflict"
proof -
  obtain out m1 where a: "mem_Apply env_b agent_a2 (Some 1) (mem_after writes_1) = (Inr out, m1)"
    using mem_apply_a2 by (metis eq_fst_iff)
  then have "r_ResourceVersion out = 2" using mem_apply_a2 by simp
  moreover have "\<exists>err. mem_Apply env_a agent_a2 (Some (r_ResourceVersion (agent_a
      \<lparr>r_APIVersion := DefaultAPIVersion, r_UID := ''u1'', r_Generation := 1, r_ResourceVersion := 1,
       r_CreatedAt := 7, r_UpdatedAt := 7\<rparr>))) m1 = (Inl err, m1) \<and> errors_Is err ErrConflict"
    using a mem_get_a
    by (intro memory_no_lost_update [of writes_1 agent_a2 agent_a2 _ env_b out m1])
      (auto simp: sample_defs IsImmutableKind_def ImmutableKinds_def res_changed_def sample_specs_differ, simp add: writes_1_def)
  ultimately show ?thesis using a by auto
qed

text \<open>
  C22: the same on PostgreSQL: after the first client's change, the second client's apply with
  the version both had read is an error, and every row is left as it was.
\<close>

theorem postgres_no_lost_update:
  assumes "\<forall>w\<in>set ws. client_op w" "room 0 ws" "2 * int (length ws) + 2 \<le> max_int64"
    and "key_of r1 = key_of r2" "\<not> IsImmutableKind (r_Kind r1)"
    and "pg_Get eng (r_Kind r1) (r_Colony r1) (r_Name r1) (pg_after eng ws) = Inr ex"
    and "pg_Apply eng e1 r1 (Some (r_ResourceVersion ex)) (pg_after eng ws) = (Inr out, s1)"
    and "pg_changed eng ex r1"
  shows "\<exists>err s2. pg_Apply eng e2 r2 (Some (r_ResourceVersion ex)) s1 = (Inl err, s2) \<and> p_rows s2 = p_rows s1"
proof -
  let ?s = "pg_after eng ws"
  note i = pg_after_inv [OF assms(1,2), of eng]
  have rm: "p_counter ?s + 2 \<le> max_int64" using i(2) assms(3) by linarith
  have ex: "pg_live ?s (key_of r1) = Some ex" using assms(6) pg_Get_live [OF i(1)] by (simp add: key_of_def)
  have a: "rs_Apply (pg_ResourceStore eng) e1 r1 (Some (r_ResourceVersion ex)) ?s = (Inr out, s1)"
    using assms(7) by (simp add: pg_ResourceStore_def)
  have lt: "r_ResourceVersion ex < r_ResourceVersion out"
    using pg.apply_update [OF i(1) rm ex assms(5) a] pg.live_ok [OF i(1) ex] assms(8) by simp
  have row: "map_of (p_rows s1) (key_of r2) = Some out"
    using pg.apply_live [OF i(1) a] assms(4) by (simp add: pg_live_def)
  have k: "\<not> IsImmutableKind (r_Kind r2)" using assms(4,5) by (simp add: key_of_def)
  obtain res s2 where b: "pg_Apply eng e2 r2 (Some (r_ResourceVersion ex)) s1 = (res, s2)" by fastforce
  then have "pg_applyMutable eng e2 r2 (Some (r_ResourceVersion ex)) s1 = (res, s2)"
    using k by (simp add: pg_Apply_def)
  then have "(\<exists>err. res = Inl err) \<and> p_rows s2 = p_rows s1"
    using row lt by (cases rule: pg_applyMutable_cases) auto
  with b show ?thesis by auto
qed

lemma pg_apply_a2_cas: "fst (pg_Apply plain_engine env_b agent_a2 (Some 1) (pg_after plain_engine writes_1)) =
   Inr (agent_a2\<lparr>r_APIVersion := DefaultAPIVersion, r_UID := ''u1'', r_Generation := 2,
      r_ResourceVersion := 3, r_Status := Some ''{}'', r_CreatedAt := 7, r_UpdatedAt := 9\<rparr>)"
  unfolding pg_writes_1
  by (simp add: pg_Apply_def pg_applyMutable_def sample_defs insert_row_eq jsonbBytes_def
      blen_def bytes_of_def api_version_of_def pageTokenSep_def hived_next_resource_version_def
      DefaultAPIVersion_def key_of_def IsImmutableKind_def ImmutableKinds_def row_changed_def
      spec_distinct_def update_row_def Let_def)

lemma pg_get_a: "pg_Get plain_engine ''Agent'' ''c'' ''a'' (pg_after plain_engine writes_1) = Inr (agent_a
   \<lparr>r_APIVersion := DefaultAPIVersion, r_UID := ''u1'', r_Generation := 1, r_ResourceVersion := 1,
    r_Status := Some ''{}'', r_CreatedAt := 7, r_UpdatedAt := 7\<rparr>)"
  unfolding pg_writes_1 pg_Get_def by (simp add: sample_defs pageTokenSep_def)

theorem postgres_no_lost_update_witness:
  "\<exists>out s1 err s2. pg_Apply plain_engine env_b agent_a2 (Some 1) (pg_after plain_engine writes_1) = (Inr out, s1)
    \<and> r_ResourceVersion out = 3
    \<and> pg_Apply plain_engine env_a agent_a2 (Some 1) s1 = (Inl err, s2) \<and> p_rows s2 = p_rows s1"
proof -
  obtain out s1 where a: "pg_Apply plain_engine env_b agent_a2 (Some 1) (pg_after plain_engine writes_1) = (Inr out, s1)"
    using pg_apply_a2_cas by (metis eq_fst_iff)
  then have "r_ResourceVersion out = 3" using pg_apply_a2_cas by simp
  moreover have "\<exists>err s2. pg_Apply plain_engine env_a agent_a2 (Some (r_ResourceVersion (agent_a
      \<lparr>r_APIVersion := DefaultAPIVersion, r_UID := ''u1'', r_Generation := 1, r_ResourceVersion := 1,
       r_Status := Some ''{}'', r_CreatedAt := 7, r_UpdatedAt := 7\<rparr>))) s1 = (Inl err, s2) \<and> p_rows s2 = p_rows s1"
    using a pg_get_a
    by (intro postgres_no_lost_update [of writes_1 agent_a2 agent_a2 _ _ env_b out s1])
      (auto simp: sample_defs IsImmutableKind_def ImmutableKinds_def pg_changed_def pg_same_def jsonbBytes_def
        blen_def bytes_of_def, simp add: writes_1_def)
  ultimately show ?thesis using a by auto
qed

section \<open>Applying the same again\<close>

text \<open>
  Re-applying the same mutable resource to the in-memory store changes nothing a watcher
  or a version check can see: the version, the generation, the store's counter and the
  change log stay as they were.
\<close>

theorem memory_reapply_unchanged:
  assumes "\<not> IsImmutableKind (r_Kind r)" "json_doc (r_Spec r)"
    and "mem_Apply e1 r v m = (Inr out, m1)"
  shows "\<exists>again m2. mem_Apply e2 r None m1 = (Inr again, m2)
    \<and> r_ResourceVersion again = r_ResourceVersion out \<and> r_Generation again = r_Generation out
    \<and> r_UpdatedAt again = r_UpdatedAt out \<and> r_UID again = r_UID out
    \<and> m_seq m2 = m_seq m1 \<and> m_log m2 = m_log m1"
proof -
  have out: "map_of (m_resources m1) (key_of r) = Some out"
    using mem_Apply_live [OF assms(3)] by (simp add: mem_live_def)
  have f: "r_Spec out = r_Spec r" "r_Labels out = r_Labels r" "r_Annotations out = r_Annotations r"
    using assms(3,1) by (cases rule: mem_Apply_cases; simp)+
  then have "\<not> res_changed out r" using assms(2) by (simp add: res_changed_def)
  moreover have "jsonEqual (r_Spec out) (r_Spec r)" using f(1) assms(2) by simp
  ultimately show ?thesis
    using out assms(1) by (auto simp: mem_Apply_def key_of_def mem_store_def Let_def)
qed

theorem memory_reapply_unchanged_witness:
  "\<exists>out m1 again m2. mem_Apply env_b agent_a2 (Some 1) (mem_after writes_1) = (Inr out, m1)
    \<and> mem_Apply env_a agent_a2 None m1 = (Inr again, m2)
    \<and> r_ResourceVersion again = r_ResourceVersion out \<and> m_seq m2 = m_seq m1 \<and> m_log m2 = m_log m1"
proof -
  obtain out m1 where a: "mem_Apply env_b agent_a2 (Some 1) (mem_after writes_1) = (Inr out, m1)"
    using mem_apply_a2 by (metis eq_fst_iff)
  have "json_doc (r_Spec agent_a2)" by code_simp
  moreover have "\<not> IsImmutableKind (r_Kind agent_a2)" by code_simp
  ultimately show ?thesis using memory_reapply_unchanged [OF _ _ a, of env_a] a by blast
qed

text \<open>
  On PostgreSQL, whose \<open>jsonb\<close> equality is reflexive, re-applying the same mutable
  resource returns the same version, generation and update time, and leaves every row's
  version as it was (only the version counter moves on).
\<close>

theorem postgres_reapply_unchanged:
  assumes "pg_inv eng s" "\<not> IsImmutableKind (r_Kind r)" "\<And>x. pe_jsonb_eq eng x x"
    and "pg_Apply eng e1 r v s = (Inr out, s1)" "p_counter s1 < max_int64"
  shows "\<exists>again s2. pg_Apply eng e2 r None s1 = (Inr again, s2)
    \<and> r_ResourceVersion again = r_ResourceVersion out \<and> r_Generation again = r_Generation out
    \<and> r_UpdatedAt again = r_UpdatedAt out \<and> r_UID again = r_UID out
    \<and> (\<forall>k. map_option r_ResourceVersion (pg_live s2 k) = map_option r_ResourceVersion (pg_live s1 k))
    \<and> p_counter s2 = p_counter s1 + 1"
proof -
  have a: "pg_applyMutable eng e1 r v s = (Inr out, s1)" using assms(2,4) by (simp add: pg_Apply_def)
  have out: "map_of (p_rows s1) (key_of r) = Some out"
    using pg_Apply_live [OF assms(1,4)] by (simp add: pg_live_def)
  obtain ins where ins: "insert_row eng e1 r (jsonbBytes (r_Status r)) = Some ins"
    "r_Spec out = r_Spec ins" "r_Labels out = r_Labels ins" "r_Annotations out = r_Annotations ins"
    "r_DeletedAt out = None"
    using a by (cases rule: pg_applyMutable_cases) (auto dest: insert_row_fields(3))
  define ins2 where "ins2 = ins\<lparr>r_UID := env_uid e2, r_CreatedAt := pe_time eng (env_now e2),
      r_UpdatedAt := pe_time eng (env_now e2)\<rparr>"
  have ins2: "insert_row eng e2 r (jsonbBytes (r_Status r)) = Some ins2"
    using ins(1) by (auto simp: insert_row_eq ins2_def split: if_splits option.splits)
  have "\<not> row_changed eng out ins2"
    using ins assms(3) by (simp add: row_changed_def spec_distinct_def ins2_def)
  moreover from this have "\<not> spec_distinct eng out ins2" by (simp add: row_changed_def)
  ultimately show ?thesis
    using ins2 ins(5) out assms(2,5)
    by (auto simp: pg_Apply_def pg_applyMutable_def pg_live_def update_row_def Let_def)
qed

theorem postgres_reapply_unchanged_witness:
  "\<exists>out s1 again s2. pg_Apply plain_engine env_b agent_a2 None (pg_after plain_engine writes_1) = (Inr out, s1)
    \<and> pg_Apply plain_engine env_a agent_a2 None s1 = (Inr again, s2)
    \<and> r_ResourceVersion again = 3 \<and> p_counter s2 = p_counter s1 + 1"
proof -
  obtain out s1 where a: "pg_Apply plain_engine env_b agent_a2 None (pg_after plain_engine writes_1) = (Inr out, s1)"
    using pg_apply_a2 by (metis eq_fst_iff)
  have i: "pg_inv plain_engine (pg_after plain_engine writes_1)" by (rule pg_after_inv) simp_all
  have k: "\<not> IsImmutableKind (r_Kind agent_a2)" by code_simp
  have "p_counter s1 \<le> p_counter (pg_after plain_engine writes_1) + 2"
    using pg_Apply_inv [OF i a] by simp
  then have "p_counter s1 < max_int64" by (simp add: pg_writes_1)
  with postgres_reapply_unchanged [OF i k _ a, of env_a] a pg_apply_a2 show ?thesis
    by (auto simp: plain_engine_def)
qed

section \<open>Paging\<close>

text \<open>
  C11: a client that follows \<open>NextPageToken\<close> from the empty token over an unchanging
  PostgreSQL store gets every selected resource exactly once, in the order of the
  collation, whatever the page size it asks for.
\<close>

theorem postgres_paging_complete:
  assumes "pg_pageable eng (s, kind, opts)" "length (p_rows s) < n"
  shows "follow_pages (\<lambda>t. pg_List eng kind (opts\<lparr>lo_PageToken := t\<rparr>) s) n '''' = Some (pg_items eng (s, kind, opts))
    \<and> set (pg_items eng (s, kind, opts)) =
        {r \<in> snd ` set (p_rows s). pg_selects kind (lo_Colony opts) (pg_selector eng opts) r}
    \<and> distinct (pg_items eng (s, kind, opts))
    \<and> sorted (map (pg_key eng \<circ> list_key) (pg_items eng (s, kind, opts)))"
proof -
  have "length (pg_items eng (s, kind, opts)) \<le> length (p_rows s)"
    using length_filter_le [of _ "map snd (p_rows s)"] by (simp add: pg_items_def)
  moreover have "pg_page eng (s, kind, opts) = (\<lambda>t. pg_List eng kind (opts\<lparr>lo_PageToken := t\<rparr>) s)"
    by (simp add: pg_page_def fun_eq_iff)
  ultimately have "follow_pages (\<lambda>t. pg_List eng kind (opts\<lparr>lo_PageToken := t\<rparr>) s) n '''' = Some (pg_items eng (s, kind, opts))"
    using pg_pager.follow_all [OF assms(1), of n] assms(2) by simp
  moreover have "sorted_wrt (<) (map (pg_key eng \<circ> list_key) (pg_items eng (s, kind, opts)))"
    by (rule pg_pager.sorted_items [OF assms(1)])
  ultimately show ?thesis
    by (auto simp: strict_sorted_iff distinct_map pg_items_def)
qed

definition two_agents :: "store_op list" where
  "two_agents = [OpApply env_a agent_b None, OpApply env_b agent_a None]"

lemma two_agents_ok: "\<forall>w\<in>set two_agents. client_op w" "room 0 two_agents"
  by (simp_all add: two_agents_def room_def sample_defs)

definition one_per_page :: list_options where
  "one_per_page = empty_list_options\<lparr>lo_PageSize := 1\<rparr>"

lemma one_per_page_simps [simp]: "lo_Colony one_per_page = ''''" "lo_LabelSelector one_per_page = fmempty"
  "lo_PageSize one_per_page = 1" "lo_PageToken one_per_page = ''''"
  by (simp_all add: one_per_page_def empty_list_options_def)

lemma pg_two_agents: "map fst (p_rows (pg_after plain_engine two_agents)) = [(''Agent'', ''c'', ''b''), (''Agent'', ''c'', ''a'')]"
  by (simp add: pg_after_def two_agents_def op_step_def pg_ResourceStore_def pg_Apply_def pg_applyMutable_def
      sample_defs init_postgres_def insert_row_eq jsonbBytes_def blen_def bytes_of_def
      api_version_of_def pageTokenSep_def hived_next_resource_version_def DefaultAPIVersion_def key_of_def
      IsImmutableKind_def ImmutableKinds_def Let_def)

lemma plain_pageable: "pg_inv plain_engine s \<Longrightarrow> pg_pageable plain_engine (s, ''Agent'', one_per_page)"
  by (simp add: pg_pageable_def) (simp add: plain_engine_def pageTokenSep_def)

theorem postgres_paging_complete_witness:
  "follow_pages (\<lambda>t. pg_List plain_engine ''Agent'' (one_per_page\<lparr>lo_PageToken := t\<rparr>) (pg_after plain_engine two_agents)) 3 ''''
     = Some (pg_items plain_engine (pg_after plain_engine two_agents, ''Agent'', one_per_page))"
proof -
  have l: "length (p_rows (pg_after plain_engine two_agents)) < 3"
    using arg_cong [OF pg_two_agents, of length] by simp
  note plain_pageable [OF pg_after_inv(1) [OF two_agents_ok]]
  from postgres_paging_complete [OF this l] show ?thesis by simp
qed

text \<open>
  C13: the same of the in-memory store, in the bytewise order of colony and name, as long as no
  colony stored holds a NUL: every selected resource exactly once. (Its token joins colony and
  name by a NUL, and nothing keeps one out of a colony there; \<open>nul_colony_never_ends\<close> below.)
  The result must also fit the \<open>int32\<close> its length is converted to.
\<close>

theorem memory_paging_complete:
  assumes "mem_pageable (m, kind, opts)" "length (m_resources m) < n"
  shows "follow_pages (\<lambda>t. mem_List kind (opts\<lparr>lo_PageToken := t\<rparr>) m) n '''' = Some (mem_items (m, kind, opts))
    \<and> set (mem_items (m, kind, opts)) = {r \<in> snd ` set (m_resources m). mem_selects kind opts r}
    \<and> distinct (mem_items (m, kind, opts)) \<and> sorted (map list_key (mem_items (m, kind, opts)))"
proof -
  have "mem_page (m, kind, opts) = (\<lambda>t. mem_List kind (opts\<lparr>lo_PageToken := t\<rparr>) m)"
    by (simp add: mem_page_def fun_eq_iff)
  then have "follow_pages (\<lambda>t. mem_List kind (opts\<lparr>lo_PageToken := t\<rparr>) m) n '''' = Some (mem_items (m, kind, opts))"
    using mem_pager.follow_all [OF assms(1), of n] assms(2) length_mem_items [of m kind opts] by simp
  moreover have "sorted_wrt (<) (map list_key (mem_items (m, kind, opts)))"
    by (rule mem_pager.sorted_items [OF assms(1)])
  ultimately show ?thesis
    by (auto simp: strict_sorted_iff distinct_map mem_items_def)
qed

lemma mem_two_agents: "map fst (m_resources (mem_after two_agents)) = [(''Agent'', ''c'', ''b''), (''Agent'', ''c'', ''a'')]"
  "map (r_Colony \<circ> snd) (m_resources (mem_after two_agents)) = [''c'', ''c'']"
  by (simp_all add: mem_after_def two_agents_def op_step_def mem_ResourceStore_def mem_Apply_def sample_defs
      NewMemoryStore_def mem_nextSeq_def mem_created_def with_default_version_def mem_log_def mem_store_def Let_def)

lemma mem_two_agents_pageable: "mem_pageable (mem_after two_agents, ''Agent'', one_per_page)"
proof -
  let ?m = "mem_after two_agents"
  have l: "length (m_resources ?m) = 2" using arg_cong [OF mem_two_agents(1), of length] by simp
  have c: "r_Colony r = ''c''" if "r \<in> snd ` set (m_resources ?m)" for r
    using arg_cong [OF mem_two_agents(2), of set] that by auto
  have "pageTokenSep \<notin> set (r_Colony r)" if "r \<in> snd ` set (m_resources ?m)" for r
    unfolding c [OF that] by (simp add: pageTokenSep_def)
  moreover have "length (m_resources ?m) < 2147483648" unfolding l by simp
  ultimately show "mem_pageable (?m, ''Agent'', one_per_page)"
    unfolding mem_pageable_def using mem_after_inv(1) [OF two_agents_ok] by blast
qed

theorem memory_paging_complete_witness:
  "follow_pages (\<lambda>t. mem_List ''Agent'' (one_per_page\<lparr>lo_PageToken := t\<rparr>) (mem_after two_agents)) 3 ''''
     = Some (mem_items (mem_after two_agents, ''Agent'', one_per_page))"
  using memory_paging_complete [OF mem_two_agents_pageable, THEN conjunct1, of 3]
    arg_cong [OF mem_two_agents(1), of length] by simp

text \<open>
  Without that condition a client never gets to the end of a list: over two agents of a colony
  whose name holds a NUL, a page size of one answers the first agent for ever, since the token
  made from it is read back as one of the colony before the NUL.
\<close>

definition nul_colony :: string where
  "nul_colony = [CHR ''a'', pageTokenSep, CHR ''b'']"

definition nul_agents :: "store_op list" where
  "nul_agents = [OpApply env_a (agent_a\<lparr>r_Colony := nul_colony\<rparr>) None, OpApply env_b (agent_b\<lparr>r_Colony := nul_colony\<rparr>) None]"

abbreviation nul_page :: "string \<Rightarrow> go_error + list_result" where
  "nul_page t \<equiv> mem_List ''Agent'' (one_per_page\<lparr>lo_PageToken := t\<rparr>) (mem_after nul_agents)"

lemma nul_pages:
  "\<exists>p. nul_page '''' = Inr p \<and> nul_page (encodePageToken nul_colony ''a'') = Inr p
    \<and> lr_NextPageToken p = encodePageToken nul_colony ''a''"
proof -
  have m: "map snd (m_resources (mem_after nul_agents)) =
      [agent_a\<lparr>r_Colony := nul_colony, r_APIVersion := DefaultAPIVersion, r_UID := ''u1'', r_Generation := 1, r_ResourceVersion := 1, r_CreatedAt := 7, r_UpdatedAt := 7\<rparr>,
       agent_b\<lparr>r_Colony := nul_colony, r_APIVersion := DefaultAPIVersion, r_UID := ''u2'', r_Generation := 1, r_ResourceVersion := 2, r_CreatedAt := 9, r_UpdatedAt := 9\<rparr>]"
   by (simp add: mem_after_def nul_agents_def op_step_def mem_ResourceStore_def mem_Apply_def sample_defs
      NewMemoryStore_def mem_nextSeq_def mem_created_def with_default_version_def mem_log_def mem_store_def
      DefaultAPIVersion_def cloneResource_def Let_def)
  have t: "decodePageToken (encodePageToken nul_colony ''a'') = Inr (''a'', [CHR ''b'', pageTokenSep, CHR ''a''])"
    "encodePageToken nul_colony ''a'' \<noteq> ''''" by (code_simp, simp)
  have order: "\<not> nul_colony < ''a''" "nul_colony \<noteq> ''a''" "(nul_colony, ''a'') < (nul_colony, ''b'')"
    by (simp_all add: nul_colony_def less_char_def)
  have "map (cloneResource \<circ> snd) (m_resources (mem_after nul_agents)) = map snd (m_resources (mem_after nul_agents))"
    by (simp add: cloneResource_def)
  then have items: "sort_key list_key (filter (mem_selects ''Agent'' one_per_page) (map (cloneResource \<circ> snd) (m_resources (mem_after nul_agents))))
      = map snd (m_resources (mem_after nul_agents))"
    using order(3) unfolding m
    by (simp add: mem_selects_def matchesLabels_def sample_defs list_key_def)
  show ?thesis
    using order
    by (simp add: mem_List_def items t) (simp add: m cut_page_def clampPageSize_def MaxPageSize_def sample_defs Let_def)
qed

theorem nul_colony_never_ends: "follow_pages nul_page n '''' = None"
proof -
  obtain p where p: "nul_page '''' = Inr p" "nul_page (encodePageToken nul_colony ''a'') = Inr p"
    "lr_NextPageToken p = encodePageToken nul_colony ''a''" using nul_pages by blast
  have "follow_pages nul_page k (encodePageToken nul_colony ''a'') = None" for k
    using p(2,3) by (induction k) simp_all
  then show ?thesis using p(1,3) by (cases n) simp_all
qed

text \<open>
  The iteration order of the Go map, which the language leaves open, never shows: two
  in-memory stores with the same entries in any order list exactly the same.
\<close>

theorem memory_list_order_free:
  assumes "mem_inv m" "mem_inv (m\<lparr>m_resources := rs\<rparr>)" "set rs = set (m_resources m)"
  shows "mem_List kind opts (m\<lparr>m_resources := rs\<rparr>) = mem_List kind opts m"
  using mem_List_order [OF assms(2,1)] assms(3) by simp

lemma mem_inv_reordered:
  assumes "mem_inv m" "distinct (map fst rs)" "map_of rs = map_of (m_resources m)"
  shows "mem_inv (m\<lparr>m_resources := rs\<rparr>)"
proof -
  have f: "m_resources (m\<lparr>m_resources := rs\<rparr>) = rs" "m_log (m\<lparr>m_resources := rs\<rparr>) = m_log m"
    "m_seq (m\<lparr>m_resources := rs\<rparr>) = m_seq m" by simp_all
  show ?thesis
    using assms(1,2) unfolding mem_inv_def mem_log_ok_def f assms(3) by blast
qed

theorem memory_list_order_free_witness:
  "mem_List ''Agent'' one_per_page ((mem_after two_agents)\<lparr>m_resources := rev (m_resources (mem_after two_agents))\<rparr>)
     = mem_List ''Agent'' one_per_page (mem_after two_agents)"
proof -
  let ?m = "mem_after two_agents"
  have i: "mem_inv ?m" by (rule mem_after_inv(1) [OF two_agents_ok])
  have d: "distinct (map fst (m_resources ?m))" using i by (simp add: mem_inv_def)
  then have "map_of (rev (m_resources ?m)) = map_of (m_resources ?m)"
    by (intro map_of_inject_set [THEN iffD2]) (simp_all flip: rev_map)
  then have "mem_inv (?m\<lparr>m_resources := rev (m_resources ?m)\<rparr>)"
    using d by (intro mem_inv_reordered [OF i]) (simp_all flip: rev_map)
  from memory_list_order_free [OF i this, of "''Agent''" one_per_page] show ?thesis by simp
qed

text \<open>
  C40: a page token gives back the colony and the name it was made from, unless the colony
  holds the separator byte; it is never empty, so it is never taken for the first page.
\<close>

theorem page_token_roundtrip:
  assumes "pageTokenSep \<notin> set colony"
  shows "decodePageToken (encodePageToken colony name) = Inr (colony, name)
    \<and> encodePageToken colony name \<noteq> ''''"
  using decode_encodePageToken [OF assms] by simp

theorem page_token_roundtrip_witness:
  "decodePageToken (encodePageToken ''prod'' ''agent-7'') = Inr (''prod'', ''agent-7'')
    \<and> encodePageToken ''prod'' ''agent-7'' \<noteq> ''''"
  by (rule page_token_roundtrip) (simp add: pageTokenSep_def)

text \<open>
  A token the decoder rejects makes \<open>List\<close> of both stores fail with the page-token
  error, whatever the store holds, and a decoded token is the empty one or has the separator.
\<close>

theorem bad_token_rejected:
  assumes "decodePageToken (lo_PageToken opts) = Inl err"
  shows "mem_List kind opts m = Inl err \<and> pg_List eng kind opts s = Inl err
    \<and> errors_Is err ErrInvalidPageToken \<and> lo_PageToken opts \<noteq> ''''"
  using assms decodePageToken_error [OF assms]
  by (auto simp: mem_List_def pg_List_def pg_List2_def decodePageToken_def Let_def)

lemma bad_token: "decodePageToken ''!'' = Inl (wrap_err ErrInvalidPageToken ''page token is not valid base64'')"
  by code_simp

theorem bad_token_rejected_witness:
  "mem_List ''Agent'' (one_per_page\<lparr>lo_PageToken := ''!''\<rparr>) NewMemoryStore
     = Inl (wrap_err ErrInvalidPageToken ''page token is not valid base64'')"
  using bad_token_rejected [of "one_per_page\<lparr>lo_PageToken := ''!''\<rparr>", simplified, OF bad_token] by simp

text \<open>
  The two stores read a label selector alike as long as it asks for no empty value; with
  an empty value the in-memory store also selects what lacks the label, PostgreSQL does not.
\<close>

theorem label_selectors_agree:
  assumes "\<And>k. fmlookup sel k \<noteq> Some ''''"
  shows "matchesLabels labels sel = pg_contains labels sel"
  by (rule matches_pg_contains) (rule assms)

theorem label_selectors_agree_witness:
  "matchesLabels (fmap_of_list [(''tier'', ''prod'')]) (fmap_of_list [(''tier'', ''prod'')])
     = pg_contains (fmap_of_list [(''tier'', ''prod'')]) (fmap_of_list [(''tier'', ''prod'')])"
  by (rule label_selectors_agree) (simp add: fmlookup_of_list)

text \<open>
  With an empty label value the stores do differ: the in-memory store selects a
  resource without the label, PostgreSQL does not.
\<close>

theorem empty_label_differs:
  "matchesLabels fmempty (fmupd k '''' fmempty) \<and> \<not> pg_contains fmempty (fmupd k '''' fmempty)"
  by (auto simp: matchesLabels_def pg_contains_def fmpred_iff map_index_def)

end
