(* ===== verification/PagingWrites.thy ===== *)
theory PagingWrites
  imports StoreProps
begin

text \<open>
  Paging while others write: each page is read from the store as it is then. The contract of
  theory \<open>Pagination\<close> is extended by what a token of one state means in another, and both
  stores interpret the extension.
\<close>

section \<open>One state for each page\<close>

text \<open>
  As \<open>follow_pages\<close>, with the state each page is read from; \<^const>\<open>None\<close> when a page fails or the
  states run out before the last page.
\<close>

fun follow_over :: "('q \<Rightarrow> string \<Rightarrow> go_error + list_result) \<Rightarrow> 'q list \<Rightarrow> string \<Rightarrow> resource list option" where
  "follow_over page [] token = None"
| "follow_over page (q # qs) token =
     (case page q token of
        Inl _ \<Rightarrow> None
      | Inr p \<Rightarrow>
          if lr_NextPageToken p = '''' then Some (lr_Items p)
          else map_option ((@) (lr_Items p)) (follow_over page qs (lr_NextPageToken p)))"

fun beyond :: "'k::linorder option \<Rightarrow> 'k \<Rightarrow> bool" where
  "beyond None k = True"
| "beyond (Some b) k = (b < k)"

locale moving_pager = pager ok items "\<lambda>_. rank" size_of page
  for ok :: "'q \<Rightarrow> bool" and items :: "'q \<Rightarrow> resource list" and rank :: "resource \<Rightarrow> 'k::linorder"
    and size_of :: "'q \<Rightarrow> nat" and page :: "'q \<Rightarrow> string \<Rightarrow> go_error + list_result" +
  fixes same_query :: "'q \<Rightarrow> 'q \<Rightarrow> bool"
  assumes token_moves: "ok q \<Longrightarrow> ok q' \<Longrightarrow> same_query q q' \<Longrightarrow> r \<in> set (items q) \<Longrightarrow>
      is_page (page q' (encodePageToken (r_Colony r) (r_Name r)))
        (page_of (size_of q') (filter (\<lambda>x. rank r < rank x) (items q')))"
begin

definition rest :: "'k option \<Rightarrow> 'q \<Rightarrow> resource list" where
  "rest b q = filter (\<lambda>x. beyond b (rank x)) (items q)"

lemma in_rest [simp]: "x \<in> set (rest b q) \<longleftrightarrow> x \<in> set (items q) \<and> beyond b (rank x)"
  by (auto simp: rest_def)

lemma rest_sorted: "ok q \<Longrightarrow> sorted_wrt (<) (map rank (rest b q))"
  using sorted_items [of q] by (auto simp: rest_def sorted_wrt_map intro: sorted_wrt_filter)

text \<open>The last page, or a full page of the smallest and a token behind its last item.\<close>

lemma page_cases:
  assumes "ok q" "is_page (page q t) (page_of (size_of q) (rest b q))"
  obtains p where "page q t = Inr p" "lr_NextPageToken p = ''''" "lr_Items p = rest b q"
  | p r where "page q t = Inr p" "r \<in> set (items q)" "beyond b (rank r)"
    "lr_NextPageToken p = encodePageToken (r_Colony r) (r_Name r)"
    "r \<in> set (lr_Items p)" "set (lr_Items p) \<subseteq> set (rest b q)" "sorted_wrt (<) (map rank (lr_Items p))"
    "\<forall>x\<in>set (lr_Items p). rank x \<le> rank r" "\<forall>x\<in>set (rest b q). rank x \<le> rank r \<longrightarrow> x \<in> set (lr_Items p)"
proof -
  let ?xs = "rest b q" and ?k = "size_of q"
  obtain v where p: "page q t = Inr \<lparr>lr_Items = fst (page_of ?k ?xs), lr_NextPageToken = snd (page_of ?k ?xs),
      lr_ResourceVersion = v\<rparr>"
    using assms(2) by (auto simp: is_page_def)
  show thesis
  proof (cases "?k < length ?xs")
    case False
    then show thesis by (intro that(1) [OF p]) (simp_all add: page_of_def)
  next
    case True
    let ?r = "?xs ! (?k - 1)"
    have k: "0 < ?k" using size_pos [OF assms(1)] .
    have split: "?xs = take ?k ?xs @ drop ?k ?xs" by simp
    have r: "?r \<in> set (take ?k ?xs)" using k True by (auto simp: in_set_conv_nth intro!: exI [of _ "?k - 1"])
    have sorted: "sorted_wrt (<) (map rank (take ?k ?xs @ drop ?k ?xs))" using rest_sorted [OF assms(1)] by simp
    then have s: "sorted_wrt (<) (map rank (take ?k ?xs))" and lt: "\<forall>x\<in>set (take ?k ?xs). \<forall>y\<in>set (drop ?k ?xs). rank x < rank y"
      by (auto simp: sorted_wrt_append simp del: append_take_drop_id)
    have "take ?k ?xs = take (?k - 1) ?xs @ [?r]"
      using take_Suc_conv_app_nth [of "?k - 1" ?xs] k True by simp
    with s have le: "\<forall>x\<in>set (take ?k ?xs). rank x \<le> rank ?r"
      by (auto simp: sorted_wrt_append intro: less_imp_le)
    have upto: "x \<in> set (take ?k ?xs)" if "x \<in> set ?xs" "rank x \<le> rank ?r" for x
      using that r lt split by (metis UnE leD set_append)
    show thesis
      using True r s le upto set_take_subset [of ?k ?xs]
      by (intro that(2) [OF p, of ?r]) (auto simp: page_of_def rest_def dest: in_set_takeD)
  qed
qed

lemma follow_over_step:
  assumes "\<forall>q\<in>set (q # qs). ok q" "sorted_wrt same_query (q # qs)"
    and "is_page (page q t) (page_of (size_of q) (rest b q))" "follow_over page (q # qs) t = Some out"
  shows "sorted_wrt (<) (map rank out) \<and> (\<forall>x\<in>set out. beyond b (rank x) \<and> (\<exists>q'\<in>set (q # qs). x \<in> set (items q')))
    \<and> (\<forall>k. beyond b k \<and> (\<forall>q'\<in>set (q # qs). \<exists>x\<in>set (items q'). rank x = k) \<longrightarrow> (\<exists>x\<in>set out. rank x = k))"
  using assms
proof (induction qs arbitrary: q t b out)
  case Nil
  from Nil.prems(1) have "ok q" by simp
  from this Nil.prems(3) show ?case
  proof (cases rule: page_cases)
    case (1 p)
    then have "out = rest b q" using Nil.prems(4) by simp
    then show ?thesis using rest_sorted [OF \<open>ok q\<close>, of b] by auto
  next
    case (2 p r)
    then show ?thesis using Nil.prems(4) by simp
  qed
next
  case (Cons q' qs)
  have q: "ok q" "ok q'" "same_query q q'" using Cons.prems by auto
  from q(1) Cons.prems(3) show ?case
  proof (cases rule: page_cases)
    case (1 p)
    then have "out = rest b q" using Cons.prems(4) by simp
    then show ?thesis using rest_sorted [OF q(1), of b] by auto
  next
    case (2 p r)
    let ?t = "encodePageToken (r_Colony r) (r_Name r)"
    obtain out' where out: "follow_over page (q' # qs) ?t = Some out'" "out = lr_Items p @ out'"
      using Cons.prems(4) 2 by (auto split: sum.splits if_splits)
    have "is_page (page q' ?t) (page_of (size_of q') (rest (Some (rank r)) q'))"
      using token_moves [OF q 2(2)] by (simp add: rest_def)
    from Cons.IH [OF _ _ this out(1)] Cons.prems(1,2)
    have IH: "sorted_wrt (<) (map rank out')"
      "\<forall>x\<in>set out'. rank r < rank x \<and> (\<exists>q''\<in>set (q' # qs). x \<in> set (items q''))"
      "\<And>k. rank r < k \<Longrightarrow> \<forall>q''\<in>set (q' # qs). \<exists>x\<in>set (items q''). rank x = k \<Longrightarrow> \<exists>x\<in>set out'. rank x = k"
      by simp_all
    have up: "beyond b k" if "rank r < k" for k
      using 2(3) that by (cases b) auto
    have "sorted_wrt (<) (map rank out)"
      using 2(7,8) IH(1,2) unfolding out(2) by (fastforce simp: sorted_wrt_append)
    moreover have "\<forall>x\<in>set out. beyond b (rank x) \<and> (\<exists>q''\<in>set (q # q' # qs). x \<in> set (items q''))"
      using 2(6) IH(2) up unfolding out(2) by auto
    moreover have "\<exists>x\<in>set out. rank x = k"
      if k: "beyond b k" "\<forall>q''\<in>set (q # q' # qs). \<exists>x\<in>set (items q''). rank x = k" for k
    proof (cases "rank r < k")
      case True
      with IH(3) k(2) show ?thesis unfolding out(2) by auto
    next
      case False
      obtain x where "x \<in> set (items q)" "rank x = k" using k(2) by auto
      with False k(1) 2(9) show ?thesis unfolding out(2) by auto
    qed
    ultimately show ?thesis by blast
  qed
qed

text \<open>With more states than there are ranks left, the last page is reached.\<close>

lemma follow_over_ends:
  assumes "\<forall>q\<in>set (q # qs). ok q" "sorted_wrt same_query (q # qs)"
    and "is_page (page q t) (page_of (size_of q) (rest b q))"
    and "finite K" "\<forall>q'\<in>set (q # qs). rank ` set (items q') \<subseteq> K" "card {k \<in> K. beyond b k} \<le> length qs"
  shows "\<exists>out. follow_over page (q # qs) t = Some out"
  using assms
proof (induction qs arbitrary: q t b)
  case Nil
  then have q: "ok q" and K: "{k \<in> K. beyond b k} = {}" by auto
  from q Nil.prems(3) show ?case
  proof (cases rule: page_cases)
    case (2 p r)
    with K Nil.prems(5) show ?thesis by auto
  qed simp
next
  case (Cons q' qs)
  have q: "ok q" "ok q'" "same_query q q'" using Cons.prems by auto
  from q(1) Cons.prems(3) show ?case
  proof (cases rule: page_cases)
    case (2 p r)
    let ?t = "encodePageToken (r_Colony r) (r_Name r)"
    have next_page: "is_page (page q' ?t) (page_of (size_of q') (rest (Some (rank r)) q'))"
      using token_moves [OF q 2(2)] by (simp add: rest_def)
    have "beyond b k" if "rank r < k" for k using 2(3) that by (cases b) auto
    moreover have "rank r \<in> K" using 2(2) Cons.prems(5) by auto
    ultimately have "{k \<in> K. beyond (Some (rank r)) k} \<subset> {k \<in> K. beyond b k}" using 2(3) by auto
    then have "card {k \<in> K. beyond (Some (rank r)) k} < card {k \<in> K. beyond b k}"
      using Cons.prems(4) by (intro psubset_card_mono) auto
    then have "\<exists>out. follow_over page (q' # qs) ?t = Some out"
      using Cons.prems by (intro Cons.IH [OF _ _ next_page]) auto
    with 2 show ?thesis by auto
  qed simp
qed

text \<open>What the client holds that has reached the last page.\<close>

lemma follow_over_out:
  assumes "\<forall>q\<in>set qs. ok q" "sorted_wrt same_query qs" "follow_over page qs '''' = Some out"
  shows "sorted_wrt (<) (map rank out) \<and> (\<forall>x\<in>set out. \<exists>q\<in>set qs. x \<in> set (items q))
    \<and> (\<forall>k. (\<forall>q\<in>set qs. k \<in> rank ` set (items q)) \<longrightarrow> k \<in> rank ` set out)"
proof (cases qs)
  case Nil
  with assms(3) show ?thesis by simp
next
  case (Cons q qs')
  have "rest None q = items q" by (simp add: rest_def)
  then have p: "is_page (page q '''') (page_of (size_of q) (rest None q))"
    using first_page [of q] assms(1) Cons by simp
  from follow_over_step [OF _ _ p, of qs' out] assms Cons show ?thesis
    by (auto simp: image_iff eq_commute [of _ "rank _"])
qed

lemma follow_over_complete:
  assumes "\<forall>q\<in>set qs. ok q" "sorted_wrt same_query qs" "card (\<Union>q\<in>set qs. rank ` set (items q)) < length qs"
  shows "\<exists>out. follow_over page qs '''' = Some out \<and> sorted_wrt (<) (map rank out)
    \<and> (\<forall>x\<in>set out. \<exists>q\<in>set qs. x \<in> set (items q))
    \<and> (\<forall>k. (\<forall>q\<in>set qs. k \<in> rank ` set (items q)) \<longrightarrow> k \<in> rank ` set out)"
proof (cases qs)
  case Nil
  with assms(3) show ?thesis by simp
next
  case (Cons q qs')
  have "rest None q = items q" by (simp add: rest_def)
  then have p: "is_page (page q '''') (page_of (size_of q) (rest None q))"
    using first_page [of q] assms(1) Cons by simp
  let ?K = "\<Union>q\<in>set qs. rank ` set (items q)"
  have "{k \<in> ?K. beyond None k} = ?K" by auto
  then have "card {k \<in> ?K. beyond None k} \<le> length qs'" using assms(3) Cons by (simp only: list.size)
  then have "\<exists>out. follow_over page (q # qs') '''' = Some out"
    using assms(1,2) Cons by (intro follow_over_ends [OF _ _ p, of qs' ?K]) auto
  then show ?thesis using follow_over_out [OF assms(1,2)] Cons by blast
qed

end

section \<open>The stores\<close>

definition same_list :: "'s list_query \<Rightarrow> 's list_query \<Rightarrow> bool" where
  "same_list q q' \<longleftrightarrow> snd q = snd q'"

interpretation mem_moving: moving_pager mem_pageable mem_items list_key page_size mem_page same_list
proof (unfold_locales, goal_cases)
  case (1 q q' r)
  obtain m kind opts where q: "q = (m, kind, opts)" by (cases q)
  obtain m' where q': "q' = (m', kind, opts)" using 1(3) q by (cases q') (simp add: same_list_def)
  have "pageTokenSep \<notin> set (r_Colony r)"
    using 1(1,4) q by (auto simp: mem_pageable_def mem_items_def)
  then show ?case
    using mem_page_is [of m' kind opts "encodePageToken (r_Colony r) (r_Name r)"] 1(2) q'
    by (simp add: mem_rest_def decode_encodePageToken list_key_def [of r])
qed

interpretation pg_moving: moving_pager "pg_pageable eng" "pg_items eng" "pg_key eng \<circ> list_key" page_size
  "pg_page eng" same_list for eng
proof (unfold_locales, goal_cases)
  case (1 q q' r)
  obtain s kind opts where q: "q = (s, kind, opts)" by (cases q)
  obtain s' where q': "q' = (s', kind, opts)" using 1(3) q by (cases q') (simp add: same_list_def)
  have inv: "pg_inv eng s" and nul: "\<And>t. pe_text_ok eng t \<Longrightarrow> pageTokenSep \<notin> set t"
    using 1(1) q by (auto simp: pg_pageable_def)
  have r: "pe_text_ok eng (r_Colony r)" "pe_text_ok eng (r_Name r)"
    using 1(4) q pg_inv_entry [OF inv] by (auto simp: pg_items_def pg_row_ok_def)
  then show ?case
    using pg_page_is [of eng s' kind opts "encodePageToken (r_Colony r) (r_Name r)"] 1(2) q' nul
    by (simp add: pg_rest_def decode_encodePageToken list_key_def [of r])
qed

lemma pages:
  "pg_page eng (s, kind, opts) = (\<lambda>t. pg_List eng kind (opts\<lparr>lo_PageToken := t\<rparr>) s)"
  "mem_page (m, kind, opts) = (\<lambda>t. mem_List kind (opts\<lparr>lo_PageToken := t\<rparr>) m)"
  by (simp_all add: pg_page_def mem_page_def fun_eq_iff)

lemma follow_over_map: "follow_over page (map f qs) t = follow_over (\<lambda>q. page (f q)) qs t"
  by (induction qs arbitrary: t) (auto split: sum.splits)

section \<open>Paging while others write\<close>

lemma same_list_paged: "sorted_wrt same_list (map (\<lambda>s. (s, kind, opts)) ss)"
  by (simp add: sorted_wrt_map same_list_def sorted_wrt_iff_nth_less)

text \<open>
  C14: a client that follows \<open>NextPageToken\<close> while others write, each page read from the store
  as it is then, comes to the end once it has asked for more pages than there ever were
  resources to list: on PostgreSQL, and on the in-memory store as long as no colony ever stored
  holds a NUL (\<open>mem_pageable\<close>; with one the client may go round for ever, \<open>nul_colony_never_ends\<close>).
  It gets no resource twice, each as it was at one of the pages, in order, and misses none that
  was to be listed all the while.
\<close>

theorem paging_while_written:
  assumes "\<forall>s\<in>set ss. pg_pageable eng (s, kind, opts)" "\<forall>m\<in>set ms. mem_pageable (m, kind, opts)"
    and "card (\<Union>s\<in>set ss. list_key ` set (pg_items eng (s, kind, opts))) < length ss"
    and "card (\<Union>m\<in>set ms. list_key ` set (mem_items (m, kind, opts))) < length ms"
  shows "(\<exists>out. follow_over (\<lambda>s t. pg_List eng kind (opts\<lparr>lo_PageToken := t\<rparr>) s) ss '''' = Some out
      \<and> distinct (map list_key out) \<and> sorted (map (pg_key eng \<circ> list_key) out)
      \<and> (\<forall>x\<in>set out. \<exists>s\<in>set ss. x \<in> set (pg_items eng (s, kind, opts)))
      \<and> (\<forall>k. (\<forall>s\<in>set ss. k \<in> list_key ` set (pg_items eng (s, kind, opts))) \<longrightarrow> k \<in> list_key ` set out))
    \<and> (\<exists>out. follow_over (\<lambda>m t. mem_List kind (opts\<lparr>lo_PageToken := t\<rparr>) m) ms '''' = Some out
      \<and> distinct (map list_key out) \<and> sorted (map list_key out)
      \<and> (\<forall>x\<in>set out. \<exists>m\<in>set ms. x \<in> set (mem_items (m, kind, opts)))
      \<and> (\<forall>k. (\<forall>m\<in>set ms. k \<in> list_key ` set (mem_items (m, kind, opts))) \<longrightarrow> k \<in> list_key ` set out))"
proof
  let ?q = "\<lambda>s. (s, kind, opts)" and ?K = "\<Union>s\<in>set ss. list_key ` set (pg_items eng (s, kind, opts))"
  have inj: "inj (pg_key eng)"
    using assms(1,3) by (cases ss) (auto simp: pg_pageable_def inj_def pg_key_def)
  have "card (\<Union>q\<in>set (map ?q ss). (pg_key eng \<circ> list_key) ` set (pg_items eng q)) < length (map ?q ss)"
  proof -
    have "(\<Union>q\<in>set (map ?q ss). (pg_key eng \<circ> list_key) ` set (pg_items eng q)) = pg_key eng ` ?K" by auto
    then show ?thesis using card_image_le [of ?K "pg_key eng"] assms(3) by simp
  qed
  from pg_moving.follow_over_complete [OF _ same_list_paged this] assms(1)
  obtain out where out: "follow_over (pg_page eng) (map ?q ss) '''' = Some out"
    "sorted_wrt (<) (map (pg_key eng \<circ> list_key) out)"
    "\<forall>x\<in>set out. \<exists>s\<in>set ss. x \<in> set (pg_items eng (s, kind, opts))"
    "\<And>k. \<forall>s\<in>set ss. k \<in> (pg_key eng \<circ> list_key) ` set (pg_items eng (s, kind, opts)) \<Longrightarrow>
      k \<in> (pg_key eng \<circ> list_key) ` set out"
    by auto
  have "follow_over (\<lambda>s t. pg_List eng kind (opts\<lparr>lo_PageToken := t\<rparr>) s) ss '''' = Some out"
    using out(1) by (simp add: follow_over_map pages)
  moreover have "distinct (map list_key out)"
    using out(2) by (auto simp: strict_sorted_iff distinct_map comp_def intro: inj_on_imageI2)
  moreover have "k \<in> list_key ` set out" if "\<forall>s\<in>set ss. k \<in> list_key ` set (pg_items eng (s, kind, opts))" for k
    using out(4) [of "pg_key eng k"] that unfolding image_comp [symmetric] inj_image_mem_iff [OF inj] by blast
  ultimately show "\<exists>out. follow_over (\<lambda>s t. pg_List eng kind (opts\<lparr>lo_PageToken := t\<rparr>) s) ss '''' = Some out
      \<and> distinct (map list_key out) \<and> sorted (map (pg_key eng \<circ> list_key) out)
      \<and> (\<forall>x\<in>set out. \<exists>s\<in>set ss. x \<in> set (pg_items eng (s, kind, opts)))
      \<and> (\<forall>k. (\<forall>s\<in>set ss. k \<in> list_key ` set (pg_items eng (s, kind, opts))) \<longrightarrow> k \<in> list_key ` set out)"
    using out(2,3) by (auto simp: strict_sorted_iff)
next
  let ?q = "\<lambda>m. (m, kind, opts)"
  have "card (\<Union>q\<in>set (map ?q ms). list_key ` set (mem_items q)) < length (map ?q ms)"
    using assms(4) by (simp add: image_image)
  from mem_moving.follow_over_complete [OF _ same_list_paged this] assms(2)
  obtain out where "follow_over mem_page (map ?q ms) '''' = Some out" "sorted_wrt (<) (map list_key out)"
    "\<forall>x\<in>set out. \<exists>m\<in>set ms. x \<in> set (mem_items (m, kind, opts))"
    "\<forall>k. (\<forall>m\<in>set ms. k \<in> list_key ` set (mem_items (m, kind, opts))) \<longrightarrow> k \<in> list_key ` set out"
    by auto
  then show "\<exists>out. follow_over (\<lambda>m t. mem_List kind (opts\<lparr>lo_PageToken := t\<rparr>) m) ms '''' = Some out
      \<and> distinct (map list_key out) \<and> sorted (map list_key out)
      \<and> (\<forall>x\<in>set out. \<exists>m\<in>set ms. x \<in> set (mem_items (m, kind, opts)))
      \<and> (\<forall>k. (\<forall>m\<in>set ms. k \<in> list_key ` set (mem_items (m, kind, opts))) \<longrightarrow> k \<in> list_key ` set out)"
    unfolding follow_over_map pages strict_sorted_iff by blast
qed

lemma listed_keys:
  "pg_inv eng s \<Longrightarrow> list_key ` set (pg_items eng (s, kind, opts)) \<subseteq> snd ` set (map fst (p_rows s))"
  "mem_inv m \<Longrightarrow> list_key ` set (mem_items (m, kind, opts)) \<subseteq> snd ` set (map fst (m_resources m))"
proof -
  have keys: "list_key ` snd ` set xs \<subseteq> snd ` set (map fst xs)" if "\<forall>(k, r)\<in>set xs. key_of r = k"
    for xs :: "(resKey \<times> resource) list"
    using that by (force simp: list_key_def key_of_def)
  show "list_key ` set (pg_items eng (s, kind, opts)) \<subseteq> snd ` set (map fst (p_rows s))" if "pg_inv eng s"
  proof -
    have "\<forall>(k, r)\<in>set (p_rows s). key_of r = k" using pg_inv_entry [OF that] by (auto simp: pg_row_ok_def)
    from keys [OF this] show ?thesis
      by (rule order_trans [rotated]) (auto simp: pg_items_def)
  qed
  show "list_key ` set (mem_items (m, kind, opts)) \<subseteq> snd ` set (map fst (m_resources m))" if "mem_inv m"
  proof -
    have "\<forall>(k, r)\<in>set (m_resources m). key_of r = k" using mem_inv_entry [OF that] by (auto simp: mem_row_ok_def)
    from keys [OF this] show ?thesis
      by (rule order_trans [rotated]) (auto simp: mem_items_def)
  qed
qed

lemma pg_one_agent: "map fst (p_rows (pg_after plain_engine (take 1 two_agents))) = [(''Agent'', ''c'', ''b'')]"
  by (simp add: pg_after_def two_agents_def op_step_def pg_ResourceStore_def pg_Apply_def pg_applyMutable_def
      sample_defs init_postgres_def insert_row_eq jsonbBytes_def blen_def bytes_of_def
      api_version_of_def pageTokenSep_def hived_next_resource_version_def DefaultAPIVersion_def key_of_def
      IsImmutableKind_def ImmutableKinds_def Let_def)

theorem paging_while_written_witness:
  "\<exists>out. follow_over (\<lambda>s t. pg_List plain_engine ''Agent'' (one_per_page\<lparr>lo_PageToken := t\<rparr>) s)
      [pg_after plain_engine (take 1 two_agents), pg_after plain_engine two_agents, pg_after plain_engine two_agents] '''' = Some out
    \<and> distinct (map list_key out)"
proof -
  let ?s1 = "pg_after plain_engine (take 1 two_agents)" and ?s = "pg_after plain_engine two_agents"
    and ?m = "mem_after two_agents"
  have ok1: "\<forall>w\<in>set (take 1 two_agents). client_op w" "room 0 (take 1 two_agents)"
    using two_agents_ok by (auto simp: room_def dest: in_set_takeD)
  note inv = pg_after_inv(1) [OF ok1, of plain_engine] pg_after_inv(1) [OF two_agents_ok, of plain_engine]
  have ok: "\<forall>s\<in>set [?s1, ?s, ?s]. pg_pageable plain_engine (s, ''Agent'', one_per_page)"
    using inv plain_pageable by simp
  have mok: "\<forall>m\<in>set [?m, ?m, ?m]. mem_pageable (m, ''Agent'', one_per_page)"
    using mem_two_agents_pageable by simp
  let ?two = "{(''c'', ''a''), (''c'', ''b'')} :: (string \<times> string) set"
  note keys = listed_keys(1) [OF inv(1), unfolded pg_one_agent] listed_keys(1) [OF inv(2), unfolded pg_two_agents]
    listed_keys(2) [OF mem_after_inv(1) [OF two_agents_ok], unfolded mem_two_agents]
  have two: "card A < Suc (Suc (Suc 0))" if "A \<subseteq> ?two" for A using card_mono [OF _ that] by simp
  have k: "card (\<Union>s\<in>set [?s1, ?s, ?s]. list_key ` set (pg_items plain_engine (s, ''Agent'', one_per_page))) < length [?s1, ?s, ?s]"
    using two [OF Un_least [OF order_trans [OF keys(1)] order_trans [OF keys(2)]]] by simp
  have mk: "card (\<Union>m\<in>set [?m, ?m, ?m]. list_key ` set (mem_items (m, ''Agent'', one_per_page))) < length [?m, ?m, ?m]"
    using two [OF order_trans [OF keys(3)]] by simp
  from paging_while_written [OF ok mok k mk] show ?thesis by blast
qed

end
