(* ===== verification/Messages.thy ===== *)
theory Messages
  imports StoreTypes
begin

text \<open>
  The protobuf messages of \<open>gen/hived/v1alpha1\<close> that the handlers and the client read and
  build: every message of \<open>meta\<close>, \<open>colony\<close>, \<open>agent\<close>, \<open>run\<close>, \<open>tool\<close> and \<open>event\<close>. A message
  field is an option (a nil pointer), a repeated field a list, an enum an \<open>int32\<close> (proto3
  enums are open: any number can arrive). The four messages each kind has in \<open>service\<close> have
  the same shape for every kind and are one record each, over the kind's object.
\<close>

section \<open>Well-known types\<close>

text \<open>\<open>timestamppb.Timestamp\<close> and \<open>durationpb.Duration\<close>: seconds and nanoseconds.\<close>

type_synonym Timestamp = "int \<times> int"
type_synonym Duration = "int \<times> int"

text \<open>\<open>structpb.Struct\<close>: a JSON object.\<close>

type_synonym Struct = "(string \<times> json) list"

text \<open>\<open>timestamppb.New\<close> and \<open>AsTime\<close> are third-party code: a parameter.\<close>

record pb_time =
  pb_New :: "time \<Rightarrow> Timestamp"
  pb_AsTime :: "Timestamp \<Rightarrow> time"

section \<open>meta\<close>

record ObjectMeta =
  om_Name :: string
  om_Colony :: string
  om_Uid :: string
  om_Generation :: int
  om_ResourceVersion :: int
  om_Labels :: str_map
  om_Annotations :: str_map
  om_CreatedAt :: "Timestamp option"
  om_UpdatedAt :: "Timestamp option"
  om_DeletedAt :: "Timestamp option"

record Condition =
  cn_Type :: string
  cn_Status :: string
  cn_Reason :: string
  cn_Message :: string
  cn_LastTransitionTime :: "Timestamp option"
  cn_ObservedGeneration :: int

record ListOptions =
  pb_Colony :: string
  pb_LabelSelector :: str_map
  pb_PageSize :: int
  pb_PageToken :: string

record ListMeta =
  lm_NextPageToken :: string
  lm_ResourceVersion :: int

type_synonym WatchEventType = int

definition WatchEventType_UNSPECIFIED :: WatchEventType where "WatchEventType_UNSPECIFIED = 0"
definition WatchEventType_ADDED :: WatchEventType where "WatchEventType_ADDED = 1"
definition WatchEventType_MODIFIED :: WatchEventType where "WatchEventType_MODIFIED = 2"
definition WatchEventType_DELETED :: WatchEventType where "WatchEventType_DELETED = 3"
definition WatchEventType_BOOKMARK :: WatchEventType where "WatchEventType_BOOKMARK = 4"

text \<open>\<open>String()\<close> of an enum: its name, or the number in decimal when it has none.\<close>

fun nat_digits :: "nat \<Rightarrow> nat \<Rightarrow> string" where
  "nat_digits 0 n = ''''"
| "nat_digits (Suc k) n =
     (if n < 10 then [''0123456789'' ! n] else nat_digits k (n div 10) @ [''0123456789'' ! (n mod 10)])"

definition show_int :: "int \<Rightarrow> string" where
  "show_int i = (if i < 0 then ''-'' @ nat_digits (Suc (nat (- i))) (nat (- i))
     else nat_digits (Suc (nat i)) (nat i))"

definition enum_string :: "(int \<times> string) list \<Rightarrow> int \<Rightarrow> string" where
  "enum_string names i = (case map_of names i of Some s \<Rightarrow> s | None \<Rightarrow> show_int i)"

definition WatchEventType_name :: "(int \<times> string) list" where
  "WatchEventType_name =
     [(0, ''WATCH_EVENT_TYPE_UNSPECIFIED''), (1, ''WATCH_EVENT_TYPE_ADDED''),
      (2, ''WATCH_EVENT_TYPE_MODIFIED''), (3, ''WATCH_EVENT_TYPE_DELETED''),
      (4, ''WATCH_EVENT_TYPE_BOOKMARK'')]"

section \<open>Objects\<close>

text \<open>\<open>Colony\<close>, \<open>Agent\<close>, \<open>AgentVersion\<close>, \<open>Run\<close> and \<open>Tool\<close> each have metadata, a spec and a status.\<close>

record ('spec, 'status) object =
  ob_Metadata :: "ObjectMeta option"
  ob_Spec :: "'spec option"
  ob_Status :: "'status option"

record Quotas =
  qu_MaxConcurrentRuns :: int
  qu_MaxRunsPerHour :: int
  qu_TokenBudget :: int
  qu_CostBudget :: string

record ColonySpec =
  cs_DisplayName :: string
  cs_Quotas :: "Quotas option"
  cs_Policies :: "string list"
  cs_MemoryRoot :: string
  cs_ExecutorAllowlist :: "string list"
  cs_ModelAllowlist :: "string list"

record ColonyStatus =
  ct_Conditions :: "Condition list"
  ct_ObservedGeneration :: int

type_synonym Colony = "(ColonySpec, ColonyStatus) object"

record AgentSpec =
  as_Description :: string

record AgentStatus =
  at_Current :: string
  at_Versions :: "string list"
  at_Conditions :: "Condition list"

type_synonym Agent = "(AgentSpec, AgentStatus) object"

record ModelSpec =
  mo_Provider :: string
  mo_Name :: string
  mo_Params :: str_map

record ToolRef =
  tr_Name :: string
  tr_Version :: string
  tr_Config :: str_map

record MemorySpec =
  me_Root :: string
  me_Blocks :: "string list"

record RuntimeSpec =
  rt_Executor :: string
  rt_Image :: string
  rt_Env :: str_map

record LimitsSpec =
  li_MaxSteps :: int
  li_MaxTokens :: int
  li_MaxCost :: string
  li_Timeout :: "Duration option"

record IOSpec =
  io_InputSchema :: string
  io_OutputSchema :: string

record AgentVersionSpec =
  av_Agent :: string
  av_Version :: string
  av_Instructions :: string
  av_Model :: "ModelSpec option"
  av_Tools :: "ToolRef list"
  av_Memory :: "MemorySpec option"
  av_Policies :: "string list"
  av_Runtime :: "RuntimeSpec option"
  av_Limits :: "LimitsSpec option"
  av_Io :: "IOSpec option"

record AgentVersionStatus =
  vs_Conditions :: "Condition list"

type_synonym AgentVersion = "(AgentVersionSpec, AgentVersionStatus) object"

type_synonym RunPhase = int

definition RunPhase_RUN_PHASE_PENDING :: RunPhase where "RunPhase_RUN_PHASE_PENDING = 1"

definition RunPhase_name :: "(int \<times> string) list" where
  "RunPhase_name =
     [(0, ''RUN_PHASE_UNSPECIFIED''), (1, ''RUN_PHASE_PENDING''), (2, ''RUN_PHASE_SCHEDULING''),
      (3, ''RUN_PHASE_RUNNING''), (4, ''RUN_PHASE_PAUSED''), (5, ''RUN_PHASE_SUCCEEDED''),
      (6, ''RUN_PHASE_FAILED''), (7, ''RUN_PHASE_CANCELLED''), (8, ''RUN_PHASE_TIMED_OUT'')]"

record TokenUsage =
  tu_Input :: int
  tu_Output :: int
  tu_Total :: int

record RunSpec =
  rn_AgentRef :: string
  rn_Version :: string
  rn_Input :: "Struct option"
  rn_SessionRef :: string
  rn_ParentRunRef :: string
  rn_ExecutorHint :: string
  rn_Cancel :: bool

record RunStatus =
  ru_Phase :: RunPhase
  ru_CellRef :: string
  ru_Executor :: string
  ru_Identity :: string
  ru_StartedAt :: "Timestamp option"
  ru_FinishedAt :: "Timestamp option"
  ru_Steps :: int
  ru_Tokens :: "TokenUsage option"
  ru_Cost :: string
  ru_Checkpoint :: string
  ru_Result :: "Struct option"
  ru_Message :: string
  ru_Conditions :: "Condition list"
  ru_Attempt :: int
  ru_ObservedGeneration :: int
  ru_LastHeartbeatAt :: "Timestamp option"

type_synonym Run = "(RunSpec, RunStatus) object"

type_synonym ToolType = int

definition ToolType_TOOL_TYPE_MCP :: ToolType where "ToolType_TOOL_TYPE_MCP = 1"
definition ToolType_TOOL_TYPE_BUILTIN :: ToolType where "ToolType_TOOL_TYPE_BUILTIN = 2"
definition ToolType_TOOL_TYPE_AGENT :: ToolType where "ToolType_TOOL_TYPE_AGENT = 3"

definition ToolType_name :: "(int \<times> string) list" where
  "ToolType_name =
     [(0, ''TOOL_TYPE_UNSPECIFIED''), (1, ''TOOL_TYPE_MCP''), (2, ''TOOL_TYPE_BUILTIN''),
      (3, ''TOOL_TYPE_AGENT'')]"

record ToolSpec =
  ts_Type :: ToolType
  ts_Description :: string
  ts_Endpoint :: string
  ts_Builtin :: string
  ts_AgentRef :: string
  ts_RiskClass :: string

record ToolStatus =
  tt_Conditions :: "Condition list"
  tt_ObservedGeneration :: int

type_synonym Tool = "(ToolSpec, ToolStatus) object"

record pb_Event =
  ev_Colony :: string
  ev_Run :: string
  ev_Seq :: int
  ev_Type :: string
  ev_Ts :: "Timestamp option"
  ev_Payload :: "Struct option"
  ev_ResourceVersion :: int

section \<open>Empty messages\<close>

definition empty_ColonySpec :: ColonySpec where
  "empty_ColonySpec = \<lparr>cs_DisplayName = '''', cs_Quotas = None, cs_Policies = [],
     cs_MemoryRoot = '''', cs_ExecutorAllowlist = [], cs_ModelAllowlist = []\<rparr>"

definition empty_ColonyStatus :: ColonyStatus where
  "empty_ColonyStatus = \<lparr>ct_Conditions = [], ct_ObservedGeneration = 0\<rparr>"

definition empty_AgentSpec :: AgentSpec where
  "empty_AgentSpec = \<lparr>as_Description = ''''\<rparr>"

definition empty_AgentStatus :: AgentStatus where
  "empty_AgentStatus = \<lparr>at_Current = '''', at_Versions = [], at_Conditions = []\<rparr>"

definition empty_AgentVersionSpec :: AgentVersionSpec where
  "empty_AgentVersionSpec = \<lparr>av_Agent = '''', av_Version = '''', av_Instructions = '''',
     av_Model = None, av_Tools = [], av_Memory = None, av_Policies = [], av_Runtime = None,
     av_Limits = None, av_Io = None\<rparr>"

definition empty_AgentVersionStatus :: AgentVersionStatus where
  "empty_AgentVersionStatus = \<lparr>vs_Conditions = []\<rparr>"

definition empty_RunSpec :: RunSpec where
  "empty_RunSpec = \<lparr>rn_AgentRef = '''', rn_Version = '''', rn_Input = None, rn_SessionRef = '''',
     rn_ParentRunRef = '''', rn_ExecutorHint = '''', rn_Cancel = False\<rparr>"

definition empty_RunStatus :: RunStatus where
  "empty_RunStatus = \<lparr>ru_Phase = 0, ru_CellRef = '''', ru_Executor = '''', ru_Identity = '''',
     ru_StartedAt = None, ru_FinishedAt = None, ru_Steps = 0, ru_Tokens = None, ru_Cost = '''',
     ru_Checkpoint = '''', ru_Result = None, ru_Message = '''', ru_Conditions = [], ru_Attempt = 0,
     ru_ObservedGeneration = 0, ru_LastHeartbeatAt = None\<rparr>"

definition empty_ToolSpec :: ToolSpec where
  "empty_ToolSpec = \<lparr>ts_Type = 0, ts_Description = '''', ts_Endpoint = '''', ts_Builtin = '''',
     ts_AgentRef = '''', ts_RiskClass = ''''\<rparr>"

definition empty_ToolStatus :: ToolStatus where
  "empty_ToolStatus = \<lparr>tt_Conditions = [], tt_ObservedGeneration = 0\<rparr>"

section \<open>Getters\<close>

text \<open>A generated getter reads a field of a message or, of a nil message, the zero value.\<close>

definition AgentVersionSpec_GetAgent :: "AgentVersionSpec option \<Rightarrow> string" where
  "AgentVersionSpec_GetAgent x = (case x of Some m \<Rightarrow> av_Agent m | None \<Rightarrow> '''')"

definition RunSpec_GetAgentRef :: "RunSpec option \<Rightarrow> string" where
  "RunSpec_GetAgentRef x = (case x of Some m \<Rightarrow> rn_AgentRef m | None \<Rightarrow> '''')"

definition ToolSpec_GetType :: "ToolSpec option \<Rightarrow> ToolType" where
  "ToolSpec_GetType x = (case x of Some m \<Rightarrow> ts_Type m | None \<Rightarrow> 0)"

definition ToolSpec_GetEndpoint :: "ToolSpec option \<Rightarrow> string" where
  "ToolSpec_GetEndpoint x = (case x of Some m \<Rightarrow> ts_Endpoint m | None \<Rightarrow> '''')"

definition ToolSpec_GetBuiltin :: "ToolSpec option \<Rightarrow> string" where
  "ToolSpec_GetBuiltin x = (case x of Some m \<Rightarrow> ts_Builtin m | None \<Rightarrow> '''')"

definition ToolSpec_GetAgentRef :: "ToolSpec option \<Rightarrow> string" where
  "ToolSpec_GetAgentRef x = (case x of Some m \<Rightarrow> ts_AgentRef m | None \<Rightarrow> '''')"

definition RunStatus_GetPhase :: "RunStatus option \<Rightarrow> RunPhase" where
  "RunStatus_GetPhase x = (case x of Some m \<Rightarrow> ru_Phase m | None \<Rightarrow> 0)"

section \<open>Requests and responses\<close>

record 'o ApplyRequest =
  ap_Object :: "'o option"
  ap_IfResourceVersion :: "int option"

record GetRequest =
  gt_Colony :: string
  gt_Name :: string

record ListRequest =
  ls_Options :: "ListOptions option"

record 'o ListResponse =
  rp_Items :: "'o list"
  rp_ListMeta :: ListMeta

record WatchRequest =
  wr_Options :: "ListOptions option"
  wr_SinceResourceVersion :: int

record 'o WatchEvent =
  wv_Type :: WatchEventType
  wv_ResourceVersion :: int
  wv_Object :: "'o option"

record ListEventsRequest =
  le_req_Colony :: string
  le_req_Run :: string
  le_req_SinceSeq :: int
  le_req_Limit :: int

end
