(* ===== verification/ApiConvert.thy ===== *)
theory ApiConvert
  imports Messages
begin

text \<open>
  \<open>internal/api/convert.go\<close>: connect errors and their codes, the translation between wire
  metadata and stored resources, list options and results, watch event types, and
  \<open>watchLoop\<close>. \<open>protojson\<close> is third-party code: its \<open>Marshal\<close> and \<open>Unmarshal\<close> are the
  record \<open>codec\<close> of each kind, an argument of the conversions.
\<close>

section \<open>Errors\<close>

datatype connect_code =
    CodeUnknown | CodeInvalidArgument | CodeNotFound | CodeAborted | CodeFailedPrecondition
  | CodeInternal | CodeUnauthenticated | CodeUnimplemented

text \<open>A handler returns a \<open>*connect.Error\<close> or, from \<open>marshalSpec\<close>, any other error.\<close>

datatype api_error = ConnectError connect_code string | OtherError string

text \<open>\<open>connect.CodeOf\<close>.\<close>

fun CodeOf :: "api_error \<Rightarrow> connect_code" where
  "CodeOf (ConnectError c _) = c"
| "CodeOf (OtherError _) = CodeUnknown"

definition mapStoreErr :: "go_error \<Rightarrow> api_error" where
  "mapStoreErr err =
     (if errors_Is err ErrNotFound then ConnectError CodeNotFound (err_text err)
      else if errors_Is err ErrConflict then ConnectError CodeAborted (err_text err)
      else if errors_Is err ErrImmutable then ConnectError CodeFailedPrecondition (err_text err)
      else if errors_Is err ErrInvalidPageToken then ConnectError CodeInvalidArgument (err_text err)
      else ConnectError CodeInternal (err_text err))"

definition invalidArgument :: "string \<Rightarrow> api_error" where
  "invalidArgument msg = ConnectError CodeInvalidArgument msg"

lemma mapStoreErr_code:
  "CodeOf (mapStoreErr err) = (case err_is err of
     Some ErrNotFound \<Rightarrow> CodeNotFound | Some ErrConflict \<Rightarrow> CodeAborted
   | Some ErrImmutable \<Rightarrow> CodeFailedPrecondition | Some ErrInvalidPageToken \<Rightarrow> CodeInvalidArgument
   | None \<Rightarrow> CodeInternal)"
  by (auto simp: mapStoreErr_def errors_Is_def split: option.split sentinel.split)

section \<open>Metadata\<close>

definition toTimestamp :: "pb_time \<Rightarrow> time \<Rightarrow> Timestamp option" where
  "toTimestamp T t = (if t = 0 then None else Some (pb_New T t))"

definition fromTimestamp :: "pb_time \<Rightarrow> Timestamp option \<Rightarrow> time" where
  "fromTimestamp T ts = (case ts of None \<Rightarrow> 0 | Some x \<Rightarrow> pb_AsTime T x)"

definition toObjectMeta :: "pb_time \<Rightarrow> resource \<Rightarrow> ObjectMeta" where
  "toObjectMeta T r =
     (let m = \<lparr>om_Name = r_Name r, om_Colony = r_Colony r, om_Uid = r_UID r,
            om_Generation = r_Generation r, om_ResourceVersion = r_ResourceVersion r,
            om_Labels = r_Labels r, om_Annotations = r_Annotations r,
            om_CreatedAt = toTimestamp T (r_CreatedAt r),
            om_UpdatedAt = toTimestamp T (r_UpdatedAt r), om_DeletedAt = None\<rparr>
      in case r_DeletedAt r of None \<Rightarrow> m | Some t \<Rightarrow> m\<lparr>om_DeletedAt := toTimestamp T t\<rparr>)"

definition resourceFromMeta :: "string \<Rightarrow> ObjectMeta option \<Rightarrow> api_error + resource" where
  "resourceFromMeta kind m =
     (case m of
        None \<Rightarrow> Inl (invalidArgument ''api: metadata.name is required'')
      | Some m \<Rightarrow>
          if om_Name m = '''' then Inl (invalidArgument ''api: metadata.name is required'')
          else Inr (empty_resource\<lparr>r_Kind := kind, r_APIVersion := DefaultAPIVersion,
                 r_Colony := om_Colony m, r_Name := om_Name m, r_Labels := om_Labels m,
                 r_Annotations := om_Annotations m\<rparr>))"

lemma from_toTimestamp:
  "pb_AsTime T (pb_New T t) = t \<Longrightarrow> fromTimestamp T (toTimestamp T t) = t"
  by (simp add: fromTimestamp_def toTimestamp_def)

section \<open>Specs and statuses\<close>

text \<open>
  \<open>protojson\<close> on the spec and the status of one kind: \<open>Marshal\<close> of a possibly nil message,
  \<open>Unmarshal\<close> into a fresh one; an error is its text.
\<close>

record ('spec, 'status) codec =
  cd_MarshalSpec :: "'spec option \<Rightarrow> string + string"
  cd_UnmarshalSpec :: "string \<Rightarrow> string + 'spec"
  cd_MarshalStatus :: "'status option \<Rightarrow> string + string"
  cd_UnmarshalStatus :: "string \<Rightarrow> string + 'status"

definition marshalSpec :: "('m option \<Rightarrow> string + string) \<Rightarrow> 'm option \<Rightarrow> api_error + bytes" where
  "marshalSpec marshal m = (case marshal m of Inl e \<Rightarrow> Inl (OtherError e) | Inr s \<Rightarrow> Inr (Some s))"

text \<open>\<open>zero\<close> is the message the caller passes: it stays as it is when there is no data.\<close>

definition unmarshalSpec :: "(string \<Rightarrow> string + 'm) \<Rightarrow> 'm \<Rightarrow> bytes \<Rightarrow> string + 'm" where
  "unmarshalSpec unmarshal zero data =
     (if blen data = 0 then Inr zero else unmarshal (bytes_of data))"

text \<open>The body the five \<open>resourceTo\<close> functions share.\<close>

definition resource_to_object ::
  "pb_time \<Rightarrow> ('spec, 'status) codec \<Rightarrow> 'spec \<Rightarrow> 'status \<Rightarrow> resource \<Rightarrow> string + ('spec, 'status) object" where
  "resource_to_object T cd zspec zstatus r =
     (case unmarshalSpec (cd_UnmarshalSpec cd) zspec (r_Spec r) of
        Inl e \<Rightarrow> Inl e
      | Inr spec \<Rightarrow>
          (case unmarshalSpec (cd_UnmarshalStatus cd) zstatus (r_Status r) of
             Inl e \<Rightarrow> Inl e
           | Inr status \<Rightarrow>
               Inr \<lparr>ob_Metadata = Some (toObjectMeta T r), ob_Spec = Some spec, ob_Status = Some status\<rparr>))"

lemma resource_to_object_Inr:
  "resource_to_object T cd zs zt r = Inr ob \<Longrightarrow> ob_Metadata ob = Some (toObjectMeta T r)
    \<and> (\<exists>spec. ob_Spec ob = Some spec \<and> unmarshalSpec (cd_UnmarshalSpec cd) zs (r_Spec r) = Inr spec)
    \<and> (\<exists>status. ob_Status ob = Some status \<and> unmarshalSpec (cd_UnmarshalStatus cd) zt (r_Status r) = Inr status)"
  by (auto simp: resource_to_object_def split: sum.splits)

section \<open>Lists and watches\<close>

fun toWatchEventType :: "watch_event_type \<Rightarrow> WatchEventType" where
  "toWatchEventType WatchAdded = WatchEventType_ADDED"
| "toWatchEventType WatchModified = WatchEventType_MODIFIED"
| "toWatchEventType WatchDeleted = WatchEventType_DELETED"
| "toWatchEventType WatchBookmark = WatchEventType_BOOKMARK"

definition toListOptions :: "ListOptions option \<Rightarrow> list_options" where
  "toListOptions o' =
     (case o' of
        None \<Rightarrow> empty_list_options
      | Some p \<Rightarrow> \<lparr>lo_Colony = pb_Colony p, lo_LabelSelector = pb_LabelSelector p,
          lo_PageSize = pb_PageSize p, lo_PageToken = pb_PageToken p\<rparr>)"

definition toListMeta :: "list_result \<Rightarrow> ListMeta" where
  "toListMeta r = \<lparr>lm_NextPageToken = lr_NextPageToken r, lm_ResourceVersion = lr_ResourceVersion r\<rparr>"

text \<open>
  \<open>watchLoop\<close> on the events received before the channel closed or the context was done:
  what was sent and the error it returned, if any. \<open>send\<close> sees what was sent before, so a
  stream may fail at any point.
\<close>

fun watchLoop ::
  "('e list \<Rightarrow> 'e \<Rightarrow> api_error option) \<Rightarrow> ('x \<Rightarrow> string + 'e option) \<Rightarrow> 'x list \<Rightarrow> 'e list
    \<Rightarrow> 'e list \<times> api_error option" where
  "watchLoop send toEvent [] sent = (sent, None)"
| "watchLoop send toEvent (ev # evs) sent =
     (case toEvent ev of
        Inl e \<Rightarrow> (sent, Some (ConnectError CodeInternal e))
      | Inr None \<Rightarrow> watchLoop send toEvent evs sent
      | Inr (Some out) \<Rightarrow>
          (case send sent out of
             Some err \<Rightarrow> (sent, Some err)
           | None \<Rightarrow> watchLoop send toEvent evs (sent @ [out])))"

text \<open>The loop sends a prefix of the converted events, all of them when it returns no error.\<close>

lemma watchLoop_prefix:
  assumes "\<And>ev out. toEvent ev = Inr out \<Longrightarrow> out \<noteq> None"
  shows "watchLoop send toEvent evs sent = (sent', err) \<Longrightarrow>
    \<exists>n \<le> length evs. sent' = sent @ map (\<lambda>ev. the (projr (toEvent ev))) (take n evs)
      \<and> (\<forall>ev\<in>set (take n evs). \<exists>out. toEvent ev = Inr (Some out)) \<and> (err = None \<longrightarrow> n = length evs)"
proof (induction evs arbitrary: sent)
  case Nil
  then show ?case by simp
next
  case (Cons ev evs)
  show ?case
  proof (cases "toEvent ev")
    case (Inl e)
    with Cons.prems show ?thesis by (intro exI [of _ 0]) auto
  next
    case (Inr o')
    then obtain out where out: "toEvent ev = Inr (Some out)" using assms by (cases o') auto
    show ?thesis
    proof (cases "send sent out")
      case (Some er)
      with Cons.prems out show ?thesis by (intro exI [of _ 0]) (auto dest: sym)
    next
      case None
      with Cons.prems out have "watchLoop send toEvent evs (sent @ [out]) = (sent', err)" by simp
      from Cons.IH [OF this] obtain n where "n \<le> length evs"
        "sent' = (sent @ [out]) @ map (\<lambda>ev. the (projr (toEvent ev))) (take n evs)"
        "\<forall>ev\<in>set (take n evs). \<exists>out. toEvent ev = Inr (Some out)" "err = None \<longrightarrow> n = length evs"
        by blast
      with out show ?thesis by (intro exI [of _ "Suc n"]) auto
    qed
  qed
qed

end
