(* ===== verification/ApiHandlers.thy ===== *)
theory ApiHandlers
  imports ApiConvert PostgresStore
begin

text \<open>
  The resource handlers of \<open>internal/api\<close>: \<open>colony.go\<close>, \<open>agent.go\<close> (Agent and
  AgentVersion), \<open>run.go\<close> and \<open>tool.go\<close>. The \<open>Apply\<close>, \<open>Get\<close>, \<open>List\<close> and \<open>Watch\<close> of the five
  are the same code over their conversions, so each is one definition over them, used at
  every kind; the conversions are one definition per kind. The handler's lemmas are proved
  for any store that keeps the contract of theory \<open>StoreContract\<close>.
\<close>

section \<open>The handlers over their conversions\<close>

definition handle_Apply ::
  "'s ResourceStore \<Rightarrow> ('o \<Rightarrow> api_error + resource) \<Rightarrow> (resource \<Rightarrow> string + 'o) \<Rightarrow> env
    \<Rightarrow> 'o ApplyRequest \<Rightarrow> 's \<Rightarrow> (api_error + 'o) \<times> 's" where
  "handle_Apply S toResource fromResource e req s =
     (case ap_Object req of
        None \<Rightarrow> (Inl (invalidArgument ''api: object is required''), s)
      | Some obj \<Rightarrow>
          (case toResource obj of
             Inl err \<Rightarrow> (Inl err, s)
           | Inr r \<Rightarrow>
               (case rs_Apply S e r (ap_IfResourceVersion req) s of
                  (Inl err, s') \<Rightarrow> (Inl (mapStoreErr err), s')
                | (Inr saved, s') \<Rightarrow>
                    (case fromResource saved of
                       Inl err \<Rightarrow> (Inl (ConnectError CodeInternal err), s')
                     | Inr out \<Rightarrow> (Inr out, s')))))"

definition handle_Get ::
  "'s ResourceStore \<Rightarrow> string \<Rightarrow> (resource \<Rightarrow> string + 'o) \<Rightarrow> GetRequest \<Rightarrow> 's \<Rightarrow> api_error + 'o" where
  "handle_Get S kind fromResource req s =
     (case rs_Get S kind (gt_Colony req) (gt_Name req) s of
        Inl err \<Rightarrow> Inl (mapStoreErr err)
      | Inr r \<Rightarrow>
          (case fromResource r of
             Inl err \<Rightarrow> Inl (ConnectError CodeInternal err)
           | Inr out \<Rightarrow> Inr out))"

fun convert_items :: "(resource \<Rightarrow> string + 'o) \<Rightarrow> resource list \<Rightarrow> 'o list \<Rightarrow> api_error + 'o list" where
  "convert_items fromResource [] items = Inr items"
| "convert_items fromResource (r # rs) items =
     (case fromResource r of
        Inl err \<Rightarrow> Inl (ConnectError CodeInternal err)
      | Inr c \<Rightarrow> convert_items fromResource rs (items @ [c]))"

definition handle_List ::
  "'s ResourceStore \<Rightarrow> string \<Rightarrow> (resource \<Rightarrow> string + 'o) \<Rightarrow> list_options \<Rightarrow> 's
    \<Rightarrow> api_error + 'o ListResponse" where
  "handle_List S kind fromResource opts s =
     (case rs_List S kind opts s of
        Inl err \<Rightarrow> Inl (mapStoreErr err)
      | Inr res \<Rightarrow>
          (case convert_items fromResource (lr_Items res) [] of
             Inl err \<Rightarrow> Inl err
           | Inr items \<Rightarrow> Inr \<lparr>rp_Items = items, rp_ListMeta = toListMeta res\<rparr>))"

definition watch_event_out ::
  "(resource \<Rightarrow> string + 'o) \<Rightarrow> watch_event \<Rightarrow> string + 'o WatchEvent option" where
  "watch_event_out fromResource ev =
     (let out = \<lparr>wv_Type = toWatchEventType (we_Type ev),
                 wv_ResourceVersion = we_ResourceVersion ev, wv_Object = None\<rparr>
      in if we_Type ev \<noteq> WatchBookmark then
           (case fromResource (we_Object ev) of
              Inl err \<Rightarrow> Inl err
            | Inr c \<Rightarrow> Inr (Some (out\<lparr>wv_Object := Some c\<rparr>)))
         else Inr (Some out))"

text \<open>
  The stream of a watch on the events the store's channel gave before it closed or the
  context was done; \<open>Watch\<close> of either store returns no error.
\<close>

definition handle_Watch ::
  "('o WatchEvent list \<Rightarrow> 'o WatchEvent \<Rightarrow> api_error option) \<Rightarrow> (resource \<Rightarrow> string + 'o)
    \<Rightarrow> watch_event list \<Rightarrow> 'o WatchEvent list \<times> api_error option" where
  "handle_Watch send fromResource ch = watchLoop send (watch_event_out fromResource) ch []"

section \<open>Colony\<close>

definition colonyToResource :: "(ColonySpec, ColonyStatus) codec \<Rightarrow> Colony \<Rightarrow> api_error + resource" where
  "colonyToResource cd c =
     (case resourceFromMeta ''Colony'' (ob_Metadata c) of
        Inl err \<Rightarrow> Inl err
      | Inr r \<Rightarrow>
          (case marshalSpec (cd_MarshalSpec cd) (ob_Spec c) of
             Inl err \<Rightarrow> Inl err
           | Inr spec \<Rightarrow> Inr (r\<lparr>r_Spec := spec\<rparr>)))"

definition resourceToColony :: "pb_time \<Rightarrow> (ColonySpec, ColonyStatus) codec \<Rightarrow> resource \<Rightarrow> string + Colony" where
  "resourceToColony T cd r = resource_to_object T cd empty_ColonySpec empty_ColonyStatus r"

definition Colony_Apply ::
  "pb_time \<Rightarrow> (ColonySpec, ColonyStatus) codec \<Rightarrow> 's ResourceStore \<Rightarrow> env \<Rightarrow> Colony ApplyRequest \<Rightarrow> 's
    \<Rightarrow> (api_error + Colony) \<times> 's" where
  "Colony_Apply T cd S = handle_Apply S (colonyToResource cd) (resourceToColony T cd)"

text \<open>The request carries a name only; a Colony is stored with an empty colony.\<close>

definition Colony_Get ::
  "pb_time \<Rightarrow> (ColonySpec, ColonyStatus) codec \<Rightarrow> 's ResourceStore \<Rightarrow> string \<Rightarrow> 's \<Rightarrow> api_error + Colony" where
  "Colony_Get T cd S name =
     handle_Get S ''Colony'' (resourceToColony T cd) \<lparr>gt_Colony = '''', gt_Name = name\<rparr>"

definition Colony_List ::
  "pb_time \<Rightarrow> (ColonySpec, ColonyStatus) codec \<Rightarrow> 's ResourceStore \<Rightarrow> ListRequest \<Rightarrow> 's
    \<Rightarrow> api_error + Colony ListResponse" where
  "Colony_List T cd S req =
     handle_List S ''Colony'' (resourceToColony T cd) ((toListOptions (ls_Options req))\<lparr>lo_Colony := ''''\<rparr>)"

definition Colony_Watch ::
  "pb_time \<Rightarrow> (ColonySpec, ColonyStatus) codec \<Rightarrow> (Colony WatchEvent list \<Rightarrow> Colony WatchEvent \<Rightarrow> api_error option)
    \<Rightarrow> watch_event list \<Rightarrow> Colony WatchEvent list \<times> api_error option" where
  "Colony_Watch T cd send ch = handle_Watch send (resourceToColony T cd) ch"

text \<open>The options a Colony watch passes to the store.\<close>

definition colony_watch_options :: "WatchRequest \<Rightarrow> list_options" where
  "colony_watch_options req = (toListOptions (wr_Options req))\<lparr>lo_Colony := ''''\<rparr>"

section \<open>Agent\<close>

definition agentToResource :: "(AgentSpec, AgentStatus) codec \<Rightarrow> Agent \<Rightarrow> api_error + resource" where
  "agentToResource cd a =
     (case resourceFromMeta ''Agent'' (ob_Metadata a) of
        Inl err \<Rightarrow> Inl err
      | Inr r \<Rightarrow>
          if r_Colony r = '''' then Inl (invalidArgument ''api: metadata.colony is required'')
          else (case marshalSpec (cd_MarshalSpec cd) (ob_Spec a) of
             Inl err \<Rightarrow> Inl err
           | Inr spec \<Rightarrow> Inr (r\<lparr>r_Spec := spec\<rparr>)))"

definition resourceToAgent :: "pb_time \<Rightarrow> (AgentSpec, AgentStatus) codec \<Rightarrow> resource \<Rightarrow> string + Agent" where
  "resourceToAgent T cd r = resource_to_object T cd empty_AgentSpec empty_AgentStatus r"

definition Agent_Apply ::
  "pb_time \<Rightarrow> (AgentSpec, AgentStatus) codec \<Rightarrow> 's ResourceStore \<Rightarrow> env \<Rightarrow> Agent ApplyRequest \<Rightarrow> 's
    \<Rightarrow> (api_error + Agent) \<times> 's" where
  "Agent_Apply T cd S = handle_Apply S (agentToResource cd) (resourceToAgent T cd)"

definition Agent_Get ::
  "pb_time \<Rightarrow> (AgentSpec, AgentStatus) codec \<Rightarrow> 's ResourceStore \<Rightarrow> GetRequest \<Rightarrow> 's \<Rightarrow> api_error + Agent" where
  "Agent_Get T cd S = handle_Get S ''Agent'' (resourceToAgent T cd)"

definition Agent_List ::
  "pb_time \<Rightarrow> (AgentSpec, AgentStatus) codec \<Rightarrow> 's ResourceStore \<Rightarrow> ListRequest \<Rightarrow> 's
    \<Rightarrow> api_error + Agent ListResponse" where
  "Agent_List T cd S req =
     handle_List S ''Agent'' (resourceToAgent T cd) (toListOptions (ls_Options req))"

definition Agent_Watch ::
  "pb_time \<Rightarrow> (AgentSpec, AgentStatus) codec \<Rightarrow> (Agent WatchEvent list \<Rightarrow> Agent WatchEvent \<Rightarrow> api_error option)
    \<Rightarrow> watch_event list \<Rightarrow> Agent WatchEvent list \<times> api_error option" where
  "Agent_Watch T cd send ch = handle_Watch send (resourceToAgent T cd) ch"

section \<open>AgentVersion\<close>

definition agentVersionToResource ::
  "(AgentVersionSpec, AgentVersionStatus) codec \<Rightarrow> AgentVersion \<Rightarrow> api_error + resource" where
  "agentVersionToResource cd av =
     (case resourceFromMeta ''AgentVersion'' (ob_Metadata av) of
        Inl err \<Rightarrow> Inl err
      | Inr r \<Rightarrow>
          if r_Colony r = '''' then Inl (invalidArgument ''api: metadata.colony is required'')
          else if AgentVersionSpec_GetAgent (ob_Spec av) = ''''
          then Inl (invalidArgument ''api: spec.agent is required'')
          else (case marshalSpec (cd_MarshalSpec cd) (ob_Spec av) of
             Inl err \<Rightarrow> Inl err
           | Inr spec \<Rightarrow> Inr (r\<lparr>r_Spec := spec\<rparr>)))"

definition resourceToAgentVersion ::
  "pb_time \<Rightarrow> (AgentVersionSpec, AgentVersionStatus) codec \<Rightarrow> resource \<Rightarrow> string + AgentVersion" where
  "resourceToAgentVersion T cd r =
     resource_to_object T cd empty_AgentVersionSpec empty_AgentVersionStatus r"

definition AgentVersion_Apply ::
  "pb_time \<Rightarrow> (AgentVersionSpec, AgentVersionStatus) codec \<Rightarrow> 's ResourceStore \<Rightarrow> env
    \<Rightarrow> AgentVersion ApplyRequest \<Rightarrow> 's \<Rightarrow> (api_error + AgentVersion) \<times> 's" where
  "AgentVersion_Apply T cd S = handle_Apply S (agentVersionToResource cd) (resourceToAgentVersion T cd)"

definition AgentVersion_Get ::
  "pb_time \<Rightarrow> (AgentVersionSpec, AgentVersionStatus) codec \<Rightarrow> 's ResourceStore \<Rightarrow> GetRequest \<Rightarrow> 's
    \<Rightarrow> api_error + AgentVersion" where
  "AgentVersion_Get T cd S = handle_Get S ''AgentVersion'' (resourceToAgentVersion T cd)"

definition AgentVersion_List ::
  "pb_time \<Rightarrow> (AgentVersionSpec, AgentVersionStatus) codec \<Rightarrow> 's ResourceStore \<Rightarrow> ListRequest \<Rightarrow> 's
    \<Rightarrow> api_error + AgentVersion ListResponse" where
  "AgentVersion_List T cd S req =
     handle_List S ''AgentVersion'' (resourceToAgentVersion T cd) (toListOptions (ls_Options req))"

definition AgentVersion_Watch ::
  "pb_time \<Rightarrow> (AgentVersionSpec, AgentVersionStatus) codec
    \<Rightarrow> (AgentVersion WatchEvent list \<Rightarrow> AgentVersion WatchEvent \<Rightarrow> api_error option)
    \<Rightarrow> watch_event list \<Rightarrow> AgentVersion WatchEvent list \<times> api_error option" where
  "AgentVersion_Watch T cd send ch = handle_Watch send (resourceToAgentVersion T cd) ch"

section \<open>Run\<close>

definition pending_status :: RunStatus where
  "pending_status = empty_RunStatus\<lparr>ru_Phase := RunPhase_RUN_PHASE_PENDING\<rparr>"

definition runToResource :: "(RunSpec, RunStatus) codec \<Rightarrow> Run \<Rightarrow> api_error + resource" where
  "runToResource cd r =
     (case resourceFromMeta ''Run'' (ob_Metadata r) of
        Inl err \<Rightarrow> Inl err
      | Inr res \<Rightarrow>
          if r_Colony res = '''' then Inl (invalidArgument ''api: metadata.colony is required'')
          else if RunSpec_GetAgentRef (ob_Spec r) = ''''
          then Inl (invalidArgument ''api: spec.agent_ref is required'')
          else (case marshalSpec (cd_MarshalSpec cd) (ob_Spec r) of
             Inl err \<Rightarrow> Inl err
           | Inr spec \<Rightarrow>
               (case marshalSpec (cd_MarshalStatus cd) (Some pending_status) of
                  Inl err \<Rightarrow> Inl err
                | Inr status \<Rightarrow> Inr (res\<lparr>r_Spec := spec, r_Status := status\<rparr>))))"

definition resourceToRun :: "pb_time \<Rightarrow> (RunSpec, RunStatus) codec \<Rightarrow> resource \<Rightarrow> string + Run" where
  "resourceToRun T cd r = resource_to_object T cd empty_RunSpec empty_RunStatus r"

definition Run_Apply ::
  "pb_time \<Rightarrow> (RunSpec, RunStatus) codec \<Rightarrow> 's ResourceStore \<Rightarrow> env \<Rightarrow> Run ApplyRequest \<Rightarrow> 's
    \<Rightarrow> (api_error + Run) \<times> 's" where
  "Run_Apply T cd S = handle_Apply S (runToResource cd) (resourceToRun T cd)"

definition Run_Get ::
  "pb_time \<Rightarrow> (RunSpec, RunStatus) codec \<Rightarrow> 's ResourceStore \<Rightarrow> GetRequest \<Rightarrow> 's \<Rightarrow> api_error + Run" where
  "Run_Get T cd S = handle_Get S ''Run'' (resourceToRun T cd)"

definition Run_List ::
  "pb_time \<Rightarrow> (RunSpec, RunStatus) codec \<Rightarrow> 's ResourceStore \<Rightarrow> ListRequest \<Rightarrow> 's
    \<Rightarrow> api_error + Run ListResponse" where
  "Run_List T cd S req = handle_List S ''Run'' (resourceToRun T cd) (toListOptions (ls_Options req))"

definition Run_Watch ::
  "pb_time \<Rightarrow> (RunSpec, RunStatus) codec \<Rightarrow> (Run WatchEvent list \<Rightarrow> Run WatchEvent \<Rightarrow> api_error option)
    \<Rightarrow> watch_event list \<Rightarrow> Run WatchEvent list \<times> api_error option" where
  "Run_Watch T cd send ch = handle_Watch send (resourceToRun T cd) ch"

definition Run_Logs :: api_error where
  "Run_Logs = ConnectError CodeUnimplemented
     ''api: Run logs are not available until the Executor and Scheduler exist''"

section \<open>Tool\<close>

definition toolToResource :: "(ToolSpec, ToolStatus) codec \<Rightarrow> Tool \<Rightarrow> api_error + resource" where
  "toolToResource cd t =
     (case resourceFromMeta ''Tool'' (ob_Metadata t) of
        Inl err \<Rightarrow> Inl err
      | Inr r \<Rightarrow>
          if r_Colony r = '''' then Inl (invalidArgument ''api: metadata.colony is required'')
          else
            (let spec = ob_Spec t; ty = ToolSpec_GetType spec;
                 bad = (if ty = ToolType_TOOL_TYPE_MCP then
                          (if ToolSpec_GetEndpoint spec = ''''
                           then Some ''api: spec.endpoint is required for TOOL_TYPE_MCP'' else None)
                        else if ty = ToolType_TOOL_TYPE_BUILTIN then
                          (if ToolSpec_GetBuiltin spec = ''''
                           then Some ''api: spec.builtin is required for TOOL_TYPE_BUILTIN'' else None)
                        else if ty = ToolType_TOOL_TYPE_AGENT then
                          (if ToolSpec_GetAgentRef spec = ''''
                           then Some ''api: spec.agent_ref is required for TOOL_TYPE_AGENT'' else None)
                        else Some ''api: spec.type is required'')
             in case bad of
                  Some msg \<Rightarrow> Inl (invalidArgument msg)
                | None \<Rightarrow>
                    (case marshalSpec (cd_MarshalSpec cd) spec of
                       Inl err \<Rightarrow> Inl err
                     | Inr specJSON \<Rightarrow> Inr (r\<lparr>r_Spec := specJSON\<rparr>))))"

definition resourceToTool :: "pb_time \<Rightarrow> (ToolSpec, ToolStatus) codec \<Rightarrow> resource \<Rightarrow> string + Tool" where
  "resourceToTool T cd r = resource_to_object T cd empty_ToolSpec empty_ToolStatus r"

definition Tool_Apply ::
  "pb_time \<Rightarrow> (ToolSpec, ToolStatus) codec \<Rightarrow> 's ResourceStore \<Rightarrow> env \<Rightarrow> Tool ApplyRequest \<Rightarrow> 's
    \<Rightarrow> (api_error + Tool) \<times> 's" where
  "Tool_Apply T cd S = handle_Apply S (toolToResource cd) (resourceToTool T cd)"

definition Tool_Get ::
  "pb_time \<Rightarrow> (ToolSpec, ToolStatus) codec \<Rightarrow> 's ResourceStore \<Rightarrow> GetRequest \<Rightarrow> 's \<Rightarrow> api_error + Tool" where
  "Tool_Get T cd S = handle_Get S ''Tool'' (resourceToTool T cd)"

definition Tool_List ::
  "pb_time \<Rightarrow> (ToolSpec, ToolStatus) codec \<Rightarrow> 's ResourceStore \<Rightarrow> ListRequest \<Rightarrow> 's
    \<Rightarrow> api_error + Tool ListResponse" where
  "Tool_List T cd S req = handle_List S ''Tool'' (resourceToTool T cd) (toListOptions (ls_Options req))"

definition Tool_Watch ::
  "pb_time \<Rightarrow> (ToolSpec, ToolStatus) codec \<Rightarrow> (Tool WatchEvent list \<Rightarrow> Tool WatchEvent \<Rightarrow> api_error option)
    \<Rightarrow> watch_event list \<Rightarrow> Tool WatchEvent list \<times> api_error option" where
  "Tool_Watch T cd send ch = handle_Watch send (resourceToTool T cd) ch"

section \<open>What the conversions keep\<close>

lemma resourceFromMeta_Inr:
  "resourceFromMeta kind om = Inr r \<longleftrightarrow> (\<exists>m. om = Some m \<and> om_Name m \<noteq> ''''
    \<and> r = empty_resource\<lparr>r_Kind := kind, r_APIVersion := DefaultAPIVersion, r_Colony := om_Colony m,
          r_Name := om_Name m, r_Labels := om_Labels m, r_Annotations := om_Annotations m\<rparr>)"
  by (auto simp: resourceFromMeta_def split: option.splits)

text \<open>
  The resource a kind's object becomes: its key, labels and annotations come from the
  metadata, its spec is the marshalled one, and no soft-deletion time is set.
\<close>

definition resource_of :: "string \<Rightarrow> ('spec option \<Rightarrow> string + string) \<Rightarrow> ('spec, 'status) object \<Rightarrow> resource \<Rightarrow> bool" where
  "resource_of kind marshal ob r \<longleftrightarrow> (\<exists>m js. ob_Metadata ob = Some m \<and> om_Name m \<noteq> ''''
     \<and> marshal (ob_Spec ob) = Inr js \<and> r_Kind r = kind \<and> r_APIVersion r = DefaultAPIVersion
     \<and> r_Colony r = om_Colony m \<and> r_Name r = om_Name m \<and> r_Labels r = om_Labels m
     \<and> r_Annotations r = om_Annotations m \<and> r_Spec r = Some js \<and> r_DeletedAt r = None)"

lemma resource_of_simps:
  assumes "resource_of kind marshal ob r"
  shows "r_Kind r = kind" "r_DeletedAt r = None" "marshal (ob_Spec ob) = Inr (bytes_of (r_Spec r))"
    "\<exists>m. ob_Metadata ob = Some m \<and> om_Colony m = r_Colony r \<and> om_Name m = r_Name r"
  using assms by (auto simp: resource_of_def bytes_of_def)

lemma marshalSpec_Inr [simp]: "marshalSpec f m = Inr b \<longleftrightarrow> (\<exists>js. f m = Inr js \<and> b = Some js)"
  by (auto simp: marshalSpec_def split: sum.splits)

lemma empty_resource_fields [simp]:
  "r_Status empty_resource = None" "r_DeletedAt empty_resource = None" "r_Spec empty_resource = None"
  by (simp_all add: empty_resource_def)

lemmas toResource_defs = colonyToResource_def agentToResource_def agentVersionToResource_def
  runToResource_def toolToResource_def

lemma colonyToResource_Inr:
  "colonyToResource cd ob = Inr r \<Longrightarrow> resource_of ''Colony'' (cd_MarshalSpec cd) ob r \<and> r_Status r = None"
  by (auto simp: colonyToResource_def resourceFromMeta_Inr resource_of_def split: sum.splits)

lemma agentToResource_Inr:
  "agentToResource cd ob = Inr r \<Longrightarrow> resource_of ''Agent'' (cd_MarshalSpec cd) ob r \<and> r_Status r = None"
  by (auto simp: agentToResource_def resourceFromMeta_Inr resource_of_def split: sum.splits if_splits)

lemma agentVersionToResource_Inr:
  "agentVersionToResource cd ob = Inr r \<Longrightarrow>
    resource_of ''AgentVersion'' (cd_MarshalSpec cd) ob r \<and> r_Status r = None"
  by (auto simp: agentVersionToResource_def resourceFromMeta_Inr resource_of_def split: sum.splits if_splits)

lemma runToResource_Inr:
  "runToResource cd ob = Inr r \<Longrightarrow> resource_of ''Run'' (cd_MarshalSpec cd) ob r
    \<and> (\<exists>js. cd_MarshalStatus cd (Some pending_status) = Inr js \<and> r_Status r = Some js)"
  by (auto simp: runToResource_def resourceFromMeta_Inr resource_of_def split: sum.splits if_splits)

lemma toolToResource_Inr:
  "toolToResource cd ob = Inr r \<Longrightarrow> resource_of ''Tool'' (cd_MarshalSpec cd) ob r \<and> r_Status r = None"
  by (auto simp: toolToResource_def resourceFromMeta_Inr resource_of_def Let_def
      split: sum.splits if_splits option.splits)

section \<open>Handlers over a store that keeps its contract\<close>

lemma handle_Apply_Inr:
  assumes "handle_Apply S toR fromR e req s = (Inr out, s')"
  obtains ob r saved where "ap_Object req = Some ob" "toR ob = Inr r"
    "rs_Apply S e r (ap_IfResourceVersion req) s = (Inr saved, s')" "fromR saved = Inr out"
  using assms by (auto simp: handle_Apply_def split: option.splits sum.splits prod.splits)

lemma handle_Apply_Inl:
  assumes "handle_Apply S toR fromR e req s = (Inl err, s')"
  obtains (request) "ap_Object req = None" "s' = s" "CodeOf err = CodeInvalidArgument"
  | (object) ob where "ap_Object req = Some ob" "toR ob = Inl err" "s' = s"
  | (store) ob r serr where "ap_Object req = Some ob" "toR ob = Inr r"
      "rs_Apply S e r (ap_IfResourceVersion req) s = (Inl serr, s')" "err = mapStoreErr serr"
  | (reply) ob r saved msg where "ap_Object req = Some ob" "toR ob = Inr r"
      "rs_Apply S e r (ap_IfResourceVersion req) s = (Inr saved, s')" "fromR saved = Inl msg"
      "err = ConnectError CodeInternal msg"
  using assms
  by (auto simp: handle_Apply_def invalidArgument_def split: option.splits sum.splits prod.splits)

context resource_store
begin

lemma handle_Apply_then_Get:
  assumes "inv s" "version s + 2 \<le> max_int64"
    and "\<And>ob r. toR ob = Inr r \<Longrightarrow> resource_of kind marshal ob r"
    and "handle_Apply S toR fromR e req s = (Inr out, s')"
  obtains ob m where "ap_Object req = Some ob" "ob_Metadata ob = Some m"
    "handle_Get S kind fromR \<lparr>gt_Colony = om_Colony m, gt_Name = om_Name m\<rparr> s' = Inr out"
  using assms(4)
proof (rule handle_Apply_Inr)
  fix ob r saved
  assume a: "ap_Object req = Some ob" "toR ob = Inr r"
    "rs_Apply S e r (ap_IfResourceVersion req) s = (Inr saved, s')" "fromR saved = Inr out"
  note r = resource_of_simps [OF assms(3) [OF a(2)]]
  have "rs_Get S (r_Kind r) (r_Colony r) (r_Name r) s' = Inr saved"
    by (rule get_after_apply [OF assms(1) r(2) assms(2) a(3)])
  with r a show thesis by (auto simp: handle_Get_def intro: that)
qed

text \<open>Applying over a live immutable resource either returns it or fails its precondition.\<close>

lemma handle_Apply_frozen:
  assumes "inv s" "ap_Object req = Some ob" "toR ob = Inr r" "live s (key_of r) = Some ex"
    and "IsImmutableKind (r_Kind r)" "fromR ex = Inr was"
  shows "if jsonEqual (r_Spec ex) (r_Spec r) then handle_Apply S toR fromR e req s = (Inr was, s)
    else \<exists>err. handle_Apply S toR fromR e req s = (Inl err, s) \<and> CodeOf err = CodeFailedPrecondition"
proof (cases "jsonEqual (r_Spec ex) (r_Spec r)")
  case True
  with apply_immutable [OF assms(1,4,5), of e "ap_IfResourceVersion req"] assms(2,3,6) show ?thesis
    by (simp add: handle_Apply_def)
next
  case False
  then obtain err where "rs_Apply S e r (ap_IfResourceVersion req) s = (Inl err, s)" "errors_Is err ErrImmutable"
    using apply_immutable [OF assms(1,4,5), of e "ap_IfResourceVersion req"] by auto
  with assms(2,3) False show ?thesis
    by (auto simp: handle_Apply_def mapStoreErr_code errors_Is_def)
qed

end

section \<open>Lists and watches\<close>

lemma convert_items_acc:
  "convert_items f rs items = (case convert_items f rs [] of Inl e \<Rightarrow> Inl e | Inr xs \<Rightarrow> Inr (items @ xs))"
proof (induction rs arbitrary: items)
  case Nil
  then show ?case by simp
next
  case (Cons r rs)
  show ?case
  proof (cases "f r")
    case (Inl e)
    then show ?thesis by simp
  next
    case (Inr c)
    then show ?thesis
      using Cons [of "items @ [c]"] Cons [of "[c]"] by (simp split: sum.splits)
  qed
qed

lemma convert_items_map:
  "(\<And>r. r \<in> set rs \<Longrightarrow> f r = Inr (g r)) \<Longrightarrow> convert_items f rs items = Inr (items @ map g rs)"
  by (induction rs arbitrary: items) auto

lemma watch_event_out_some: "watch_event_out f ev = Inr out \<Longrightarrow> out \<noteq> None"
  by (auto simp: watch_event_out_def Let_def split: if_splits sum.splits)

end
