(* ===== verification/ApiServer.thy ===== *)
theory ApiServer
  imports ApiHandlers
begin

text \<open>
  The event handler (\<open>internal/api/event.go\<close>), the interceptor every RPC goes through
  (\<open>interceptors.go\<close>), the principal of \<open>internal/identity/stub.go\<close>, and the mux with its
  health endpoints (\<open>server.go\<close>).
\<close>

section \<open>EventHandler\<close>

text \<open>\<open>protojson\<close> on a payload: a parameter, as in theory \<open>ApiConvert\<close>.\<close>

record payload_codec =
  pc_Marshal :: "Struct option \<Rightarrow> string + string"
  pc_Unmarshal :: "string \<Rightarrow> string + Struct"

definition empty_event :: event where
  "empty_event = \<lparr>e_Colony = '''', e_Run = '''', e_Seq = 0, e_Type = '''', e_TS = 0,
     e_Payload = None, e_ResourceVersion = 0\<rparr>"

definition eventToStoreEvent :: "pb_time \<Rightarrow> payload_codec \<Rightarrow> pb_Event \<Rightarrow> api_error + event" where
  "eventToStoreEvent T pc e =
     (if ev_Colony e = '''' \<or> ev_Run e = '''' \<or> ev_Type e = ''''
      then Inl (invalidArgument ''api: colony, run, and type are required'')
      else (case marshalSpec (pc_Marshal pc) (ev_Payload e) of
         Inl err \<Rightarrow> Inl err
       | Inr payload \<Rightarrow>
           Inr (empty_event\<lparr>e_Colony := ev_Colony e, e_Run := ev_Run e, e_Type := ev_Type e,
                  e_TS := fromTimestamp T (ev_Ts e), e_Payload := payload\<rparr>)))"

definition storeEventToEvent :: "pb_time \<Rightarrow> payload_codec \<Rightarrow> event \<Rightarrow> string + pb_Event" where
  "storeEventToEvent T pc e =
     (case unmarshalSpec (pc_Unmarshal pc) [] (e_Payload e) of
        Inl err \<Rightarrow> Inl err
      | Inr payload \<Rightarrow>
          Inr \<lparr>ev_Colony = e_Colony e, ev_Run = e_Run e, ev_Seq = e_Seq e, ev_Type = e_Type e,
            ev_Ts = toTimestamp T (e_TS e), ev_Payload = Some payload,
            ev_ResourceVersion = e_ResourceVersion e\<rparr>)"

definition Event_Append ::
  "pb_time \<Rightarrow> payload_codec \<Rightarrow> 's EventStore \<Rightarrow> env \<Rightarrow> pb_Event option \<Rightarrow> 's
    \<Rightarrow> (api_error + pb_Event) \<times> 's" where
  "Event_Append T pc E e obj s =
     (case obj of
        None \<Rightarrow> (Inl (invalidArgument ''api: object is required''), s)
      | Some ob \<Rightarrow>
          (case eventToStoreEvent T pc ob of
             Inl err \<Rightarrow> (Inl err, s)
           | Inr ev \<Rightarrow>
               (case es_Append E e ev s of
                  (Inl err, s') \<Rightarrow> (Inl (mapStoreErr err), s')
                | (Inr saved, s') \<Rightarrow>
                    (case storeEventToEvent T pc saved of
                       Inl err \<Rightarrow> (Inl (ConnectError CodeInternal err), s')
                     | Inr out \<Rightarrow> (Inr out, s')))))"

fun convert_events :: "(event \<Rightarrow> string + pb_Event) \<Rightarrow> event list \<Rightarrow> pb_Event list \<Rightarrow> api_error + pb_Event list" where
  "convert_events f [] items = Inr items"
| "convert_events f (e # es) items =
     (case f e of
        Inl err \<Rightarrow> Inl (ConnectError CodeInternal err)
      | Inr out \<Rightarrow> convert_events f es (items @ [out]))"

definition Event_List ::
  "pb_time \<Rightarrow> payload_codec \<Rightarrow> 's EventStore \<Rightarrow> ListEventsRequest \<Rightarrow> 's \<Rightarrow> api_error + pb_Event list" where
  "Event_List T pc E req s =
     (case es_ListEvents E (le_req_Colony req) (le_req_Run req) (le_req_SinceSeq req) (le_req_Limit req) s of
        Inl err \<Rightarrow> Inl (mapStoreErr err)
      | Inr events \<Rightarrow> convert_events (storeEventToEvent T pc) events [])"

text \<open>The stream: the loop of \<open>Watch\<close> on the events the store's channel gave.\<close>

definition Event_Watch ::
  "pb_time \<Rightarrow> payload_codec \<Rightarrow> (pb_Event list \<Rightarrow> pb_Event \<Rightarrow> api_error option) \<Rightarrow> event list
    \<Rightarrow> pb_Event list \<times> api_error option" where
  "Event_Watch T pc send ch =
     watchLoop send (\<lambda>e. map_sum id Some (storeEventToEvent T pc e)) ch []"

lemma eventToStoreEvent_Inr:
  "eventToStoreEvent T pc e = Inr ev \<Longrightarrow> ev_Colony e \<noteq> '''' \<and> ev_Run e \<noteq> '''' \<and> ev_Type e \<noteq> ''''
    \<and> e_Colony ev = ev_Colony e \<and> e_Run ev = ev_Run e \<and> e_Type ev = ev_Type e
    \<and> (\<exists>js. pc_Marshal pc (ev_Payload e) = Inr js \<and> e_Payload ev = Some js)"
  by (auto simp: eventToStoreEvent_def split: if_splits sum.splits)

lemma convert_events_map:
  "(\<And>e. e \<in> set es \<Longrightarrow> f e = Inr (g e)) \<Longrightarrow> convert_events f es items = Inr (items @ map g es)"
  by (induction es arbitrary: items) auto

section \<open>Identity\<close>

record Principal =
  pr_Subject :: string
  pr_Colony :: string

text \<open>A request context as far as the server uses it: the principal it carries.\<close>

type_synonym ctx = "Principal option"

definition WithPrincipal :: "ctx \<Rightarrow> Principal \<Rightarrow> ctx" where
  "WithPrincipal c p = Some p"

definition PrincipalFromContext :: "ctx \<Rightarrow> Principal \<times> bool" where
  "PrincipalFromContext c =
     (case c of Some p \<Rightarrow> (p, True) | None \<Rightarrow> (\<lparr>pr_Subject = '''', pr_Colony = ''''\<rparr>, False))"

type_synonym verifier = "ctx \<Rightarrow> string \<Rightarrow> string + Principal"

definition StubVerifier :: verifier where
  "StubVerifier c token = Inr \<lparr>pr_Subject = ''dev'', pr_Colony = ''''\<rparr>"

section \<open>The interceptor\<close>

fun strings_HasPrefix :: "string \<Rightarrow> string \<Rightarrow> bool" where
  "strings_HasPrefix s [] = True"
| "strings_HasPrefix [] (p # ps) = False"
| "strings_HasPrefix (c # cs) (p # ps) = (c = p \<and> strings_HasPrefix cs ps)"

definition strings_TrimPrefix :: "string \<Rightarrow> string \<Rightarrow> string" where
  "strings_TrimPrefix s p = (if strings_HasPrefix s p then drop (length p) s else s)"

definition authenticate :: "verifier \<Rightarrow> ctx \<Rightarrow> string \<Rightarrow> api_error + ctx" where
  "authenticate V c authHeader =
     (let token = strings_TrimPrefix authHeader ''Bearer '' in
      case V c token of
        Inl err \<Rightarrow> Inl (ConnectError CodeUnauthenticated err)
      | Inr p \<Rightarrow> Inr (WithPrincipal c p))"

text \<open>The interceptor's fields; its logger has no part in the answers.\<close>

record serverInterceptor =
  si_verifier :: verifier

definition newServerInterceptor :: "verifier \<Rightarrow> serverInterceptor" where
  "newServerInterceptor V = \<lparr>si_verifier = V\<rparr>"

text \<open>The Keeper is no client: a streaming client passes through.\<close>

definition WrapStreamingClient :: "serverInterceptor \<Rightarrow> 'f \<Rightarrow> 'f" where
  "WrapStreamingClient si next = next"

text \<open>\<open>Code.String()\<close> of the codes the Keeper returns.\<close>

fun code_string :: "connect_code \<Rightarrow> string" where
  "code_string CodeUnknown = ''unknown''"
| "code_string CodeInvalidArgument = ''invalid_argument''"
| "code_string CodeNotFound = ''not_found''"
| "code_string CodeAborted = ''aborted''"
| "code_string CodeFailedPrecondition = ''failed_precondition''"
| "code_string CodeInternal = ''internal''"
| "code_string CodeUnauthenticated = ''unauthenticated''"
| "code_string CodeUnimplemented = ''unimplemented''"

text \<open>\<open>hived_keeper_rpc_total\<close>: a counter per procedure and code.\<close>

type_synonym rpc_total = "string \<times> string \<Rightarrow> nat"

definition observe :: "string \<Rightarrow> api_error option \<Rightarrow> rpc_total \<Rightarrow> rpc_total" where
  "observe procedure err m =
     (let code = (case err of None \<Rightarrow> ''ok'' | Some e \<Rightarrow> code_string (CodeOf e))
      in m((procedure, code) := m (procedure, code) + 1))"

text \<open>How a handler ends: with its result, or in a panic.\<close>

datatype 'r outcome = Returned 'r | Panicked string

text \<open>
  \<open>WrapUnary\<close>: the deferred function turns a panic into an \<open>Internal\<close> error and counts the
  call, on every path. The handler takes the context and the service's state; the state a
  panicking handler leaves is whatever it had written.
\<close>

definition WrapUnary ::
  "verifier \<Rightarrow> (ctx \<Rightarrow> 'q \<Rightarrow> 's \<Rightarrow> (api_error + 'r) outcome \<times> 's) \<Rightarrow> string \<Rightarrow> ctx \<Rightarrow> string \<Rightarrow> 'q
    \<Rightarrow> 's \<times> rpc_total \<Rightarrow> (api_error + 'r) \<times> 's \<times> rpc_total" where
  "WrapUnary V next procedure c authHeader req st =
     (case st of (s, m) \<Rightarrow>
       (case authenticate V c authHeader of
          Inl err \<Rightarrow> (Inl err, s, observe procedure (Some err) m)
        | Inr c' \<Rightarrow>
            (case next c' req s of
               (Panicked p, s') \<Rightarrow>
                 (let err = ConnectError CodeInternal (''panic: '' @ p)
                  in (Inl err, s', observe procedure (Some err) m))
             | (Returned (Inl err), s') \<Rightarrow> (Inl err, s', observe procedure (Some err) m)
             | (Returned (Inr resp), s') \<Rightarrow> (Inr resp, s', observe procedure None m))))"

text \<open>\<open>WrapStreamingHandler\<close>: the same around a stream, which returns an error or nothing.\<close>

definition WrapStreamingHandler ::
  "verifier \<Rightarrow> (ctx \<Rightarrow> 's \<Rightarrow> api_error option outcome \<times> 's) \<Rightarrow> string \<Rightarrow> ctx \<Rightarrow> string
    \<Rightarrow> 's \<times> rpc_total \<Rightarrow> api_error option \<times> 's \<times> rpc_total" where
  "WrapStreamingHandler V next procedure c authHeader st =
     (case st of (s, m) \<Rightarrow>
       (case authenticate V c authHeader of
          Inl err \<Rightarrow> (Some err, s, observe procedure (Some err) m)
        | Inr c' \<Rightarrow>
            (case next c' s of
               (Panicked p, s') \<Rightarrow>
                 (let err = ConnectError CodeInternal (''panic: '' @ p)
                  in (Some err, s', observe procedure (Some err) m))
             | (Returned err, s') \<Rightarrow> (err, s', observe procedure err m))))"

section \<open>The mux\<close>

text \<open>An HTTP answer of the two plain endpoints.\<close>

record http_response =
  hr_Status :: int
  hr_ContentType :: string
  hr_Body :: string

text \<open>\<open>json.NewEncoder(w).Encode\<close> writes the value and a newline.\<close>

definition writeJSON :: "int \<Rightarrow> str_map \<Rightarrow> http_response" where
  "writeJSON status body =
     \<lparr>hr_Status = status, hr_ContentType = ''application/json'', hr_Body = marshal_string_map body @ [CHR 0x0A]\<rparr>"

definition healthz :: http_response where
  "healthz = writeJSON 200 (fmap_of_list [(''status'', ''ok'')])"

text \<open>\<open>ready\<close>: the \<open>ReadyFunc\<close>, if there is one, with the error it returns, if any.\<close>

definition readyz :: "string option option \<Rightarrow> http_response" where
  "readyz ready =
     (case ready of
        Some (Some err) \<Rightarrow> writeJSON 503 (fmap_of_list [(''status'', ''not ready''), (''error'', err)])
      | _ \<Rightarrow> writeJSON 200 (fmap_of_list [(''status'', ''ready'')]))"

text \<open>The services mounted on the mux, all behind the one interceptor; theory \<open>Routing\<close> has their paths.\<close>

datatype service = ColonyService | AgentService | AgentVersionService | RunService | ToolService | EventService

section \<open>What the interceptor guarantees\<close>

lemma WrapUnary_counts:
  "\<exists>code. snd (snd (WrapUnary V next procedure c h req (s, m)))
      = m((procedure, code) := m (procedure, code) + 1)
    \<and> code = (case fst (WrapUnary V next procedure c h req (s, m)) of
        Inl e \<Rightarrow> code_string (CodeOf e) | Inr _ \<Rightarrow> ''ok'')"
  by (auto simp: WrapUnary_def observe_def Let_def split: sum.splits outcome.splits prod.splits)

lemma WrapStreamingHandler_counts:
  "\<exists>code. snd (snd (WrapStreamingHandler V stream procedure c h (s, m)))
      = m((procedure, code) := m (procedure, code) + 1)
    \<and> code = (case fst (WrapStreamingHandler V stream procedure c h (s, m)) of
        Some e \<Rightarrow> code_string (CodeOf e) | None \<Rightarrow> ''ok'')"
  by (auto simp: WrapStreamingHandler_def observe_def Let_def split: sum.splits outcome.splits prod.splits option.splits)

lemma strings_HasPrefix_iff: "strings_HasPrefix s p \<longleftrightarrow> (\<exists>t. s = p @ t)"
  by (induction s p rule: strings_HasPrefix.induct) auto

lemma strings_TrimPrefix_append [simp]: "strings_TrimPrefix (p @ t) p = t"
  by (simp add: strings_TrimPrefix_def strings_HasPrefix_iff)

end
