(* ===== verification/ApiProps.thy ===== *)
theory ApiProps
  imports Samples ApiServer
begin

text \<open>
  The properties of the API layer over the two stores: read-your-write, immutability and
  error codes on the wire, validation, server-owned fields, streams and the interceptor.
\<close>

section \<open>Concrete inputs\<close>

definition sample_time :: pb_time where
  "sample_time = \<lparr>pb_New = (\<lambda>t. (t div 1000000000, t mod 1000000000)), pb_AsTime = (\<lambda>(s, n). s * 1000000000 + n)\<rparr>"

text \<open>A codec that knows one message, printed as the empty object.\<close>

definition sample_codec :: "'spec \<Rightarrow> 'status \<Rightarrow> ('spec, 'status) codec" where
  "sample_codec sp st = \<lparr>cd_MarshalSpec = (\<lambda>_. Inr ''{}''), cd_UnmarshalSpec = (\<lambda>_. Inr sp),
     cd_MarshalStatus = (\<lambda>_. Inr ''{}''), cd_UnmarshalStatus = (\<lambda>_. Inr st)\<rparr>"

definition sample_meta :: ObjectMeta where
  "sample_meta = \<lparr>om_Name = ''a'', om_Colony = ''c'', om_Uid = '''', om_Generation = 0, om_ResourceVersion = 0,
     om_Labels = fmempty, om_Annotations = fmempty, om_CreatedAt = None, om_UpdatedAt = None, om_DeletedAt = None\<rparr>"

definition sample_request :: "'spec \<Rightarrow> ('spec, 'status) object ApplyRequest" where
  "sample_request sp = \<lparr>ap_Object = Some \<lparr>ob_Metadata = Some sample_meta, ob_Spec = Some sp, ob_Status = None\<rparr>,
     ap_IfResourceVersion = None\<rparr>"

text \<open>The request that reads what an apply request names.\<close>

definition named :: "('spec, 'status) object ApplyRequest \<Rightarrow> GetRequest" where
  "named req = (case ap_Object req of
     Some ob \<Rightarrow> (case ob_Metadata ob of
       Some m \<Rightarrow> \<lparr>gt_Colony = om_Colony m, gt_Name = om_Name m\<rparr>
     | None \<Rightarrow> \<lparr>gt_Colony = '''', gt_Name = ''''\<rparr>)
   | None \<Rightarrow> \<lparr>gt_Colony = '''', gt_Name = ''''\<rparr>)"

lemma named_simps: "ap_Object req = Some ob \<Longrightarrow> ob_Metadata ob = Some m \<Longrightarrow>
    named req = \<lparr>gt_Colony = om_Colony m, gt_Name = om_Name m\<rparr>"
  by (simp add: named_def)

section \<open>Reads and writes on the wire\<close>

lemma pg_apply_get:
  assumes "pg_inv eng s" "p_counter s + 2 \<le> max_int64"
    and "\<And>ob r. toR ob = Inr r \<Longrightarrow> resource_of kind marshal ob r"
    and "handle_Apply (pg_ResourceStore eng) toR fromR e req s = (Inr out, s')"
  shows "handle_Get (pg_ResourceStore eng) kind fromR (named req) s' = Inr out"
  using pg.handle_Apply_then_Get [OF assms(1,2), of toR kind marshal] assms(3,4) named_simps by metis

text \<open>
  On the Keeper's API over PostgreSQL, what a successful Apply of an Agent, an
  AgentVersion, a Run or a Tool answers is what a Get of the same name answers next.
\<close>

lemma api_read_your_write:
  assumes "pg_inv eng s" "p_counter s + 2 \<le> max_int64"
  shows "(Agent_Apply T cda (pg_ResourceStore eng) e areq s = (Inr aout, s') \<longrightarrow>
      Agent_Get T cda (pg_ResourceStore eng) (named areq) s' = Inr aout)
    \<and> (AgentVersion_Apply T cdv (pg_ResourceStore eng) e vreq s = (Inr vout, s') \<longrightarrow>
      AgentVersion_Get T cdv (pg_ResourceStore eng) (named vreq) s' = Inr vout)
    \<and> (Run_Apply T cdr (pg_ResourceStore eng) e rreq s = (Inr rout, s') \<longrightarrow>
      Run_Get T cdr (pg_ResourceStore eng) (named rreq) s' = Inr rout)
    \<and> (Tool_Apply T cdt (pg_ResourceStore eng) e treq s = (Inr tout, s') \<longrightarrow>
      Tool_Get T cdt (pg_ResourceStore eng) (named treq) s' = Inr tout)"
  unfolding Agent_Apply_def Agent_Get_def AgentVersion_Apply_def AgentVersion_Get_def
    Run_Apply_def Run_Get_def Tool_Apply_def Tool_Get_def
  using pg_apply_get [OF assms, OF conjunct1 [OF agentToResource_Inr]]
    pg_apply_get [OF assms, OF conjunct1 [OF agentVersionToResource_Inr]]
    pg_apply_get [OF assms, OF conjunct1 [OF runToResource_Inr]]
    pg_apply_get [OF assms, OF conjunct1 [OF toolToResource_Inr]]
  by (intro conjI impI)

lemma sample_agent_apply:
  "\<exists>out s'. Agent_Apply sample_time (sample_codec empty_AgentSpec empty_AgentStatus) (pg_ResourceStore plain_engine)
      env_a (sample_request empty_AgentSpec) init_postgres = (Inr out, s')"
    by (simp add: Agent_Apply_def handle_Apply_def sample_request_def sample_meta_def agentToResource_def
      resourceFromMeta_def sample_codec_def marshalSpec_def pg_ResourceStore_def pg_Apply_def pg_applyMutable_def
      sample_defs init_postgres_def insert_row_eq jsonbBytes_def blen_def bytes_of_def
      api_version_of_def pageTokenSep_def hived_next_resource_version_def DefaultAPIVersion_def key_of_def
      IsImmutableKind_def ImmutableKinds_def resourceToAgent_def resource_to_object_def unmarshalSpec_def Let_def)

lemma object_meta_fields:
  "om_Uid (toObjectMeta T r) = r_UID r" "om_Generation (toObjectMeta T r) = r_Generation r"
  "om_Labels (toObjectMeta T r) = r_Labels r"
  by (simp_all add: toObjectMeta_def Let_def split: option.splits)

text \<open>
  C35: an AgentVersion is frozen on the wire. Once a Get has answered it, every later Get,
  whatever clients wrote in between, answers it with the same spec, UID, generation and labels,
  and the very same message when no status was written to it; the only other answer there is
  is \<open>internal\<close>, after an \<open>ApplyStatus\<close> stored a status that \<open>protojson\<close> cannot read.
\<close>

theorem agent_version_frozen:
  assumes "\<forall>w\<in>set (ws @ ws'). client_op w" "room 0 (ws @ ws')"
    and "AgentVersion_Get T cd (pg_ResourceStore eng) req (pg_after eng ws) = Inr was"
  shows "(\<exists>now. AgentVersion_Get T cd (pg_ResourceStore eng) req (pg_after eng (ws @ ws')) = Inr now
        \<and> ob_Spec now = ob_Spec was
        \<and> map_option om_Uid (ob_Metadata now) = map_option om_Uid (ob_Metadata was)
        \<and> map_option om_Generation (ob_Metadata now) = map_option om_Generation (ob_Metadata was)
        \<and> map_option om_Labels (ob_Metadata now) = map_option om_Labels (ob_Metadata was)
        \<and> ((\<forall>e q. OpStatus e q \<in> set ws' \<longrightarrow> key_of q \<noteq> (''AgentVersion'', gt_Colony req, gt_Name req)) \<longrightarrow> now = was))
    \<or> (\<exists>e q r err. OpStatus e q \<in> set ws' \<and> key_of q = (''AgentVersion'', gt_Colony req, gt_Name req)
        \<and> pg_Get eng ''AgentVersion'' (gt_Colony req) (gt_Name req) (pg_after eng (ws @ ws')) = Inr r
        \<and> unmarshalSpec (cd_UnmarshalStatus cd) empty_AgentVersionStatus (r_Status r) = Inl err
        \<and> AgentVersion_Get T cd (pg_ResourceStore eng) req (pg_after eng (ws @ ws')) = Inl (ConnectError CodeInternal err))"
proof -
  let ?k = "(''AgentVersion'', gt_Colony req, gt_Name req)" and ?s = "pg_after eng (ws @ ws')"
  have "room 0 ws" using assms(2) by (auto simp: room_def)
  then have i: "pg_inv eng (pg_after eng ws)" "p_counter (pg_after eng ws) \<le> 2 * int (length ws)"
    using pg_after_inv [of ws eng] assms(1) by auto
  have i': "pg_inv eng ?s" using pg_after_inv assms(1,2) by blast
  obtain ex where ex: "pg_live (pg_after eng ws) ?k = Some ex" "resourceToAgentVersion T cd ex = Inr was"
    using assms(3) pg_Get_live [OF i(1)]
    by (auto simp: AgentVersion_Get_def handle_Get_def pg_ResourceStore_def split: sum.splits)
  have rm: "room (p_counter (pg_after eng ws)) ws'" using room_append [OF assms(2)] i(2) by simp
  have imm: "IsImmutableKind (fst ?k)" by (simp add: IsImmutableKind_def ImmutableKinds_def)
  from pg.op_run_frozen [OF i(1) _ rm ex(1) imm] assms(1) obtain r where r: "pg_live ?s ?k = Some r"
    "r = ex\<lparr>r_Status := r_Status r, r_ResourceVersion := r_ResourceVersion r, r_UpdatedAt := r_UpdatedAt r\<rparr>"
    "(\<forall>e q. OpStatus e q \<in> set ws' \<longrightarrow> key_of q \<noteq> ?k) \<longrightarrow> r = ex"
    by (auto simp: pg_after_append)
  have get: "pg_Get eng ''AgentVersion'' (gt_Colony req) (gt_Name req) ?s = Inr r"
    using pg.get_live [OF i' r(1)] by (simp add: pg_ResourceStore_def)
  have same: "r_Spec r = r_Spec ex" "r_UID r = r_UID ex" "r_Generation r = r_Generation ex" "r_Labels r = r_Labels ex"
    by (subst r(2), simp)+
  obtain sp where sp: "unmarshalSpec (cd_UnmarshalSpec cd) empty_AgentVersionSpec (r_Spec r) = Inr sp" "ob_Spec was = Some sp"
    "ob_Metadata was = Some (toObjectMeta T ex)"
    using resource_to_object_Inr [OF ex(2) [unfolded resourceToAgentVersion_def]] same(1) by auto
  have answer: "AgentVersion_Get T cd (pg_ResourceStore eng) req ?s = (case resourceToAgentVersion T cd r of
      Inl err \<Rightarrow> Inl (ConnectError CodeInternal err) | Inr out \<Rightarrow> Inr out)"
    using get by (simp add: AgentVersion_Get_def handle_Get_def pg_ResourceStore_def)
  show ?thesis
  proof (cases "unmarshalSpec (cd_UnmarshalStatus cd) empty_AgentVersionStatus (r_Status r)")
    case (Inl err)
    have "r \<noteq> ex" using Inl ex(2) by (auto simp: resourceToAgentVersion_def resource_to_object_def split: sum.splits)
    then show ?thesis using Inl r(3) get answer sp(1)
      by (auto simp: resourceToAgentVersion_def resource_to_object_def)
  next
    case (Inr st)
    then have "resourceToAgentVersion T cd r = Inr \<lparr>ob_Metadata = Some (toObjectMeta T r), ob_Spec = Some sp, ob_Status = Some st\<rparr>"
      using sp(1) by (simp add: resourceToAgentVersion_def resource_to_object_def)
    moreover have "r = ex \<Longrightarrow> resourceToAgentVersion T cd r = Inr was" using ex(2) by simp
    ultimately show ?thesis
      using r(3) answer sp(2,3) same object_meta_fields by (intro disjI1) auto
  qed
qed

lemma pg_row_v: "pg_after plain_engine writes_v =
   \<lparr>p_rows = [((''AgentVersion'', ''c'', ''a''), version_a\<lparr>r_APIVersion := DefaultAPIVersion, r_UID := ''u1'',
        r_Generation := 1, r_ResourceVersion := 1, r_Status := Some ''{}'', r_CreatedAt := 7, r_UpdatedAt := 7\<rparr>)],
    p_counter = 1, p_events = [], p_event_id = 0\<rparr>"
  by (simp add: pg_after_def writes_v_def op_step_def pg_ResourceStore_def pg_Apply_def pg_applyImmutable_def
      pg_insertImmutable_def pg_Get_def sample_defs init_postgres_def insert_row_eq jsonbBytes_def
      blen_def bytes_of_def api_version_of_def pageTokenSep_def hived_next_resource_version_def
      DefaultAPIVersion_def key_of_def IsImmutableKind_def ImmutableKinds_def Let_def)

lemma pg_get_v: "AgentVersion_Get sample_time (sample_codec empty_AgentVersionSpec empty_AgentVersionStatus)
    (pg_ResourceStore plain_engine) \<lparr>gt_Colony = ''c'', gt_Name = ''a''\<rparr> (pg_after plain_engine writes_v) =
  Inr \<lparr>ob_Metadata = Some (toObjectMeta sample_time (version_a\<lparr>r_APIVersion := DefaultAPIVersion, r_UID := ''u1'',
        r_Generation := 1, r_ResourceVersion := 1, r_Status := Some ''{}'', r_CreatedAt := 7, r_UpdatedAt := 7\<rparr>)),
      ob_Spec = Some empty_AgentVersionSpec, ob_Status = Some empty_AgentVersionStatus\<rparr>"
  unfolding pg_row_v
  by (simp add: AgentVersion_Get_def handle_Get_def pg_ResourceStore_def pg_Get_def sample_defs pageTokenSep_def
      resourceToAgentVersion_def resource_to_object_def unmarshalSpec_def blen_def bytes_of_def sample_codec_def)

theorem agent_version_frozen_witness:
  "\<exists>now. AgentVersion_Get sample_time (sample_codec empty_AgentVersionSpec empty_AgentVersionStatus)
      (pg_ResourceStore plain_engine) \<lparr>gt_Colony = ''c'', gt_Name = ''a''\<rparr> (pg_after plain_engine (writes_v @ writes_v2)) = Inr now
    \<and> ob_Spec now = Some empty_AgentVersionSpec \<and> map_option om_Generation (ob_Metadata now) = Some 1"
proof -
  have "\<forall>w\<in>set (writes_v @ writes_v2). client_op w" by (simp add: ball_Un)
  moreover have "room 0 (writes_v @ writes_v2)" by (simp add: room_def writes_v_def writes_v2_def)
  moreover have "\<not> (\<exists>e q. OpStatus e q \<in> set writes_v2)" by (auto simp: writes_v2_def)
  ultimately show ?thesis
    using agent_version_frozen [OF _ _ pg_get_v, of writes_v2] by (auto simp: toObjectMeta_def Let_def split: option.splits)
qed

text \<open>
  C37: applying over an existing AgentVersion on PostgreSQL either answers the stored one,
  when the spec is the same document, or fails with \<open>failed_precondition\<close>; nothing is written.
\<close>

theorem agent_version_apply_over:
  assumes "pg_inv eng s" "ap_Object req = Some ob" "agentVersionToResource cd ob = Inr r"
    and "pg_Get eng ''AgentVersion'' (r_Colony r) (r_Name r) s = Inr ex" "resourceToAgentVersion T cd ex = Inr was"
  shows "if jsonEqual (r_Spec ex) (r_Spec r)
    then AgentVersion_Apply T cd (pg_ResourceStore eng) e req s = (Inr was, s)
    else \<exists>err. AgentVersion_Apply T cd (pg_ResourceStore eng) e req s = (Inl err, s)
      \<and> CodeOf err = CodeFailedPrecondition"
proof -
  have k: "r_Kind r = ''AgentVersion''"
    using resource_of_simps(1) [OF agentVersionToResource_Inr [OF assms(3), THEN conjunct1]] .
  then have "pg_live s (key_of r) = Some ex" using assms(4) pg_Get_live [OF assms(1)] by (simp add: key_of_def)
  moreover have "IsImmutableKind (r_Kind r)" using k by (simp add: IsImmutableKind_def ImmutableKinds_def)
  ultimately show ?thesis
    unfolding AgentVersion_Apply_def
    using pg.handle_Apply_frozen [OF assms(1,2), where toR = "agentVersionToResource cd"
      and fromR = "resourceToAgentVersion T cd" and ex = ex, OF assms(3) _ _ assms(5)] by blast
qed

theorem agent_version_apply_over_witness:
  "\<exists>was. AgentVersion_Apply sample_time (sample_codec empty_AgentVersionSpec empty_AgentVersionStatus)
      (pg_ResourceStore plain_engine) env_b (sample_request (empty_AgentVersionSpec\<lparr>av_Agent := ''a''\<rparr>))
      (pg_after plain_engine writes_v) = (Inr was, pg_after plain_engine writes_v)"
proof -
  let ?cd = "sample_codec empty_AgentVersionSpec empty_AgentVersionStatus"
  let ?req = "sample_request (empty_AgentVersionSpec\<lparr>av_Agent := ''a''\<rparr>) :: AgentVersion ApplyRequest"
  let ?ob = "the (ap_Object ?req)" and ?s = "pg_after plain_engine writes_v"
  let ?r = "empty_resource\<lparr>r_Kind := ''AgentVersion'', r_APIVersion := DefaultAPIVersion, r_Colony := ''c'',
      r_Name := ''a'', r_Labels := fmempty, r_Annotations := fmempty, r_Spec := Some ''{}''\<rparr>"
  let ?ex = "version_a\<lparr>r_APIVersion := DefaultAPIVersion, r_UID := ''u1'',
        r_Generation := 1, r_ResourceVersion := 1, r_Status := Some ''{}'', r_CreatedAt := 7, r_UpdatedAt := 7\<rparr>"
  have 1: "ap_Object ?req = Some ?ob" by (simp add: sample_request_def)
  have 2: "agentVersionToResource ?cd ?ob = Inr ?r"
    by (simp add: sample_request_def sample_meta_def agentVersionToResource_def resourceFromMeta_def
      AgentVersionSpec_GetAgent_def sample_codec_def marshalSpec_def empty_resource_def)
  have 3: "pg_Get plain_engine ''AgentVersion'' (r_Colony ?r) (r_Name ?r) ?s = Inr ?ex"
    unfolding pg_row_v by (simp add: pg_Get_def sample_defs pageTokenSep_def)
  obtain was where 4: "resourceToAgentVersion sample_time ?cd ?ex = Inr was"
    by (simp add: resourceToAgentVersion_def resource_to_object_def unmarshalSpec_def blen_def bytes_of_def
      sample_codec_def sample_defs)
  have i: "pg_inv plain_engine ?s" by (rule pg_after_inv) simp_all
  have "jsonEqual (r_Spec ?ex) (r_Spec ?r)" by code_simp
  with agent_version_apply_over [OF i 1 2 3 4, of env_b] show ?thesis by auto
qed

text \<open>
  Each failure of the store reaches the caller under its own code: a missing resource as
  \<open>not_found\<close>, a stale version as \<open>aborted\<close>, a bad page token as \<open>invalid_argument\<close>, and in
  these cases nothing is written.
\<close>

theorem rpc_error_codes:
  shows "(mem_live m (''Agent'', gt_Colony gr, gt_Name gr) = None \<longrightarrow>
      (\<exists>err. Agent_Get T cd mem_ResourceStore gr m = Inl err \<and> CodeOf err = CodeNotFound))
    \<and> (agentToResource cd ob = Inr r \<and> mem_live m (key_of r) = Some ex \<and> v \<noteq> r_ResourceVersion ex \<longrightarrow>
      (\<exists>err. Agent_Apply T cd mem_ResourceStore e \<lparr>ap_Object = Some ob, ap_IfResourceVersion = Some v\<rparr> m = (Inl err, m)
        \<and> CodeOf err = CodeAborted))
    \<and> (decodePageToken (lo_PageToken (toListOptions (ls_Options lr))) = Inl terr \<longrightarrow>
      (\<exists>err. Agent_List T cd mem_ResourceStore lr m = Inl err \<and> CodeOf err = CodeInvalidArgument))"
proof (intro conjI impI)
  assume "mem_live m (''Agent'', gt_Colony gr, gt_Name gr) = None"
  then show "\<exists>err. Agent_Get T cd mem_ResourceStore gr m = Inl err \<and> CodeOf err = CodeNotFound"
    by (simp add: Agent_Get_def handle_Get_def mem_ResourceStore_def mem_Get_def mem_live_def mapStoreErr_code)
next
  assume a: "agentToResource cd ob = Inr r \<and> mem_live m (key_of r) = Some ex \<and> v \<noteq> r_ResourceVersion ex"
  then have "r_Kind r = ''Agent''" using resource_of_simps(1) agentToResource_Inr by blast
  then have "\<not> IsImmutableKind (r_Kind r)" by (simp add: IsImmutableKind_def ImmutableKinds_def)
  with a show "\<exists>err. Agent_Apply T cd mem_ResourceStore e \<lparr>ap_Object = Some ob, ap_IfResourceVersion = Some v\<rparr> m = (Inl err, m)
      \<and> CodeOf err = CodeAborted"
    by (simp add: Agent_Apply_def handle_Apply_def mem_ResourceStore_def mem_Apply_def mem_live_def key_of_def
        mapStoreErr_code Let_def)
next
  assume a: "decodePageToken (lo_PageToken (toListOptions (ls_Options lr))) = Inl terr"
  then have "err_is terr = Some ErrInvalidPageToken" using decodePageToken_error by (simp add: errors_Is_def)
  with a show "\<exists>err. Agent_List T cd mem_ResourceStore lr m = Inl err \<and> CodeOf err = CodeInvalidArgument"
    by (simp add: Agent_List_def handle_List_def mem_ResourceStore_def mem_List_def mapStoreErr_code Let_def)
qed

theorem rpc_error_codes_witness:
  "\<exists>err. Agent_Get sample_time (sample_codec empty_AgentSpec empty_AgentStatus) mem_ResourceStore
      \<lparr>gt_Colony = ''c'', gt_Name = ''x''\<rparr> NewMemoryStore = Inl err \<and> CodeOf err = CodeNotFound"
  using conjunct1 [OF rpc_error_codes [of NewMemoryStore "\<lparr>gt_Colony = ''c'', gt_Name = ''x''\<rparr>"]]
  by (simp add: mem_live_def NewMemoryStore_def)

section \<open>Validation and ownership of fields\<close>

text \<open>
  A Tool is accepted exactly when it has a name, a colony and one of the three types
  with that type's own field set; otherwise the answer is \<open>invalid_argument\<close> before the store
  is reached.
\<close>

theorem tool_validation:
  shows "(\<exists>err. toolToResource cd t = Inl err \<and> CodeOf err = CodeInvalidArgument) \<longleftrightarrow>
    \<not> (\<exists>m sp. ob_Metadata t = Some m \<and> om_Name m \<noteq> '''' \<and> om_Colony m \<noteq> '''' \<and> ob_Spec t = Some sp
        \<and> (ts_Type sp = 1 \<and> ts_Endpoint sp \<noteq> '''' \<or> ts_Type sp = 2 \<and> ts_Builtin sp \<noteq> ''''
           \<or> ts_Type sp = 3 \<and> ts_AgentRef sp \<noteq> ''''))"
  by (auto simp: toolToResource_def resourceFromMeta_def invalidArgument_def marshalSpec_def Let_def
      ToolSpec_GetType_def ToolSpec_GetEndpoint_def ToolSpec_GetBuiltin_def ToolSpec_GetAgentRef_def
      ToolType_TOOL_TYPE_MCP_def ToolType_TOOL_TYPE_BUILTIN_def ToolType_TOOL_TYPE_AGENT_def
      split: option.splits if_splits sum.splits)

definition server_fields :: "ObjectMeta \<Rightarrow> ObjectMeta \<Rightarrow> ObjectMeta" where
  "server_fields m forged = m\<lparr>om_Uid := om_Uid forged, om_Generation := om_Generation forged,
     om_ResourceVersion := om_ResourceVersion forged, om_CreatedAt := om_CreatedAt forged,
     om_UpdatedAt := om_UpdatedAt forged, om_DeletedAt := om_DeletedAt forged\<rparr>"

definition forge :: "('spec, 'status) object \<Rightarrow> ObjectMeta \<Rightarrow> 'status option \<Rightarrow> ('spec, 'status) object" where
  "forge ob m st = ob\<lparr>ob_Metadata := map_option (\<lambda>om. server_fields om m) (ob_Metadata ob), ob_Status := st\<rparr>"

lemma forge_simps [simp]:
  "ob_Spec (forge ob m st) = ob_Spec ob" "resourceFromMeta k (ob_Metadata (forge ob m st)) = resourceFromMeta k (ob_Metadata ob)"
  by (cases "ob_Metadata ob"; simp add: forge_def server_fields_def resourceFromMeta_def)+

definition forge_request ::
  "('spec, 'status) object ApplyRequest \<Rightarrow> ObjectMeta \<Rightarrow> 'status option \<Rightarrow> ('spec, 'status) object ApplyRequest" where
  "forge_request req m st = req\<lparr>ap_Object := map_option (\<lambda>ob. forge ob m st) (ap_Object req)\<rparr>"

lemma handle_Apply_forged:
  assumes "\<And>ob. toR (forge ob m st) = toR ob"
  shows "handle_Apply S toR fromR e (forge_request req m st) s = handle_Apply S toR fromR e req s"
proof -
  have same: "ap_Object (forge_request req m st) = map_option (\<lambda>ob. forge ob m st) (ap_Object req)"
    "ap_IfResourceVersion (forge_request req m st) = ap_IfResourceVersion req" by (simp_all add: forge_request_def)
  show ?thesis unfolding handle_Apply_def same by (cases "ap_Object req") (simp_all add: assms)
qed

text \<open>
  C38: the server owns its fields. An Apply of any kind over any store, with the UID, generation,
  version, timestamps and status of the object replaced by any others, gives the very same
  answer and the same stored state; and so does an Append with another sequence number or
  version (the time of an event is the client's).
\<close>

theorem server_fields_ignored:
  "Colony_Apply T cd1 S e (forge_request c m st1) s = Colony_Apply T cd1 S e c s
    \<and> Agent_Apply T cd2 S e (forge_request a m st2) s = Agent_Apply T cd2 S e a s
    \<and> AgentVersion_Apply T cd3 S e (forge_request av m st3) s = AgentVersion_Apply T cd3 S e av s
    \<and> Run_Apply T cd4 S e (forge_request r m st4) s = Run_Apply T cd4 S e r s
    \<and> Tool_Apply T cd5 S e (forge_request t m st5) s = Tool_Apply T cd5 S e t s
    \<and> Event_Append T pc E e (map_option (\<lambda>ev. ev\<lparr>ev_Seq := sq, ev_ResourceVersion := rv\<rparr>) ev) s' = Event_Append T pc E e ev s'"
proof -
  have "colonyToResource cd1 (forge x m st1) = colonyToResource cd1 x" "agentToResource cd2 (forge y m st2) = agentToResource cd2 y"
    "agentVersionToResource cd3 (forge z m st3) = agentVersionToResource cd3 z"
    "runToResource cd4 (forge u m st4) = runToResource cd4 u" "toolToResource cd5 (forge v m st5) = toolToResource cd5 v" for x y z u v
    unfolding toResource_defs forge_simps by simp_all
  then have forged: "handle_Apply S (colonyToResource cd1) f1 e (forge_request c m st1) s = handle_Apply S (colonyToResource cd1) f1 e c s"
    "handle_Apply S (agentToResource cd2) f2 e (forge_request a m st2) s = handle_Apply S (agentToResource cd2) f2 e a s"
    "handle_Apply S (agentVersionToResource cd3) f3 e (forge_request av m st3) s = handle_Apply S (agentVersionToResource cd3) f3 e av s"
    "handle_Apply S (runToResource cd4) f4 e (forge_request r m st4) s = handle_Apply S (runToResource cd4) f4 e r s"
    "handle_Apply S (toolToResource cd5) f5 e (forge_request t m st5) s = handle_Apply S (toolToResource cd5) f5 e t s"
    for f1 f2 f3 f4 f5
    by (simp_all only: handle_Apply_forged)
  have "eventToStoreEvent T pc (x\<lparr>ev_Seq := sq, ev_ResourceVersion := rv\<rparr>) = eventToStoreEvent T pc x" for x
    unfolding eventToStoreEvent_def by (cases "marshalSpec (pc_Marshal pc) (ev_Payload x)") (simp_all del: marshalSpec_Inr)
  then have "Event_Append T pc E e (map_option (\<lambda>ev. ev\<lparr>ev_Seq := sq, ev_ResourceVersion := rv\<rparr>) ev) s' = Event_Append T pc E e ev s'"
    by (cases ev) (simp_all add: Event_Append_def)
  then show ?thesis
    by (simp add: Colony_Apply_def Agent_Apply_def AgentVersion_Apply_def Run_Apply_def Tool_Apply_def forged)
qed

text \<open>
  A new Run starts pending: the first Apply of a Run answers phase \<open>PENDING\<close>, attempt 0
  and nothing else set, whatever status the caller sent (in-memory store; \<open>protojson\<close> reads
  back the status it wrote).
\<close>

theorem new_run_is_pending:
  assumes "cd_MarshalStatus cd (Some pending_status) = Inr js" "js \<noteq> ''''" "cd_UnmarshalStatus cd js = Inr pending_status"
    and "Run_Apply T cd mem_ResourceStore e req m = (Inr out, m')"
    and "mem_live m (''Run'', gt_Colony (named req), gt_Name (named req)) = None"
  shows "ob_Status out = Some pending_status \<and> ru_Phase pending_status = RunPhase_RUN_PHASE_PENDING
    \<and> ru_Attempt pending_status = 0"
  using assms(4) unfolding Run_Apply_def
proof (rule handle_Apply_Inr)
  fix ob r saved
  assume a: "ap_Object req = Some ob" "runToResource cd ob = Inr r"
    "rs_Apply mem_ResourceStore e r (ap_IfResourceVersion req) m = (Inr saved, m')" "resourceToRun T cd saved = Inr out"
  note r = runToResource_Inr [OF a(2)]
  have st: "r_Status r = Some js" using r assms(1) by auto
  have "key_of r = (''Run'', gt_Colony (named req), gt_Name (named req))"
    using r a(1) by (auto simp: resource_of_def named_def key_of_def)
  with assms(5) have new: "map_of (m_resources m) (key_of r) = None" by (simp add: mem_live_def)
  from a(3) have "mem_Apply e r (ap_IfResourceVersion req) m = (Inr saved, m')" by (simp add: mem_ResourceStore_def)
  then have "r_Status saved = Some js"
    using new st by (cases rule: mem_Apply_cases) auto
  then show ?thesis
    using resource_to_object_Inr [OF a(4) [unfolded resourceToRun_def]] assms(2,3)
    by (auto simp: unmarshalSpec_def blen_def bytes_of_def pending_status_def empty_RunStatus_def)
qed

theorem new_run_is_pending_witness:
  "\<exists>out m'. Run_Apply sample_time (sample_codec empty_RunSpec pending_status) mem_ResourceStore env_a
      (sample_request (empty_RunSpec\<lparr>rn_AgentRef := ''x''\<rparr>)) NewMemoryStore = (Inr out, m')
    \<and> ob_Status out = Some pending_status"
proof -
  let ?cd = "sample_codec empty_RunSpec pending_status"
  let ?req = "sample_request (empty_RunSpec\<lparr>rn_AgentRef := ''x''\<rparr>) :: Run ApplyRequest"
  obtain out m' where a: "Run_Apply sample_time ?cd mem_ResourceStore env_a ?req NewMemoryStore = (Inr out, m')"
    by (simp add: Run_Apply_def handle_Apply_def sample_request_def sample_meta_def runToResource_def
      resourceFromMeta_def sample_codec_def marshalSpec_def mem_ResourceStore_def mem_Apply_def RunSpec_GetAgentRef_def
      sample_defs NewMemoryStore_def mem_nextSeq_def mem_created_def with_default_version_def mem_log_def mem_store_def
      resourceToRun_def resource_to_object_def unmarshalSpec_def blen_def bytes_of_def DefaultAPIVersion_def Let_def)
  have "ob_Status out = Some pending_status"
    using new_run_is_pending [of ?cd "''{}''", OF _ _ _ a]
    by (simp add: sample_codec_def mem_live_def NewMemoryStore_def)
  with a show ?thesis by blast
qed

text \<open>
  But re-applying a Run resets its status on the in-memory store: whatever the Scheduler
  reported, an Apply of the same spec puts the caller's (pending) status back, with the
  version unchanged and nothing in the change log, so no watcher hears of it.
\<close>

theorem memory_reapply_resets_status:
  assumes "mem_live m (key_of r) = Some ex" "\<not> IsImmutableKind (r_Kind r)"
    and "\<not> res_changed ex r" "r_Status r = Some st"
  shows "\<exists>out m'. mem_Apply e r None m = (Inr out, m') \<and> r_Status out = Some st
    \<and> mem_live m' (key_of r) = Some out \<and> r_ResourceVersion out = r_ResourceVersion ex
    \<and> m_log m' = m_log m \<and> m_seq m' = m_seq m"
  using assms by (simp add: mem_Apply_def mem_live_def key_of_def mem_store_def Let_def)

theorem memory_reapply_resets_status_witness:
  "\<exists>m out m'. mem_live m (''Run'', ''c'', ''a'') = Some (agent_a\<lparr>r_Kind := ''Run'', r_Status := Some ''{\"phase\":3}''\<rparr>)
    \<and> mem_Apply env_a (agent_a\<lparr>r_Kind := ''Run'', r_Status := Some ''{\"phase\":1}''\<rparr>) None m = (Inr out, m')
    \<and> r_Status out = Some ''{\"phase\":1}'' \<and> m_log m' = m_log m"
proof -
  let ?ex = "agent_a\<lparr>r_Kind := ''Run'', r_Status := Some ''{\"phase\":3}''\<rparr>"
  let ?r = "agent_a\<lparr>r_Kind := ''Run'', r_Status := Some ''{\"phase\":1}''\<rparr>"
  let ?m = "NewMemoryStore\<lparr>m_resources := [((''Run'', ''c'', ''a''), ?ex)]\<rparr>"
  have l: "mem_live ?m (key_of ?r) = Some ?ex" by (simp add: mem_live_def key_of_def sample_defs)
  have c: "\<not> res_changed ?ex ?r"
  proof -
    have "json_doc (Some ''{}'')" by code_simp
    then show ?thesis by (simp add: res_changed_def sample_defs)
  qed
  have k: "\<not> IsImmutableKind (r_Kind ?r)" by (simp add: IsImmutableKind_def ImmutableKinds_def)
  have "mem_live ?m (''Run'', ''c'', ''a'') = Some ?ex" by (simp add: mem_live_def)
  with memory_reapply_resets_status [OF l k c, of "''{\"phase\":1}''" env_a] show ?thesis
    by (intro exI [of _ ?m]) auto
qed

text \<open>
  A Colony applied with a non-empty \<open>metadata.colony\<close> is accepted and then cannot be
  read: Apply stores it under that colony, while Get always looks under the empty one.
\<close>

theorem colony_with_colony_unreadable:
  assumes "mem_inv m" "m_seq m + 2 \<le> max_int64"
    and "ap_Object req = Some ob" "ob_Metadata ob = Some meta" "om_Colony meta \<noteq> ''''"
    and "mem_live m (''Colony'', '''', om_Name meta) = None"
    and "Colony_Apply T cd mem_ResourceStore e req m = (Inr out, m')"
  shows "\<exists>err. Colony_Get T cd mem_ResourceStore (om_Name meta) m' = Inl err \<and> CodeOf err = CodeNotFound"
  using assms(7) unfolding Colony_Apply_def
proof (rule handle_Apply_Inr)
  fix ob' r saved
  assume a: "ap_Object req = Some ob'" "colonyToResource cd ob' = Inr r"
    "rs_Apply mem_ResourceStore e r (ap_IfResourceVersion req) m = (Inr saved, m')"
  have "key_of r = (''Colony'', om_Colony meta, om_Name meta)"
    using colonyToResource_Inr [OF a(2)] a(1) assms(3,4) by (auto simp: resource_of_def key_of_def)
  moreover have "mem_live m' = (mem_live m)(key_of r \<mapsto> saved)" by (rule mem.apply_live [OF assms(1) a(3)])
  ultimately have "mem_live m' (''Colony'', '''', om_Name meta) = None" using assms(5,6) by auto
  then show ?thesis
    by (simp add: Colony_Get_def handle_Get_def mem_ResourceStore_def mem_Get_def mem_live_def mapStoreErr_code)
qed

theorem colony_with_colony_unreadable_witness:
  "\<exists>out m' err. Colony_Apply sample_time (sample_codec empty_ColonySpec empty_ColonyStatus) mem_ResourceStore env_a
      (sample_request empty_ColonySpec) NewMemoryStore = (Inr out, m')
    \<and> Colony_Get sample_time (sample_codec empty_ColonySpec empty_ColonyStatus) mem_ResourceStore ''a'' m' = Inl err
    \<and> CodeOf err = CodeNotFound"
proof -
  let ?cd = "sample_codec empty_ColonySpec empty_ColonyStatus"
  let ?req = "sample_request empty_ColonySpec :: Colony ApplyRequest"
  obtain out m' where a: "Colony_Apply sample_time ?cd mem_ResourceStore env_a ?req NewMemoryStore = (Inr out, m')"
    by (simp add: Colony_Apply_def handle_Apply_def sample_request_def sample_meta_def colonyToResource_def
      resourceFromMeta_def sample_codec_def marshalSpec_def mem_ResourceStore_def mem_Apply_def
      sample_defs NewMemoryStore_def mem_nextSeq_def mem_created_def with_default_version_def mem_log_def mem_store_def
      resourceToColony_def resource_to_object_def unmarshalSpec_def blen_def bytes_of_def DefaultAPIVersion_def Let_def)
  have "\<exists>err. Colony_Get sample_time ?cd mem_ResourceStore (om_Name sample_meta) m' = Inl err \<and> CodeOf err = CodeNotFound"
    by (rule colony_with_colony_unreadable [where ob = "the (ap_Object ?req)", OF mem_inv_init _ _ _ _ _ a])
      (simp_all add: NewMemoryStore_def sample_request_def sample_meta_def mem_live_def)
  with a show ?thesis by (auto simp: sample_meta_def)
qed

section \<open>Streams and the interceptor\<close>

text \<open>
  A Run watch stream sends, in order, one event per store event with the same type and
  version, bookmarks without an object, and stops early only with an error.
\<close>

theorem run_watch_stream:
  assumes "Run_Watch T cd send ch = (sent, err)"
  shows "\<exists>n \<le> length ch.
      map wv_ResourceVersion sent = map we_ResourceVersion (take n ch)
    \<and> map wv_Type sent = map (toWatchEventType \<circ> we_Type) (take n ch)
    \<and> map (\<lambda>o'. wv_Object o' = None) sent = map (\<lambda>ev. we_Type ev = WatchBookmark) (take n ch)
    \<and> (err = None \<longrightarrow> n = length ch)"
proof -
  let ?f = "watch_event_out (resourceToRun T cd)"
  have "watchLoop send ?f ch [] = (sent, err)" using assms by (simp add: Run_Watch_def handle_Watch_def)
  from watchLoop_prefix [where toEvent = ?f, OF _ this] watch_event_out_some [of "resourceToRun T cd"]
  obtain n where n: "n \<le> length ch" "sent = map (\<lambda>ev. the (projr (?f ev))) (take n ch)"
    "\<forall>ev\<in>set (take n ch). \<exists>out. ?f ev = Inr (Some out)" "err = None \<longrightarrow> n = length ch"
    by blast
  have one: "wv_ResourceVersion (the (projr (?f ev))) = we_ResourceVersion ev
    \<and> wv_Type (the (projr (?f ev))) = toWatchEventType (we_Type ev)
    \<and> (wv_Object (the (projr (?f ev))) = None) = (we_Type ev = WatchBookmark)"
    if "ev \<in> set (take n ch)" for ev
    using n(3) that by (auto simp: watch_event_out_def Let_def split: if_splits sum.splits)
  show ?thesis
    using n(1,4) one by (intro exI [of _ n]) (auto simp: n(2))
qed

theorem run_watch_stream_witness:
  "\<exists>n \<le> 1. map wv_ResourceVersion (fst (Run_Watch sample_time (sample_codec empty_RunSpec empty_RunStatus) (\<lambda>_ _. None)
      [the (watch_bookmark 5)])) = map we_ResourceVersion (take n [the (watch_bookmark 5)])"
  using run_watch_stream [of sample_time "sample_codec empty_RunSpec empty_RunStatus" "\<lambda>_ _. None"
    "[the (watch_bookmark 5)]" "fst (Run_Watch sample_time (sample_codec empty_RunSpec empty_RunStatus) (\<lambda>_ _. None) [the (watch_bookmark 5)])"
    "snd (Run_Watch sample_time (sample_codec empty_RunSpec empty_RunStatus) (\<lambda>_ _. None) [the (watch_bookmark 5)])"]
  by (auto simp: prod_eq_iff)

text \<open>
  C36: no request reaches a handler unauthenticated, unary or streaming: when the verifier
  rejects the token the call ends as \<open>unauthenticated\<close> with the service's state untouched,
  otherwise the handler runs once, with that principal, and a panic in it becomes \<open>internal\<close>;
  and every call, also one that panics, is counted once under the code it answers.
\<close>

theorem interceptor_guards:
  shows "(\<forall>msg. V c (strings_TrimPrefix h ''Bearer '') = Inl msg \<longrightarrow>
      WrapUnary V next procedure c h req (s, m)
        = (Inl (ConnectError CodeUnauthenticated msg), s, m((procedure, ''unauthenticated'') := m (procedure, ''unauthenticated'') + 1))
      \<and> WrapStreamingHandler V stream procedure c h (s, m)
        = (Some (ConnectError CodeUnauthenticated msg), s, m((procedure, ''unauthenticated'') := m (procedure, ''unauthenticated'') + 1)))
    \<and> (\<forall>pr. V c (strings_TrimPrefix h ''Bearer '') = Inr pr \<longrightarrow>
      fst (snd (WrapUnary V next procedure c h req (s, m))) = snd (next (Some pr) req s)
      \<and> fst (snd (WrapStreamingHandler V stream procedure c h (s, m))) = snd (stream (Some pr) s)
      \<and> (\<forall>p. fst (next (Some pr) req s) = Panicked p \<longrightarrow>
          fst (WrapUnary V next procedure c h req (s, m)) = Inl (ConnectError CodeInternal (''panic: '' @ p)))
      \<and> (\<forall>p. fst (stream (Some pr) s) = Panicked p \<longrightarrow>
          fst (WrapStreamingHandler V stream procedure c h (s, m)) = Some (ConnectError CodeInternal (''panic: '' @ p)))
      \<and> (\<forall>res. fst (next (Some pr) req s) = Returned res \<longrightarrow>
          fst (WrapUnary V next procedure c h req (s, m)) = res)
      \<and> (\<forall>err. fst (stream (Some pr) s) = Returned err \<longrightarrow>
          fst (WrapStreamingHandler V stream procedure c h (s, m)) = err))
    \<and> (\<exists>code. snd (snd (WrapUnary V next procedure c h req (s, m))) = m((procedure, code) := m (procedure, code) + 1)
        \<and> code = (case fst (WrapUnary V next procedure c h req (s, m)) of
            Inl e \<Rightarrow> code_string (CodeOf e) | Inr _ \<Rightarrow> ''ok''))
    \<and> (\<exists>code. snd (snd (WrapStreamingHandler V stream procedure c h (s, m))) = m((procedure, code) := m (procedure, code) + 1)
        \<and> code = (case fst (WrapStreamingHandler V stream procedure c h (s, m)) of
            Some e \<Rightarrow> code_string (CodeOf e) | None \<Rightarrow> ''ok''))"
proof (intro conjI)
  show "\<exists>code. snd (snd (WrapUnary V next procedure c h req (s, m))) = m((procedure, code) := m (procedure, code) + 1)
        \<and> code = (case fst (WrapUnary V next procedure c h req (s, m)) of
            Inl e \<Rightarrow> code_string (CodeOf e) | Inr _ \<Rightarrow> ''ok'')"
    by (rule WrapUnary_counts)
  show "\<exists>code. snd (snd (WrapStreamingHandler V stream procedure c h (s, m))) = m((procedure, code) := m (procedure, code) + 1)
        \<and> code = (case fst (WrapStreamingHandler V stream procedure c h (s, m)) of
            Some e \<Rightarrow> code_string (CodeOf e) | None \<Rightarrow> ''ok'')"
    by (rule WrapStreamingHandler_counts)
qed (auto simp: WrapUnary_def WrapStreamingHandler_def authenticate_def WithPrincipal_def observe_def Let_def
    split: sum.splits outcome.splits prod.splits)

theorem interceptor_guards_witness:
  "fst (WrapUnary (\<lambda>c t. if t = ''k'' then Inr \<lparr>pr_Subject = ''dev'', pr_Colony = ''''\<rparr> else Inl ''no'')
      (\<lambda>c q s. (Returned (Inr q), Suc s)) ''/p'' None ''Bearer x'' (0::nat) (0, \<lambda>_. 0))
    = Inl (ConnectError CodeUnauthenticated ''no'')
   \<and> fst (WrapStreamingHandler (\<lambda>c t. if t = ''k'' then Inr \<lparr>pr_Subject = ''dev'', pr_Colony = ''''\<rparr> else Inl ''no'')
      (\<lambda>c s. (Panicked ''p'', Suc s)) ''/p'' None ''Bearer x'' (0, \<lambda>_. 0))
    = Some (ConnectError CodeUnauthenticated ''no'')"
proof -
  have "strings_TrimPrefix ''Bearer x'' ''Bearer '' = ''x''" by code_simp
  then show ?thesis
    using conjunct1 [OF interceptor_guards [of "\<lambda>c t. if t = ''k'' then Inr \<lparr>pr_Subject = ''dev'', pr_Colony = ''''\<rparr> else Inl ''no''"
      None "''Bearer x''" "\<lambda>c q s. (Returned (Inr q), Suc s)" "''/p''" "0::nat" 0 "\<lambda>_. 0" "\<lambda>c s. (Panicked ''p'', Suc s)"]] by simp
qed

end
