(* ===== verification/Routing.thy ===== *)
theory Routing
  imports ApiServer
begin

text \<open>
  The generated glue between the wire and the handlers: the names and procedures of the
  services, the URL a client calls for each RPC, the handler each path is switched to
  (\<open>gen/.../hivedv1alpha1connect/service.connect.go\<close>), and the mux of \<open>NewHandler\<close>
  (\<open>internal/api/server.go\<close>) in front of them.
\<close>

section \<open>Names\<close>

datatype meth = ApplyRPC | GetRPC | ListRPC | WatchRPC | LogsRPC | AppendRPC

datatype rpc_kind = Unary | ServerStream

fun service_name :: "service \<Rightarrow> string" where
  "service_name ColonyService = ''hived.v1alpha1.ColonyService''"
| "service_name AgentService = ''hived.v1alpha1.AgentService''"
| "service_name AgentVersionService = ''hived.v1alpha1.AgentVersionService''"
| "service_name RunService = ''hived.v1alpha1.RunService''"
| "service_name ToolService = ''hived.v1alpha1.ToolService''"
| "service_name EventService = ''hived.v1alpha1.EventService''"

text \<open>The procedures; an RPC a service does not have is the empty string.\<close>

fun procedure :: "service \<Rightarrow> meth \<Rightarrow> string" where
  "procedure ColonyService ApplyRPC = ''/hived.v1alpha1.ColonyService/Apply''"
| "procedure ColonyService GetRPC = ''/hived.v1alpha1.ColonyService/Get''"
| "procedure ColonyService ListRPC = ''/hived.v1alpha1.ColonyService/List''"
| "procedure ColonyService WatchRPC = ''/hived.v1alpha1.ColonyService/Watch''"
| "procedure AgentService ApplyRPC = ''/hived.v1alpha1.AgentService/Apply''"
| "procedure AgentService GetRPC = ''/hived.v1alpha1.AgentService/Get''"
| "procedure AgentService ListRPC = ''/hived.v1alpha1.AgentService/List''"
| "procedure AgentService WatchRPC = ''/hived.v1alpha1.AgentService/Watch''"
| "procedure AgentVersionService ApplyRPC = ''/hived.v1alpha1.AgentVersionService/Apply''"
| "procedure AgentVersionService GetRPC = ''/hived.v1alpha1.AgentVersionService/Get''"
| "procedure AgentVersionService ListRPC = ''/hived.v1alpha1.AgentVersionService/List''"
| "procedure AgentVersionService WatchRPC = ''/hived.v1alpha1.AgentVersionService/Watch''"
| "procedure RunService ApplyRPC = ''/hived.v1alpha1.RunService/Apply''"
| "procedure RunService GetRPC = ''/hived.v1alpha1.RunService/Get''"
| "procedure RunService ListRPC = ''/hived.v1alpha1.RunService/List''"
| "procedure RunService WatchRPC = ''/hived.v1alpha1.RunService/Watch''"
| "procedure RunService LogsRPC = ''/hived.v1alpha1.RunService/Logs''"
| "procedure ToolService ApplyRPC = ''/hived.v1alpha1.ToolService/Apply''"
| "procedure ToolService GetRPC = ''/hived.v1alpha1.ToolService/Get''"
| "procedure ToolService ListRPC = ''/hived.v1alpha1.ToolService/List''"
| "procedure ToolService WatchRPC = ''/hived.v1alpha1.ToolService/Watch''"
| "procedure EventService AppendRPC = ''/hived.v1alpha1.EventService/Append''"
| "procedure EventService ListRPC = ''/hived.v1alpha1.EventService/List''"
| "procedure EventService WatchRPC = ''/hived.v1alpha1.EventService/Watch''"
| "procedure _ _ = ''''"

section \<open>Clients\<close>

text \<open>\<open>strings.TrimRight(s, "/")\<close>.\<close>

definition trim_slashes :: "string \<Rightarrow> string" where
  "trim_slashes s = rev (dropWhile (\<lambda>c. c = CHR ''/'') (rev s))"

text \<open>The URL and the kind of call behind each method of a client.\<close>

definition NewColonyServiceClient :: "string \<Rightarrow> (meth \<times> string \<times> rpc_kind) list" where
  "NewColonyServiceClient baseURL =
     (let b = trim_slashes baseURL in
       [(ApplyRPC, b @ procedure ColonyService ApplyRPC, Unary),
        (GetRPC, b @ procedure ColonyService GetRPC, Unary),
        (ListRPC, b @ procedure ColonyService ListRPC, Unary),
        (WatchRPC, b @ procedure ColonyService WatchRPC, ServerStream)])"

definition NewAgentServiceClient :: "string \<Rightarrow> (meth \<times> string \<times> rpc_kind) list" where
  "NewAgentServiceClient baseURL =
     (let b = trim_slashes baseURL in
       [(ApplyRPC, b @ procedure AgentService ApplyRPC, Unary),
        (GetRPC, b @ procedure AgentService GetRPC, Unary),
        (ListRPC, b @ procedure AgentService ListRPC, Unary),
        (WatchRPC, b @ procedure AgentService WatchRPC, ServerStream)])"

definition NewAgentVersionServiceClient :: "string \<Rightarrow> (meth \<times> string \<times> rpc_kind) list" where
  "NewAgentVersionServiceClient baseURL =
     (let b = trim_slashes baseURL in
       [(ApplyRPC, b @ procedure AgentVersionService ApplyRPC, Unary),
        (GetRPC, b @ procedure AgentVersionService GetRPC, Unary),
        (ListRPC, b @ procedure AgentVersionService ListRPC, Unary),
        (WatchRPC, b @ procedure AgentVersionService WatchRPC, ServerStream)])"

definition NewRunServiceClient :: "string \<Rightarrow> (meth \<times> string \<times> rpc_kind) list" where
  "NewRunServiceClient baseURL =
     (let b = trim_slashes baseURL in
       [(ApplyRPC, b @ procedure RunService ApplyRPC, Unary),
        (GetRPC, b @ procedure RunService GetRPC, Unary),
        (ListRPC, b @ procedure RunService ListRPC, Unary),
        (WatchRPC, b @ procedure RunService WatchRPC, ServerStream),
        (LogsRPC, b @ procedure RunService LogsRPC, ServerStream)])"

definition NewToolServiceClient :: "string \<Rightarrow> (meth \<times> string \<times> rpc_kind) list" where
  "NewToolServiceClient baseURL =
     (let b = trim_slashes baseURL in
       [(ApplyRPC, b @ procedure ToolService ApplyRPC, Unary),
        (GetRPC, b @ procedure ToolService GetRPC, Unary),
        (ListRPC, b @ procedure ToolService ListRPC, Unary),
        (WatchRPC, b @ procedure ToolService WatchRPC, ServerStream)])"

definition NewEventServiceClient :: "string \<Rightarrow> (meth \<times> string \<times> rpc_kind) list" where
  "NewEventServiceClient baseURL =
     (let b = trim_slashes baseURL in
       [(AppendRPC, b @ procedure EventService AppendRPC, Unary),
        (ListRPC, b @ procedure EventService ListRPC, Unary),
        (WatchRPC, b @ procedure EventService WatchRPC, ServerStream)])"

section \<open>Handlers\<close>

text \<open>The path a service is mounted on, and its switch on \<open>r.URL.Path\<close> (\<^const>\<open>None\<close> is 404).\<close>

definition NewColonyServiceHandler :: "string \<times> (string \<Rightarrow> (meth \<times> rpc_kind) option)" where
  "NewColonyServiceHandler =
     (''/hived.v1alpha1.ColonyService/'',
      (\<lambda>path.
        if path = procedure ColonyService ApplyRPC then Some (ApplyRPC, Unary)
        else if path = procedure ColonyService GetRPC then Some (GetRPC, Unary)
        else if path = procedure ColonyService ListRPC then Some (ListRPC, Unary)
        else if path = procedure ColonyService WatchRPC then Some (WatchRPC, ServerStream)
        else None))"

definition NewAgentServiceHandler :: "string \<times> (string \<Rightarrow> (meth \<times> rpc_kind) option)" where
  "NewAgentServiceHandler =
     (''/hived.v1alpha1.AgentService/'',
      (\<lambda>path.
        if path = procedure AgentService ApplyRPC then Some (ApplyRPC, Unary)
        else if path = procedure AgentService GetRPC then Some (GetRPC, Unary)
        else if path = procedure AgentService ListRPC then Some (ListRPC, Unary)
        else if path = procedure AgentService WatchRPC then Some (WatchRPC, ServerStream)
        else None))"

definition NewAgentVersionServiceHandler :: "string \<times> (string \<Rightarrow> (meth \<times> rpc_kind) option)" where
  "NewAgentVersionServiceHandler =
     (''/hived.v1alpha1.AgentVersionService/'',
      (\<lambda>path.
        if path = procedure AgentVersionService ApplyRPC then Some (ApplyRPC, Unary)
        else if path = procedure AgentVersionService GetRPC then Some (GetRPC, Unary)
        else if path = procedure AgentVersionService ListRPC then Some (ListRPC, Unary)
        else if path = procedure AgentVersionService WatchRPC then Some (WatchRPC, ServerStream)
        else None))"

definition NewRunServiceHandler :: "string \<times> (string \<Rightarrow> (meth \<times> rpc_kind) option)" where
  "NewRunServiceHandler =
     (''/hived.v1alpha1.RunService/'',
      (\<lambda>path.
        if path = procedure RunService ApplyRPC then Some (ApplyRPC, Unary)
        else if path = procedure RunService GetRPC then Some (GetRPC, Unary)
        else if path = procedure RunService ListRPC then Some (ListRPC, Unary)
        else if path = procedure RunService WatchRPC then Some (WatchRPC, ServerStream)
        else if path = procedure RunService LogsRPC then Some (LogsRPC, ServerStream)
        else None))"

definition NewToolServiceHandler :: "string \<times> (string \<Rightarrow> (meth \<times> rpc_kind) option)" where
  "NewToolServiceHandler =
     (''/hived.v1alpha1.ToolService/'',
      (\<lambda>path.
        if path = procedure ToolService ApplyRPC then Some (ApplyRPC, Unary)
        else if path = procedure ToolService GetRPC then Some (GetRPC, Unary)
        else if path = procedure ToolService ListRPC then Some (ListRPC, Unary)
        else if path = procedure ToolService WatchRPC then Some (WatchRPC, ServerStream)
        else None))"

definition NewEventServiceHandler :: "string \<times> (string \<Rightarrow> (meth \<times> rpc_kind) option)" where
  "NewEventServiceHandler =
     (''/hived.v1alpha1.EventService/'',
      (\<lambda>path.
        if path = procedure EventService AppendRPC then Some (AppendRPC, Unary)
        else if path = procedure EventService ListRPC then Some (ListRPC, Unary)
        else if path = procedure EventService WatchRPC then Some (WatchRPC, ServerStream)
        else None))"

section \<open>The mux\<close>

definition service_handler :: "service \<Rightarrow> string \<times> (string \<Rightarrow> (meth \<times> rpc_kind) option)" where
  "service_handler sv =
     (case sv of
        ColonyService \<Rightarrow> NewColonyServiceHandler
      | AgentService \<Rightarrow> NewAgentServiceHandler
      | AgentVersionService \<Rightarrow> NewAgentVersionServiceHandler
      | RunService \<Rightarrow> NewRunServiceHandler
      | ToolService \<Rightarrow> NewToolServiceHandler
      | EventService \<Rightarrow> NewEventServiceHandler)"

text \<open>The patterns of the mux, in the order they are registered; the plain endpoints have no service.\<close>

definition mux_routes :: "(string \<times> service option) list" where
  "mux_routes =
     map (\<lambda>sv. (fst (service_handler sv), Some sv))
       [ColonyService, AgentService, AgentVersionService, RunService, ToolService, EventService]
     @ [(''/healthz'', None), (''/readyz'', None)]"

text \<open>
  \<open>http.ServeMux\<close> on a clean path: a pattern that ends in a slash matches every path below it,
  any other one only itself, and the longest matching pattern wins.
\<close>

definition pattern_matches :: "string \<Rightarrow> string \<Rightarrow> bool" where
  "pattern_matches pat path \<longleftrightarrow>
     (if pat \<noteq> '''' \<and> last pat = CHR ''/'' then strings_HasPrefix path pat else path = pat)"

definition mux_match :: "string \<Rightarrow> service option option" where
  "mux_match path =
     (case sort_key (\<lambda>(pat, _). - int (length pat)) (filter (\<lambda>(pat, _). pattern_matches pat path) mux_routes) of
        [] \<Rightarrow> None
      | (_, sv) # _ \<Rightarrow> Some sv)"

definition mux_dispatch :: "string \<Rightarrow> (service \<times> meth \<times> rpc_kind) option" where
  "mux_dispatch path =
     (case mux_match path of
        Some (Some sv) \<Rightarrow> map_option (\<lambda>(m, k). (sv, m, k)) (snd (service_handler sv) path)
      | _ \<Rightarrow> None)"

definition client_of :: "service \<Rightarrow> string \<Rightarrow> (meth \<times> string \<times> rpc_kind) list" where
  "client_of sv =
     (case sv of
        ColonyService \<Rightarrow> NewColonyServiceClient
      | AgentService \<Rightarrow> NewAgentServiceClient
      | AgentVersionService \<Rightarrow> NewAgentVersionServiceClient
      | RunService \<Rightarrow> NewRunServiceClient
      | ToolService \<Rightarrow> NewToolServiceClient
      | EventService \<Rightarrow> NewEventServiceClient)"

lemmas new_client_defs = NewColonyServiceClient_def NewAgentServiceClient_def NewAgentVersionServiceClient_def NewRunServiceClient_def NewToolServiceClient_def NewEventServiceClient_def
lemmas new_handler_defs = NewColonyServiceHandler_def NewAgentServiceHandler_def NewAgentVersionServiceHandler_def NewRunServiceHandler_def NewToolServiceHandler_def NewEventServiceHandler_def

section \<open>Every RPC reaches its handler\<close>

definition rpc_kind_of :: "meth \<Rightarrow> rpc_kind" where
  "rpc_kind_of m = (if m = WatchRPC \<or> m = LogsRPC then ServerStream else Unary)"

lemma mux_dispatch_procedure:
  assumes "procedure sv m \<noteq> ''''"
  shows "mux_dispatch (procedure sv m) = Some (sv, m, rpc_kind_of m)"
proof -
  have "list_all (\<lambda>(s, m). procedure s m = '''' \<or> mux_dispatch (procedure s m) = Some (s, m, rpc_kind_of m))
      (List.product [ColonyService, AgentService, AgentVersionService, RunService, ToolService, EventService]
        [ApplyRPC, GetRPC, ListRPC, WatchRPC, LogsRPC, AppendRPC])"
    by code_simp
  then have all: "\<forall>(s, m) \<in> set (List.product [ColonyService, AgentService, AgentVersionService, RunService, ToolService, EventService]
        [ApplyRPC, GetRPC, ListRPC, WatchRPC, LogsRPC, AppendRPC]).
      procedure s m = '''' \<or> mux_dispatch (procedure s m) = Some (s, m, rpc_kind_of m)"
    by (simp only: list_all_iff)
  have "(sv, m) \<in> set (List.product [ColonyService, AgentService, AgentVersionService, RunService, ToolService, EventService]
        [ApplyRPC, GetRPC, ListRPC, WatchRPC, LogsRPC, AppendRPC])"
    by (cases sv; cases m) simp_all
  with all assms show ?thesis by blast
qed

lemma mux_dispatch_only:
  assumes "mux_dispatch path = Some (sv, m, k)"
  shows "path = procedure sv m \<and> k = rpc_kind_of m"
proof -
  have "snd (service_handler sv) path = Some (m, k)"
    using assms by (auto simp: mux_dispatch_def split: option.splits)
  then show ?thesis
    by (cases sv) (auto simp: service_handler_def new_handler_defs rpc_kind_of_def simp del: procedure.simps split: if_splits)
qed

lemma client_url:
  "map_of (client_of sv base) m =
    (if procedure sv m = '''' then None else Some (trim_slashes base @ procedure sv m, rpc_kind_of m))"
  by (cases sv; cases m) (simp_all add: client_of_def new_client_defs rpc_kind_of_def Let_def)

end
