(* ===== verification/CliManifest.thy ===== *)
theory CliManifest
  imports CliJson ApiConvert
begin

text \<open>
  Reading manifests: \<open>cmd/hived/cmd/manifest.go\<close>. The YAML decoder (\<open>go.yaml.in/yaml\<close>,
  \<open>sigs.k8s.io/yaml\<close>) and the file system are parameters; the JSON the converter writes is
  decoded with theory \<open>CliJson\<close>. Errors are values: one constructor for each place that
  builds one, with the arguments of its message.
\<close>

section \<open>Errors of the command line\<close>

datatype doc_error =
    ParseYaml string
  | MarshalYaml string
  | NotAMapping
  | MissingKind
  | MissingAPIVersion
  | UnsupportedAPIVersion string
  | BadBody

text \<open>
  \<open>DocError n e\<close> is \<open>document n: e\<close>; \<open>InFile f e\<close> and \<open>InDocument m e\<close> are \<open>f: e\<close> and \<open>m: e\<close>.
  \<open>NilDereference\<close> stands for the run-time panic.
\<close>

datatype cli_error =
    MissingFlag string
  | OSError string
  | GlobError string
  | DocError int doc_error
  | InFile string cli_error
  | InDocument string cli_error
  | NoManifests string
  | UnknownAlias string
  | UnknownKind string
  | UnknownOutput string
  | DecodeError string
  | BadInput
  | RpcError api_error
  | PrintError string
  | NotImplementedM1 string
  | NilDereference

section \<open>Manifests\<close>

record manifest =
  mf_APIVersion :: string
  mf_Kind :: string
  mf_Name :: string
  mf_Colony :: string
  mf_JSON :: string
  mf_Source :: string
  mf_Index :: int

definition manifest_String :: "manifest \<Rightarrow> string" where
  "manifest_String m =
     (let ident = (if mf_Colony m \<noteq> '''' \<and> mf_Name m \<noteq> ''''
                   then mf_Kind m @ '' '' @ mf_Colony m @ ''/'' @ mf_Name m
                   else if mf_Name m \<noteq> '''' then mf_Kind m @ '' '' @ mf_Name m
                   else mf_Kind m)
      in ident @ '' ('' @ mf_Source m @ '' document '' @ show_int (mf_Index m + 1) @ '')'')"

definition SupportedAPIVersion :: string where
  "SupportedAPIVersion = ''hived/v1alpha1''"

text \<open>
  The YAML libraries: \<open>yl_Decode\<close> gives the documents of a stream (\<^const>\<open>None\<close> for one that
  decodes to nil) up to its end or its first error, \<open>yl_Marshal\<close> and \<open>yl_ToJSON\<close> turn one
  into JSON.
\<close>

record 'd yaml_lib =
  yl_Decode :: "string \<Rightarrow> 'd option list \<times> string option"
  yl_Marshal :: "'d \<Rightarrow> string + string"
  yl_ToJSON :: "string \<Rightarrow> string + string"

text \<open>
  The file system: \<open>fs_Stat\<close> tells whether a path is a directory, \<open>fs_Glob dir pat\<close> is
  \<open>filepath.Glob(filepath.Join(dir, pat))\<close>.
\<close>

record file_system =
  fs_Stat :: "string \<Rightarrow> string + bool"
  fs_Glob :: "string \<Rightarrow> string \<Rightarrow> string + string list"
  fs_ReadFile :: "string \<Rightarrow> string + string"
  fs_Stdin :: "string + string"

section \<open>The envelope\<close>

record envelope =
  en_APIVersion :: string
  en_Kind :: string
  en_Name :: string
  en_Colony :: string

definition empty_envelope :: envelope where
  "empty_envelope = \<lparr>en_APIVersion = '''', en_Kind = '''', en_Name = '''', en_Colony = ''''\<rparr>"

text \<open>
  Decoding goes on after a type mismatch but ends in its error, so the first one settles the
  result here. Unknown members are skipped.
\<close>

fun decode_metadata :: "(string \<times> rtok list) list \<Rightarrow> envelope \<Rightarrow> envelope option" where
  "decode_metadata [] en = Some en"
| "decode_metadata ((k, v) # ms) en =
     (if field_is ''name'' k then
        (case decode_string v (en_Name en) of
           None \<Rightarrow> None | Some s \<Rightarrow> decode_metadata ms (en\<lparr>en_Name := s\<rparr>))
      else if field_is ''colony'' k then
        (case decode_string v (en_Colony en) of
           None \<Rightarrow> None | Some s \<Rightarrow> decode_metadata ms (en\<lparr>en_Colony := s\<rparr>))
      else decode_metadata ms en)"

fun decode_members :: "(string \<times> rtok list) list \<Rightarrow> envelope \<Rightarrow> envelope option" where
  "decode_members [] en = Some en"
| "decode_members ((k, v) # ms) en =
     (if field_is ''apiVersion'' k then
        (case decode_string v (en_APIVersion en) of
           None \<Rightarrow> None | Some s \<Rightarrow> decode_members ms (en\<lparr>en_APIVersion := s\<rparr>))
      else if field_is ''kind'' k then
        (case decode_string v (en_Kind en) of
           None \<Rightarrow> None | Some s \<Rightarrow> decode_members ms (en\<lparr>en_Kind := s\<rparr>))
      else if field_is ''metadata'' k then
        (if is_null v then decode_members ms en
         else if is_object v then
           (case decode_metadata (object_members v) en of
              None \<Rightarrow> None | Some en' \<Rightarrow> decode_members ms en')
         else None)
      else decode_members ms en)"

definition decode_envelope :: "string \<Rightarrow> envelope option" where
  "decode_envelope j =
     (case json_tokens j of
        None \<Rightarrow> None
      | Some ts \<Rightarrow>
          if is_null ts then Some empty_envelope
          else if is_object ts then decode_members (object_members ts) empty_envelope
          else None)"

definition stripEnvelopeFields :: "string \<Rightarrow> string option" where
  "stripEnvelopeFields doc =
     (case unmarshal_fields doc of
        None \<Rightarrow> None
      | Some members \<Rightarrow>
          Some (marshal_fields (map_option
            (filter (\<lambda>(k, v). k \<noteq> ''apiVersion'' \<and> k \<noteq> ''kind'')) members)))"

section \<open>Documents, files and directories\<close>

text \<open>The body of the loop of \<open>readDocs\<close> for a document that is not nil; \<open>n\<close> is \<open>len(docs)\<close>.\<close>

definition read_doc :: "'d yaml_lib \<Rightarrow> string \<Rightarrow> 'd \<Rightarrow> int \<Rightarrow> doc_error + manifest" where
  "read_doc Y file doc n =
     (case yl_Marshal Y doc of
        Inl err \<Rightarrow> Inl (MarshalYaml err)
      | Inr norm \<Rightarrow>
     (case yl_ToJSON Y norm of
        Inl err \<Rightarrow> Inl (ParseYaml err)
      | Inr j \<Rightarrow>
     (case decode_envelope j of
        None \<Rightarrow> Inl NotAMapping
      | Some en \<Rightarrow>
          if en_Kind en = '''' then Inl MissingKind
          else if en_APIVersion en = '''' then Inl MissingAPIVersion
          else if en_APIVersion en \<noteq> SupportedAPIVersion then Inl (UnsupportedAPIVersion (en_APIVersion en))
          else
            (case stripEnvelopeFields j of
               None \<Rightarrow> Inl BadBody
             | Some body \<Rightarrow>
                 Inr \<lparr>mf_APIVersion = en_APIVersion en, mf_Kind = en_Kind en, mf_Name = en_Name en,
                      mf_Colony = en_Colony en, mf_JSON = body, mf_Source = file, mf_Index = n\<rparr>))))"

fun read_docs_loop ::
  "'d yaml_lib \<Rightarrow> string \<Rightarrow> int \<Rightarrow> 'd option list \<Rightarrow> string option \<Rightarrow> manifest list \<Rightarrow> cli_error + manifest list" where
  "read_docs_loop Y file i [] ending docs =
     (case ending of None \<Rightarrow> Inr docs | Some err \<Rightarrow> Inl (DocError (i + 1) (ParseYaml err)))"
| "read_docs_loop Y file i (None # ds) ending docs = read_docs_loop Y file (i + 1) ds ending docs"
| "read_docs_loop Y file i (Some d # ds) ending docs =
     (case read_doc Y file d (int (length docs)) of
        Inl e \<Rightarrow> Inl (DocError (i + 1) e)
      | Inr m \<Rightarrow> read_docs_loop Y file (i + 1) ds ending (docs @ [m]))"

definition readDocs :: "file_system \<Rightarrow> 'd yaml_lib \<Rightarrow> string \<Rightarrow> cli_error + manifest list" where
  "readDocs F Y file =
     (case (if file = ''-'' then fs_Stdin F else fs_ReadFile F file) of
        Inl err \<Rightarrow> Inl (OSError err)
      | Inr raw \<Rightarrow> (case yl_Decode Y raw of (ds, ending) \<Rightarrow> read_docs_loop Y file 0 ds ending []))"

definition manifest_patterns :: "string list" where
  "manifest_patterns = [''*.yaml'', ''*.yml'', ''*.json'']"

fun glob_all :: "file_system \<Rightarrow> string \<Rightarrow> string list \<Rightarrow> string list \<Rightarrow> cli_error + string list" where
  "glob_all F path [] seen = Inr seen"
| "glob_all F path (ext # exts) seen =
     (case fs_Glob F path ext of
        Inl err \<Rightarrow> Inl (GlobError err)
      | Inr matches \<Rightarrow> glob_all F path exts (seen @ filter (\<lambda>m. m \<notin> set seen) (remdups matches)))"

definition manifest_files :: "file_system \<Rightarrow> string \<Rightarrow> cli_error + string list" where
  "manifest_files F path =
     (if path = ''-'' then Inr [''-'']
      else (case fs_Stat F path of
         Inl err \<Rightarrow> Inl (OSError err)
       | Inr True \<Rightarrow>
           (case glob_all F path manifest_patterns [] of
              Inl err \<Rightarrow> Inl err
            | Inr seen \<Rightarrow> Inr (sort seen))
       | Inr False \<Rightarrow> Inr [path]))"

fun read_files :: "file_system \<Rightarrow> 'd yaml_lib \<Rightarrow> string list \<Rightarrow> manifest list \<Rightarrow> cli_error + manifest list" where
  "read_files F Y [] out = Inr out"
| "read_files F Y (f # fs) out =
     (case readDocs F Y f of
        Inl err \<Rightarrow> Inl (InFile f err)
      | Inr docs \<Rightarrow> read_files F Y fs (out @ docs))"

definition readManifests :: "file_system \<Rightarrow> 'd yaml_lib \<Rightarrow> string \<Rightarrow> cli_error + manifest list" where
  "readManifests F Y path =
     (case manifest_files F path of
        Inl err \<Rightarrow> Inl err
      | Inr files \<Rightarrow> read_files F Y files [])"

end
