(* ===== verification/CliOutput.thy ===== *)
theory CliOutput
  imports CliManifest
begin

text \<open>
  The flags (\<open>root.go\<close>) and what the command line prints (\<open>output.go\<close>): one object, a list
  of objects, a table. \<open>protojson\<close> and \<open>yaml.JSONToYAML\<close> are parameters; the indentation of
  \<open>encoding/json\<close> is theory \<open>CliJson\<close>'s, and \<open>text/tabwriter\<close> is written out here.
\<close>

section \<open>Flags\<close>

text \<open>\<open>fl_timeout\<close> is in nanoseconds, as a \<open>time.Duration\<close>.\<close>

record cli_flags =
  fl_server :: string
  fl_colony :: string
  fl_token :: string
  fl_output :: string
  fl_timeout :: int

definition default_flags :: cli_flags where
  "default_flags = \<lparr>fl_server = ''http://localhost:8080'', fl_colony = '''', fl_token = '''',
     fl_output = ''table'', fl_timeout = 30 * 1000000000\<rparr>"

definition validOutputs :: "string list" where
  "validOutputs = [''table'', ''json'', ''yaml'']"

definition validateOutput :: "cli_flags \<Rightarrow> cli_error option" where
  "validateOutput fl =
     (if fl_output fl \<in> set validOutputs then None else Some (UnknownOutput (fl_output fl)))"

section \<open>Objects\<close>

text \<open>\<open>protojson\<close> on one message type: strict \<open>Unmarshal\<close>, \<open>Marshal\<close> and \<open>Marshal\<close> with an indent of two.\<close>

record 'o pjson =
  pj_Unmarshal :: "string \<Rightarrow> string + 'o"
  pj_Marshal :: "'o \<Rightarrow> string + string"
  pj_Indent :: "'o \<Rightarrow> string + string"

text \<open>A command's error and what it has written to the standard output.\<close>

type_synonym cmd_result = "cli_error option \<times> string"

definition printObject :: "cli_flags \<Rightarrow> (string \<Rightarrow> string + string) \<Rightarrow> 'o pjson \<Rightarrow> 'o \<Rightarrow> cmd_result" where
  "printObject fl toYAML pj m =
     (if fl_output fl = ''json'' then
        (case pj_Indent pj m of
           Inl err \<Rightarrow> (Some (PrintError err), '''')
         | Inr b \<Rightarrow> (None, b @ [CHR 0x0A]))
      else if fl_output fl = ''yaml'' \<or> fl_output fl = ''table'' then
        (case pj_Marshal pj m of
           Inl err \<Rightarrow> (Some (PrintError err), '''')
         | Inr b \<Rightarrow>
             (case toYAML b of
                Inl err \<Rightarrow> (Some (PrintError err), '''')
              | Inr y \<Rightarrow> (None, y)))
      else (Some (UnknownOutput (fl_output fl)), ''''))"

fun marshal_all :: "'o pjson \<Rightarrow> 'o list \<Rightarrow> string list \<Rightarrow> string + string list" where
  "marshal_all pj [] parts = Inr parts"
| "marshal_all pj (m # ms) parts =
     (case pj_Marshal pj m of
        Inl err \<Rightarrow> Inl err
      | Inr b \<Rightarrow> marshal_all pj ms (parts @ [b]))"

text \<open>Each document is written before the next one is rendered.\<close>

fun print_yaml :: "(string \<Rightarrow> string + string) \<Rightarrow> 'o pjson \<Rightarrow> 'o list \<Rightarrow> string \<Rightarrow> cmd_result" where
  "print_yaml toYAML pj [] out = (None, out)"
| "print_yaml toYAML pj (m # ms) out =
     (case pj_Marshal pj m of
        Inl err \<Rightarrow> (Some (PrintError err), out)
      | Inr b \<Rightarrow>
          (case toYAML b of
             Inl err \<Rightarrow> (Some (PrintError err), out)
           | Inr y \<Rightarrow> print_yaml toYAML pj ms (out @ ''---'' @ [CHR 0x0A] @ y)))"

definition printObjects :: "cli_flags \<Rightarrow> (string \<Rightarrow> string + string) \<Rightarrow> 'o pjson \<Rightarrow> 'o list \<Rightarrow> cmd_result" where
  "printObjects fl toYAML pj items =
     (if fl_output fl = ''json'' then
        (case marshal_all pj items [] of
           Inl err \<Rightarrow> (Some (PrintError err), '''')
         | Inr parts \<Rightarrow>
             (case marshal_indent ''  '' parts of
                None \<Rightarrow> (Some (PrintError ''''), '''')
              | Some b \<Rightarrow> (None, b @ [CHR 0x0A])))
      else if fl_output fl = ''yaml'' then print_yaml toYAML pj items ''''
      else (Some (UnknownOutput (fl_output fl)), ''''))"

section \<open>Tables\<close>

text \<open>\<open>utf8.RuneCount\<close>; \<open>n\<close> bytes of the current rune are left.\<close>

definition rune_len :: "string \<Rightarrow> nat" where
  "rune_len s = utf8_len (map of_char s)"

fun rune_count :: "nat \<Rightarrow> string \<Rightarrow> nat" where
  "rune_count n [] = 0"
| "rune_count n (c # cs) =
     (if n > 0 then rune_count (n - 1) cs
      else Suc (rune_count (rune_len (c # cs) - 1) cs))"

fun split_where :: "(char \<Rightarrow> bool) \<Rightarrow> string \<Rightarrow> string \<Rightarrow> string list" where
  "split_where P acc [] = [rev acc]"
| "split_where P acc (c # cs) =
     (if P c then rev acc # split_where P [] cs else split_where P (c # acc) cs)"

text \<open>
  \<open>tabwriter.NewWriter(out, 0, 4, 2, ' ', 0)\<close>. A cell ended by a tab belongs to the column of
  its position in every neighbouring line that has such a cell there, and the column is as
  wide as its widest cell and the padding of two; the last cell of a line is in no column.
  A form feed ends a line and all columns.
\<close>

definition column_width :: "string list list \<Rightarrow> nat \<Rightarrow> nat \<Rightarrow> nat" where
  "column_width ls i j =
     (let inside = (\<lambda>l. j + 1 < length l);
          block = takeWhile inside (rev (take i ls)) @ takeWhile inside (drop i ls)
      in foldl max 0 (map (\<lambda>l. rune_count 0 (l ! j) + 2) block))"

definition format_cell :: "string list list \<Rightarrow> nat \<Rightarrow> nat \<Rightarrow> string" where
  "format_cell ls i j =
     (let cell = ls ! i ! j
      in if j + 1 < length (ls ! i)
         then cell @ replicate (column_width ls i j - rune_count 0 cell) (CHR '' '')
         else cell)"

definition format_lines :: "string list list \<Rightarrow> string" where
  "format_lines ls =
     join_with [CHR 0x0A]
       (map (\<lambda>i. concat (map (format_cell ls i) [0..<length (ls ! i)])) [0..<length ls])"

definition tabwriter :: "string \<Rightarrow> string" where
  "tabwriter s =
     join_with [CHR 0x0A]
       (map (\<lambda>region. format_lines (map (split_where (\<lambda>c. c = CHR 0x09 \<or> c = CHR 0x0B) [])
               (split_where (\<lambda>c. c = CHR 0x0A) [] region)))
         (split_where (\<lambda>c. c = CHR 0x0C) [] s))"

definition printTable :: "string list \<Rightarrow> string list list \<Rightarrow> string" where
  "printTable headers rows =
     tabwriter (concat (map (\<lambda>row. join_with [CHR 0x09] row @ [CHR 0x0A]) (headers # rows)))"

definition fmtInt :: "int \<Rightarrow> string" where
  "fmtInt v = show_int v"

text \<open>\<open>Format("15:04:05.000")\<close> of a timestamp's UTC time; of a missing one, the epoch's.\<close>

definition digits :: "nat \<Rightarrow> nat \<Rightarrow> string" where
  "digits w n = map (\<lambda>i. ''0123456789'' ! (n div 10 ^ i mod 10)) (rev [0..<w])"

definition clock_text :: "Timestamp option \<Rightarrow> string" where
  "clock_text ts =
     (let (secs, nanos) = (case ts of None \<Rightarrow> (0, 0) | Some t \<Rightarrow> t);
          t = nat ((secs + nanos div 1000000000) mod 86400);
          ms = nat (nanos mod 1000000000 div 1000000)
      in digits 2 (t div 3600) @ '':'' @ digits 2 (t div 60 mod 60) @ '':'' @ digits 2 (t mod 60)
         @ ''.'' @ digits 3 ms)"

end
