(* ===== verification/CliClient.thy ===== *)
theory CliClient
  imports CliOutput
begin

text \<open>
  How a command reaches the Keeper: \<open>cmd/hived/cmd/client.go\<close>. A service as the command line
  sees it is a record of its RPCs; the transport between a call and the Keeper's answer
  (\<open>net/http\<close> and \<open>connect\<close>) is what such a record stands for.
\<close>

section \<open>Calls\<close>

text \<open>The \<open>http.Client\<close>: its bounds on dialling and on waiting for the response's headers.\<close>

record http_client =
  hc_DialTimeout :: "int option"
  hc_ResponseHeaderTimeout :: "int option"

definition httpClient :: "cli_flags \<Rightarrow> http_client" where
  "httpClient fl =
     (if fl_timeout fl \<le> 0 then \<lparr>hc_DialTimeout = None, hc_ResponseHeaderTimeout = None\<rparr>
      else \<lparr>hc_DialTimeout = Some (fl_timeout fl), hc_ResponseHeaderTimeout = Some (fl_timeout fl)\<rparr>)"

text \<open>One call: base URL, HTTP client, deadline of the context, \<open>Authorization\<close> header.\<close>

record call =
  cl_URL :: string
  cl_HTTP :: http_client
  cl_Deadline :: "int option"
  cl_Auth :: string

definition commandContext :: "cli_flags \<Rightarrow> int option \<Rightarrow> int option" where
  "commandContext fl deadline =
     (if fl_timeout fl \<le> 0 then deadline
      else (case deadline of None \<Rightarrow> Some (fl_timeout fl) | Some d \<Rightarrow> Some (min d (fl_timeout fl))))"

definition auth_WrapUnary :: "string \<Rightarrow> (call \<Rightarrow> 'r) \<Rightarrow> call \<Rightarrow> 'r" where
  "auth_WrapUnary token next cl = next (cl\<lparr>cl_Auth := ''Bearer '' @ token\<rparr>)"

definition auth_WrapStreamingClient :: "string \<Rightarrow> (call \<Rightarrow> 'r) \<Rightarrow> call \<Rightarrow> 'r" where
  "auth_WrapStreamingClient token next cl = next (cl\<lparr>cl_Auth := ''Bearer '' @ token\<rparr>)"

definition auth_WrapStreamingHandler :: "string \<Rightarrow> 'h \<Rightarrow> 'h" where
  "auth_WrapStreamingHandler token next = next"

text \<open>The interceptor of \<open>clientOptions\<close>, by its token.\<close>

definition clientOptions :: "cli_flags \<Rightarrow> string option" where
  "clientOptions fl = (if fl_token fl = '''' then None else Some (fl_token fl))"

definition unary_call :: "cli_flags \<Rightarrow> (call \<Rightarrow> 'r) \<Rightarrow> int option \<Rightarrow> 'r" where
  "unary_call fl next deadline =
     (let cl = \<lparr>cl_URL = fl_server fl, cl_HTTP = httpClient fl, cl_Deadline = deadline, cl_Auth = ''''\<rparr>
      in case clientOptions fl of
           None \<Rightarrow> next cl
         | Some token \<Rightarrow> auth_WrapUnary token next cl)"

definition stream_call :: "cli_flags \<Rightarrow> (call \<Rightarrow> 'r) \<Rightarrow> int option \<Rightarrow> 'r" where
  "stream_call fl next deadline =
     (let cl = \<lparr>cl_URL = fl_server fl, cl_HTTP = httpClient fl, cl_Deadline = deadline, cl_Auth = ''''\<rparr>
      in case clientOptions fl of
           None \<Rightarrow> next cl
         | Some token \<Rightarrow> auth_WrapStreamingClient token next cl)"

section \<open>Services\<close>

text \<open>
  The RPCs of a resource service; \<open>'c\<close> is what a call is made with. A watch answers the
  messages received before the stream ended, and the error it ended with, if any.
\<close>

record ('c, 's, 'spec, 'status) service_rpcs =
  sv_Apply :: "'c \<Rightarrow> ('spec, 'status) object ApplyRequest \<Rightarrow> 's \<Rightarrow> (api_error + ('spec, 'status) object) \<times> 's"
  sv_Get :: "'c \<Rightarrow> GetRequest \<Rightarrow> 's \<Rightarrow> (api_error + ('spec, 'status) object) \<times> 's"
  sv_List :: "'c \<Rightarrow> ListRequest \<Rightarrow> 's \<Rightarrow> (api_error + ('spec, 'status) object ListResponse) \<times> 's"
  sv_Watch :: "'c \<Rightarrow> WatchRequest \<Rightarrow> 's \<Rightarrow> (('spec, 'status) object WatchEvent list \<times> api_error option) \<times> 's"

record 's keeper =
  kp_colony :: "(call, 's, ColonySpec, ColonyStatus) service_rpcs"
  kp_agent :: "(call, 's, AgentSpec, AgentStatus) service_rpcs"
  kp_agentVersion :: "(call, 's, AgentVersionSpec, AgentVersionStatus) service_rpcs"
  kp_run :: "(call, 's, RunSpec, RunStatus) service_rpcs"
  kp_tool :: "(call, 's, ToolSpec, ToolStatus) service_rpcs"
  kp_listEvents :: "call \<Rightarrow> ListEventsRequest \<Rightarrow> 's \<Rightarrow> (api_error + pb_Event list) \<times> 's"

definition new_client ::
  "cli_flags \<Rightarrow> (call, 's, 'spec, 'status) service_rpcs \<Rightarrow> (int option, 's, 'spec, 'status) service_rpcs" where
  "new_client fl W =
     \<lparr>sv_Apply = unary_call fl (sv_Apply W), sv_Get = unary_call fl (sv_Get W),
      sv_List = unary_call fl (sv_List W), sv_Watch = stream_call fl (sv_Watch W)\<rparr>"

definition colonyClient :: "cli_flags \<Rightarrow> 's keeper \<Rightarrow> (int option, 's, ColonySpec, ColonyStatus) service_rpcs" where
  "colonyClient fl K = new_client fl (kp_colony K)"

definition agentClient :: "cli_flags \<Rightarrow> 's keeper \<Rightarrow> (int option, 's, AgentSpec, AgentStatus) service_rpcs" where
  "agentClient fl K = new_client fl (kp_agent K)"

definition agentVersionClient ::
  "cli_flags \<Rightarrow> 's keeper \<Rightarrow> (int option, 's, AgentVersionSpec, AgentVersionStatus) service_rpcs" where
  "agentVersionClient fl K = new_client fl (kp_agentVersion K)"

definition runClient :: "cli_flags \<Rightarrow> 's keeper \<Rightarrow> (int option, 's, RunSpec, RunStatus) service_rpcs" where
  "runClient fl K = new_client fl (kp_run K)"

definition toolClient :: "cli_flags \<Rightarrow> 's keeper \<Rightarrow> (int option, 's, ToolSpec, ToolStatus) service_rpcs" where
  "toolClient fl K = new_client fl (kp_tool K)"

definition eventClient_List ::
  "cli_flags \<Rightarrow> 's keeper \<Rightarrow> int option \<Rightarrow> ListEventsRequest \<Rightarrow> 's \<Rightarrow> (api_error + pb_Event list) \<times> 's" where
  "eventClient_List fl K = unary_call fl (kp_listEvents K)"

definition notImplementedM1 :: "string \<Rightarrow> cli_error" where
  "notImplementedM1 what = NotImplementedM1 what"

lemmas client_defs = colonyClient_def agentClient_def agentVersionClient_def runClient_def toolClient_def
  eventClient_List_def new_client_def

lemma unary_call_eq:
  "unary_call fl next d = next \<lparr>cl_URL = fl_server fl, cl_HTTP = httpClient fl, cl_Deadline = d,
     cl_Auth = (if fl_token fl = '''' then '''' else ''Bearer '' @ fl_token fl)\<rparr>"
  by (simp add: unary_call_def clientOptions_def auth_WrapUnary_def Let_def)

lemma stream_call_eq: "stream_call fl next d = unary_call fl next d"
  by (simp add: unary_call_eq stream_call_def clientOptions_def auth_WrapStreamingClient_def Let_def)

end
