(* ===== verification/Keeper.thy ===== *)
theory Keeper
  imports Routing CliClient
begin

text \<open>
  The Keeper's API as a client finds it: \<open>NewHandler\<close> (\<open>internal/api/server.go\<close>) with its mux,
  the interceptor around every RPC and the handlers over one resource store and one event
  store. A call is delivered and answered; losing either is what any other value of type
  \<open>keeper\<close> may do. The clock and the random UIDs are read when the store is, so they are a
  function of its state, and \<open>ch\<close> gives the events a watch's channel delivered before the
  stream ended.
\<close>

record wire_codecs =
  wc_time :: pb_time
  wc_colony :: "(ColonySpec, ColonyStatus) codec"
  wc_agent :: "(AgentSpec, AgentStatus) codec"
  wc_agentVersion :: "(AgentVersionSpec, AgentVersionStatus) codec"
  wc_run :: "(RunSpec, RunStatus) codec"
  wc_tool :: "(ToolSpec, ToolStatus) codec"
  wc_payload :: payload_codec

definition not_found_404 :: api_error where
  "not_found_404 = ConnectError CodeUnimplemented ''404 Not Found''"

definition unary_rpc ::
  "verifier \<Rightarrow> service \<Rightarrow> meth \<Rightarrow> ('q \<Rightarrow> 's \<Rightarrow> (api_error + 'r) \<times> 's) \<Rightarrow> call \<Rightarrow> 'q \<Rightarrow> 's \<times> rpc_total
    \<Rightarrow> (api_error + 'r) \<times> 's \<times> rpc_total" where
  "unary_rpc V sv me h cl req st =
     (if mux_dispatch (procedure sv me) = Some (sv, me, Unary)
      then WrapUnary V (\<lambda>_ req s. apfst Returned (h req s)) (procedure sv me) None (cl_Auth cl) req st
      else (Inl not_found_404, st))"

text \<open>The messages sent on a stream are kept beside the service's state while the handler runs.\<close>

definition stream_rpc ::
  "verifier \<Rightarrow> service \<Rightarrow> meth \<Rightarrow> ('q \<Rightarrow> 's \<Rightarrow> 'e list \<times> api_error option) \<Rightarrow> call \<Rightarrow> 'q \<Rightarrow> 's \<times> rpc_total
    \<Rightarrow> ('e list \<times> api_error option) \<times> 's \<times> rpc_total" where
  "stream_rpc V sv me h cl req st =
     (if mux_dispatch (procedure sv me) = Some (sv, me, ServerStream) then
        (case WrapStreamingHandler V (\<lambda>_ (s, sent). (case h req s of (evs, err) \<Rightarrow> (Returned err, (s, evs))))
           (procedure sv me) None (cl_Auth cl) ((fst st, []), snd st) of
           (err, (s', evs), m') \<Rightarrow> ((evs, err), (s', m')))
      else (([], Some not_found_404), st))"

definition keeper_api ::
  "verifier \<Rightarrow> wire_codecs \<Rightarrow> 's ResourceStore \<Rightarrow> 's EventStore \<Rightarrow> ('s \<Rightarrow> env)
    \<Rightarrow> (string \<Rightarrow> list_options \<Rightarrow> int \<Rightarrow> 's \<Rightarrow> watch_event list) \<Rightarrow> ('s \<times> rpc_total) keeper" where
  "keeper_api V wc S E clock ch =
     (let T = wc_time wc in
     \<lparr>kp_colony =
        \<lparr>sv_Apply = unary_rpc V ColonyService ApplyRPC (\<lambda>req s. Colony_Apply T (wc_colony wc) S (clock s) req s),
         sv_Get = unary_rpc V ColonyService GetRPC (\<lambda>req s. (Colony_Get T (wc_colony wc) S (gt_Name req) s, s)),
         sv_List = unary_rpc V ColonyService ListRPC (\<lambda>req s. (Colony_List T (wc_colony wc) S req s, s)),
         sv_Watch = stream_rpc V ColonyService WatchRPC (\<lambda>req s. Colony_Watch T (wc_colony wc) (\<lambda>_ _. None)
           (ch ''Colony'' (colony_watch_options req) (wr_SinceResourceVersion req) s))\<rparr>,
      kp_agent =
        \<lparr>sv_Apply = unary_rpc V AgentService ApplyRPC (\<lambda>req s. Agent_Apply T (wc_agent wc) S (clock s) req s),
         sv_Get = unary_rpc V AgentService GetRPC (\<lambda>req s. (Agent_Get T (wc_agent wc) S req s, s)),
         sv_List = unary_rpc V AgentService ListRPC (\<lambda>req s. (Agent_List T (wc_agent wc) S req s, s)),
         sv_Watch = stream_rpc V AgentService WatchRPC (\<lambda>req s. Agent_Watch T (wc_agent wc) (\<lambda>_ _. None)
           (ch ''Agent'' (toListOptions (wr_Options req)) (wr_SinceResourceVersion req) s))\<rparr>,
      kp_agentVersion =
        \<lparr>sv_Apply = unary_rpc V AgentVersionService ApplyRPC
           (\<lambda>req s. AgentVersion_Apply T (wc_agentVersion wc) S (clock s) req s),
         sv_Get = unary_rpc V AgentVersionService GetRPC (\<lambda>req s. (AgentVersion_Get T (wc_agentVersion wc) S req s, s)),
         sv_List = unary_rpc V AgentVersionService ListRPC (\<lambda>req s. (AgentVersion_List T (wc_agentVersion wc) S req s, s)),
         sv_Watch = stream_rpc V AgentVersionService WatchRPC (\<lambda>req s. AgentVersion_Watch T (wc_agentVersion wc) (\<lambda>_ _. None)
           (ch ''AgentVersion'' (toListOptions (wr_Options req)) (wr_SinceResourceVersion req) s))\<rparr>,
      kp_run =
        \<lparr>sv_Apply = unary_rpc V RunService ApplyRPC (\<lambda>req s. Run_Apply T (wc_run wc) S (clock s) req s),
         sv_Get = unary_rpc V RunService GetRPC (\<lambda>req s. (Run_Get T (wc_run wc) S req s, s)),
         sv_List = unary_rpc V RunService ListRPC (\<lambda>req s. (Run_List T (wc_run wc) S req s, s)),
         sv_Watch = stream_rpc V RunService WatchRPC (\<lambda>req s. Run_Watch T (wc_run wc) (\<lambda>_ _. None)
           (ch ''Run'' (toListOptions (wr_Options req)) (wr_SinceResourceVersion req) s))\<rparr>,
      kp_tool =
        \<lparr>sv_Apply = unary_rpc V ToolService ApplyRPC (\<lambda>req s. Tool_Apply T (wc_tool wc) S (clock s) req s),
         sv_Get = unary_rpc V ToolService GetRPC (\<lambda>req s. (Tool_Get T (wc_tool wc) S req s, s)),
         sv_List = unary_rpc V ToolService ListRPC (\<lambda>req s. (Tool_List T (wc_tool wc) S req s, s)),
         sv_Watch = stream_rpc V ToolService WatchRPC (\<lambda>req s. Tool_Watch T (wc_tool wc) (\<lambda>_ _. None)
           (ch ''Tool'' (toListOptions (wr_Options req)) (wr_SinceResourceVersion req) s))\<rparr>,
      kp_listEvents = unary_rpc V EventService ListRPC (\<lambda>req s. (Event_List T (wc_payload wc) E req s, s))\<rparr>)"

section \<open>What a call does\<close>

text \<open>\<open>served V cl\<close>: the verifier lets the call in.\<close>

definition served :: "verifier \<Rightarrow> call \<Rightarrow> bool" where
  "served V cl \<longleftrightarrow> (\<exists>p. V None (strings_TrimPrefix (cl_Auth cl) ''Bearer '') = Inr p)"

lemma dispatch_unary [simp]:
  "procedure sv me \<noteq> '''' \<Longrightarrow> rpc_kind_of me = Unary \<Longrightarrow> mux_dispatch (procedure sv me) = Some (sv, me, Unary)"
  by (simp add: mux_dispatch_procedure del: procedure.simps)

lemma dispatch_stream [simp]:
  "procedure sv me \<noteq> '''' \<Longrightarrow> rpc_kind_of me = ServerStream \<Longrightarrow>
    mux_dispatch (procedure sv me) = Some (sv, me, ServerStream)"
  by (simp add: mux_dispatch_procedure del: procedure.simps)

lemma unary_rpc_result:
  assumes "procedure sv me \<noteq> ''''" "rpc_kind_of me = Unary"
  shows "unary_rpc V sv me h cl req (s, m) =
    (case V None (strings_TrimPrefix (cl_Auth cl) ''Bearer '') of
       Inl err \<Rightarrow> (Inl (ConnectError CodeUnauthenticated err), s,
         observe (procedure sv me) (Some (ConnectError CodeUnauthenticated err)) m)
     | Inr p \<Rightarrow> (case h req s of (r, s') \<Rightarrow>
         (r, s', observe (procedure sv me) (case r of Inl e \<Rightarrow> Some e | Inr _ \<Rightarrow> None) m)))"
  using assms
  by (simp add: unary_rpc_def WrapUnary_def authenticate_def WithPrincipal_def apfst_def map_prod_def
      Let_def del: procedure.simps split: sum.splits prod.splits)

lemma stream_rpc_result:
  assumes "procedure sv me \<noteq> ''''" "rpc_kind_of me = ServerStream"
  shows "stream_rpc V sv me h cl req (s, m) =
    (case V None (strings_TrimPrefix (cl_Auth cl) ''Bearer '') of
       Inl err \<Rightarrow> (([], Some (ConnectError CodeUnauthenticated err)), s,
         observe (procedure sv me) (Some (ConnectError CodeUnauthenticated err)) m)
     | Inr p \<Rightarrow> (case h req s of (evs, err) \<Rightarrow> ((evs, err), s, observe (procedure sv me) err m)))"
  using assms
  by (simp add: stream_rpc_def WrapStreamingHandler_def authenticate_def WithPrincipal_def
      Let_def del: procedure.simps split: sum.splits prod.splits)

end
