(* ===== verification/CliCommands.thy ===== *)
theory CliCommands
  imports CliClient
begin

text \<open>
  The commands of \<open>hived\<close>: \<open>apply.go\<close>, \<open>get.go\<close>, \<open>watch.go\<close>, \<open>events.go\<close>, \<open>run.go\<close>, \<open>kind.go\<close>,
  \<open>logs.go\<close>, \<open>approve.go\<close>, \<open>version.go\<close>, \<open>root.go\<close> and \<open>main.go\<close>. A command takes the flags, the
  Keeper's services and the state behind them, and answers its error, its output and the new
  state. The branches of a \<open>switch\<close> over the kind differ in their client, message type and
  columns only, so each is a call of one helper.
\<close>

section \<open>Kinds\<close>

definition resolveKind :: "string \<Rightarrow> cli_error + string" where
  "resolveKind alias =
     (if alias \<in> set [''colony'', ''colonies'', ''co''] then Inr ''Colony''
      else if alias \<in> set [''agent'', ''agents'', ''ag''] then Inr ''Agent''
      else if alias \<in> set [''agentversion'', ''agentversions'', ''av''] then Inr ''AgentVersion''
      else if alias \<in> set [''run'', ''runs''] then Inr ''Run''
      else if alias \<in> set [''tool'', ''tools''] then Inr ''Tool''
      else Inl (UnknownAlias alias))"

text \<open>\<open>protojson\<close> for every message that is read or printed, and \<open>yaml.JSONToYAML\<close>.\<close>

record codecs =
  cb_colony :: "Colony pjson"
  cb_agent :: "Agent pjson"
  cb_agentVersion :: "AgentVersion pjson"
  cb_run :: "Run pjson"
  cb_tool :: "Tool pjson"
  cb_event :: "pb_Event pjson"
  cb_toYAML :: "string \<Rightarrow> string + string"

section \<open>apply\<close>

definition apply_doc ::
  "cli_flags \<Rightarrow> codecs \<Rightarrow> ('spec, 'status) object pjson \<Rightarrow> (int option, 's, 'spec, 'status) service_rpcs
    \<Rightarrow> int option \<Rightarrow> string \<Rightarrow> 's \<Rightarrow> cmd_result \<times> 's" where
  "apply_doc fl cb pj C d js s =
     (case pj_Unmarshal pj js of
        Inl err \<Rightarrow> ((Some (DecodeError err), ''''), s)
      | Inr obj \<Rightarrow>
          (case sv_Apply C d \<lparr>ap_Object = Some obj, ap_IfResourceVersion = None\<rparr> s of
             (Inl err, s') \<Rightarrow> ((Some (RpcError err), ''''), s')
           | (Inr msg, s') \<Rightarrow> (printObject fl (cb_toYAML cb) pj msg, s')))"

definition applyOne ::
  "cli_flags \<Rightarrow> codecs \<Rightarrow> 's keeper \<Rightarrow> int option \<Rightarrow> manifest \<Rightarrow> 's \<Rightarrow> cmd_result \<times> 's" where
  "applyOne fl cb K d m s =
     (if mf_Kind m = ''Colony'' then apply_doc fl cb (cb_colony cb) (colonyClient fl K) d (mf_JSON m) s
      else if mf_Kind m = ''Agent'' then apply_doc fl cb (cb_agent cb) (agentClient fl K) d (mf_JSON m) s
      else if mf_Kind m = ''AgentVersion''
      then apply_doc fl cb (cb_agentVersion cb) (agentVersionClient fl K) d (mf_JSON m) s
      else if mf_Kind m = ''Run'' then apply_doc fl cb (cb_run cb) (runClient fl K) d (mf_JSON m) s
      else if mf_Kind m = ''Tool'' then apply_doc fl cb (cb_tool cb) (toolClient fl K) d (mf_JSON m) s
      else ((Some (UnknownKind (mf_Kind m)), ''''), s))"

definition applyOneWithTimeout ::
  "cli_flags \<Rightarrow> codecs \<Rightarrow> 's keeper \<Rightarrow> int option \<Rightarrow> manifest \<Rightarrow> 's \<Rightarrow> cmd_result \<times> 's" where
  "applyOneWithTimeout fl cb K d m s = applyOne fl cb K (commandContext fl d) m s"

text \<open>What a command leaves: its error, standard output and standard error.\<close>

record outcome_of =
  oc_error :: "cli_error option"
  oc_stdout :: string
  oc_stderr :: string

definition of_result :: "cmd_result \<Rightarrow> outcome_of" where
  "of_result r = \<lparr>oc_error = fst r, oc_stdout = snd r, oc_stderr = ''''\<rparr>"

definition progress_report :: "nat \<Rightarrow> nat \<Rightarrow> string" where
  "progress_report i n =
     ''applied '' @ show_int (int i) @ '' of '' @ show_int (int n)
     @ '' document(s) before this failure; '' @ show_int (int n - int i - 1) @ '' not attempted'' @ [CHR 0x0A]"

text \<open>The loop over the manifests; \<open>i\<close> of \<open>n\<close> are done and have printed \<open>out\<close>.\<close>

fun apply_loop ::
  "cli_flags \<Rightarrow> codecs \<Rightarrow> 's keeper \<Rightarrow> int option \<Rightarrow> nat \<Rightarrow> nat \<Rightarrow> manifest list \<Rightarrow> string \<Rightarrow> 's
    \<Rightarrow> outcome_of \<times> 's" where
  "apply_loop fl cb K d n i [] out s = (\<lparr>oc_error = None, oc_stdout = out, oc_stderr = ''''\<rparr>, s)"
| "apply_loop fl cb K d n i (m # ms) out s =
     (case applyOneWithTimeout fl cb K d m s of
        ((None, o1), s') \<Rightarrow> apply_loop fl cb K d n (i + 1) ms (out @ o1) s'
      | ((Some err, o1), s') \<Rightarrow>
          (\<lparr>oc_error = Some (InDocument (manifest_String m) err), oc_stdout = out @ o1,
            oc_stderr = (if i > 0 then progress_report i n else '''')\<rparr>, s'))"

definition cmd_apply ::
  "cli_flags \<Rightarrow> codecs \<Rightarrow> file_system \<Rightarrow> 'd yaml_lib \<Rightarrow> 's keeper \<Rightarrow> int option \<Rightarrow> string \<Rightarrow> 's
    \<Rightarrow> outcome_of \<times> 's" where
  "cmd_apply fl cb F Y K d file s =
     (if file = '''' then (of_result (Some (MissingFlag ''-f''), ''''), s)
      else (case readManifests F Y file of
         Inl err \<Rightarrow> (of_result (Some err, ''''), s)
       | Inr manifests \<Rightarrow>
           if manifests = [] then (of_result (Some (NoManifests file), ''''), s)
           else apply_loop fl cb K d (length manifests) 0 manifests '''' s))"

section \<open>get\<close>

definition get_doc ::
  "cli_flags \<Rightarrow> codecs \<Rightarrow> ('spec, 'status) object pjson \<Rightarrow> (int option, 's, 'spec, 'status) service_rpcs
    \<Rightarrow> int option \<Rightarrow> string \<Rightarrow> string \<Rightarrow> 's \<Rightarrow> cmd_result \<times> 's" where
  "get_doc fl cb pj C d colony name s =
     (case sv_Get C d \<lparr>gt_Colony = colony, gt_Name = name\<rparr> s of
        (Inl err, s') \<Rightarrow> ((Some (RpcError err), ''''), s')
      | (Inr msg, s') \<Rightarrow> (printObject fl (cb_toYAML cb) pj msg, s'))"

definition getOne ::
  "cli_flags \<Rightarrow> codecs \<Rightarrow> 's keeper \<Rightarrow> int option \<Rightarrow> string \<Rightarrow> string \<Rightarrow> 's \<Rightarrow> cmd_result \<times> 's" where
  "getOne fl cb K d kind name s =
     (if kind = ''Colony'' then get_doc fl cb (cb_colony cb) (colonyClient fl K) d '''' name s
      else if kind = ''Agent'' then get_doc fl cb (cb_agent cb) (agentClient fl K) d (fl_colony fl) name s
      else if kind = ''AgentVersion''
      then get_doc fl cb (cb_agentVersion cb) (agentVersionClient fl K) d (fl_colony fl) name s
      else if kind = ''Run'' then get_doc fl cb (cb_run cb) (runClient fl K) d (fl_colony fl) name s
      else if kind = ''Tool'' then get_doc fl cb (cb_tool cb) (toolClient fl K) d (fl_colony fl) name s
      else ((Some (UnknownKind kind), ''''), s))"

definition list_request :: "cli_flags \<Rightarrow> ListRequest" where
  "list_request fl = \<lparr>ls_Options = Some \<lparr>pb_Colony = fl_colony fl, pb_LabelSelector = fmempty,
     pb_PageSize = 0, pb_PageToken = ''''\<rparr>\<rparr>"

text \<open>A row is \<^const>\<open>None\<close> where the code would read through a nil pointer.\<close>

definition list_doc ::
  "cli_flags \<Rightarrow> codecs \<Rightarrow> ('spec, 'status) object pjson \<Rightarrow> (int option, 's, 'spec, 'status) service_rpcs
    \<Rightarrow> string list \<Rightarrow> (('spec, 'status) object \<Rightarrow> string list option) \<Rightarrow> int option \<Rightarrow> 's \<Rightarrow> cmd_result \<times> 's" where
  "list_doc fl cb pj C headers row d s =
     (case sv_List C d (list_request fl) s of
        (Inl err, s') \<Rightarrow> ((Some (RpcError err), ''''), s')
      | (Inr resp, s') \<Rightarrow>
          (if fl_output fl \<noteq> ''table'' then printObjects fl (cb_toYAML cb) pj (rp_Items resp)
           else (case those (map row (rp_Items resp)) of
              None \<Rightarrow> (Some NilDereference, '''')
            | Some rows \<Rightarrow> (None, printTable headers rows)), s'))"

definition colony_row :: "Colony \<Rightarrow> string list option" where
  "colony_row c = (case (ob_Metadata c, ob_Spec c) of
     (Some m, Some sp) \<Rightarrow> Some [om_Name m, cs_DisplayName sp, fmtInt (om_Generation m)] | _ \<Rightarrow> None)"

definition agent_row :: "Agent \<Rightarrow> string list option" where
  "agent_row a = (case (ob_Metadata a, ob_Status a) of
     (Some m, Some st) \<Rightarrow> Some [om_Colony m, om_Name m, at_Current st] | _ \<Rightarrow> None)"

definition agentVersion_row :: "AgentVersion \<Rightarrow> string list option" where
  "agentVersion_row av = (case (ob_Metadata av, ob_Spec av) of
     (Some m, Some sp) \<Rightarrow> Some [om_Colony m, om_Name m, av_Agent sp, av_Version sp] | _ \<Rightarrow> None)"

definition run_row :: "Run \<Rightarrow> string list option" where
  "run_row r = (case (ob_Metadata r, ob_Spec r, ob_Status r) of
     (Some m, Some sp, Some st) \<Rightarrow>
       Some [om_Colony m, om_Name m, rn_AgentRef sp, enum_string RunPhase_name (ru_Phase st)] | _ \<Rightarrow> None)"

definition tool_row :: "Tool \<Rightarrow> string list option" where
  "tool_row t = (case (ob_Metadata t, ob_Spec t) of
     (Some m, Some sp) \<Rightarrow>
       Some [om_Colony m, om_Name m, enum_string ToolType_name (ts_Type sp), ts_RiskClass sp] | _ \<Rightarrow> None)"

definition listAll :: "cli_flags \<Rightarrow> codecs \<Rightarrow> 's keeper \<Rightarrow> int option \<Rightarrow> string \<Rightarrow> 's \<Rightarrow> cmd_result \<times> 's" where
  "listAll fl cb K d kind s =
     (if kind = ''Colony''
      then list_doc fl cb (cb_colony cb) (colonyClient fl K) [''NAME'', ''DISPLAY NAME'', ''GENERATION''] colony_row d s
      else if kind = ''Agent''
      then list_doc fl cb (cb_agent cb) (agentClient fl K) [''COLONY'', ''NAME'', ''CURRENT VERSION''] agent_row d s
      else if kind = ''AgentVersion''
      then list_doc fl cb (cb_agentVersion cb) (agentVersionClient fl K)
             [''COLONY'', ''NAME'', ''AGENT'', ''VERSION''] agentVersion_row d s
      else if kind = ''Run''
      then list_doc fl cb (cb_run cb) (runClient fl K) [''COLONY'', ''NAME'', ''AGENT'', ''PHASE''] run_row d s
      else if kind = ''Tool''
      then list_doc fl cb (cb_tool cb) (toolClient fl K) [''COLONY'', ''NAME'', ''TYPE'', ''RISK''] tool_row d s
      else ((Some (UnknownKind kind), ''''), s))"

definition cmd_get ::
  "cli_flags \<Rightarrow> codecs \<Rightarrow> 's keeper \<Rightarrow> int option \<Rightarrow> string \<Rightarrow> string option \<Rightarrow> 's \<Rightarrow> cmd_result \<times> 's" where
  "cmd_get fl cb K d alias name s =
     (case resolveKind alias of
        Inl err \<Rightarrow> ((Some err, ''''), s)
      | Inr kind \<Rightarrow>
          (case name of
             Some n \<Rightarrow> getOne fl cb K (commandContext fl d) kind n s
           | None \<Rightarrow> listAll fl cb K (commandContext fl d) kind s))"

end
