(* ===== verification/CliRoot.thy ===== *)
theory CliRoot
  imports CliCommands
begin

text \<open>
  The remaining commands of \<open>hived\<close> (\<open>watch.go\<close>, \<open>events.go\<close>, \<open>run.go\<close>, \<open>logs.go\<close>,
  \<open>approve.go\<close>, \<open>version.go\<close>) and the root that runs them (\<open>root.go\<close>, \<open>cmd/hived/main.go\<close>).
\<close>

section \<open>watch\<close>

text \<open>The name printed for an event; \<^const>\<open>None\<close> is a read through a nil pointer.\<close>

definition colony_event_name :: "Colony WatchEvent \<Rightarrow> string option" where
  "colony_event_name ev =
     (case wv_Object ev of None \<Rightarrow> Some '''' | Some ob \<Rightarrow> map_option om_Name (ob_Metadata ob))"

definition scoped_event_name :: "('spec, 'status) object WatchEvent \<Rightarrow> string option" where
  "scoped_event_name ev =
     (case wv_Object ev of
        None \<Rightarrow> Some ''''
      | Some ob \<Rightarrow> map_option (\<lambda>m. om_Colony m @ ''/'' @ om_Name m) (ob_Metadata ob))"

definition watch_line :: "'o WatchEvent \<Rightarrow> string \<Rightarrow> string" where
  "watch_line ev name =
     enum_string WatchEventType_name (wv_Type ev) @ [CHR 0x09] @ show_int (wv_ResourceVersion ev)
     @ [CHR 0x09] @ name @ [CHR 0x0A]"

text \<open>The \<open>Receive\<close> loop: \<open>ending\<close> is \<open>stream.Err()\<close> once it is over.\<close>

fun receive_loop :: "('o WatchEvent \<Rightarrow> string option) \<Rightarrow> 'o WatchEvent list \<Rightarrow> cli_error option \<Rightarrow> string \<Rightarrow> cmd_result" where
  "receive_loop name_of [] ending out = (ending, out)"
| "receive_loop name_of (ev # evs) ending out =
     (case name_of ev of
        None \<Rightarrow> (Some NilDereference, out)
      | Some name \<Rightarrow> receive_loop name_of evs ending (out @ watch_line ev name))"

definition watch_request :: "cli_flags \<Rightarrow> int \<Rightarrow> WatchRequest" where
  "watch_request fl since = \<lparr>wr_Options = Some \<lparr>pb_Colony = fl_colony fl, pb_LabelSelector = fmempty,
     pb_PageSize = 0, pb_PageToken = ''''\<rparr>, wr_SinceResourceVersion = since\<rparr>"

definition watch_doc ::
  "cli_flags \<Rightarrow> (int option, 's, 'spec, 'status) service_rpcs \<Rightarrow> (('spec, 'status) object WatchEvent \<Rightarrow> string option)
    \<Rightarrow> int option \<Rightarrow> int \<Rightarrow> 's \<Rightarrow> cmd_result \<times> 's" where
  "watch_doc fl C name_of d since s =
     (case sv_Watch C d (watch_request fl since) s of
        ((evs, err), s') \<Rightarrow> (receive_loop name_of evs (map_option RpcError err) '''', s'))"

definition watchKind :: "cli_flags \<Rightarrow> 's keeper \<Rightarrow> int option \<Rightarrow> string \<Rightarrow> int \<Rightarrow> 's \<Rightarrow> cmd_result \<times> 's" where
  "watchKind fl K d kind since s =
     (if kind = ''Colony'' then watch_doc fl (colonyClient fl K) colony_event_name d since s
      else if kind = ''Agent'' then watch_doc fl (agentClient fl K) scoped_event_name d since s
      else if kind = ''AgentVersion'' then watch_doc fl (agentVersionClient fl K) scoped_event_name d since s
      else if kind = ''Run'' then watch_doc fl (runClient fl K) scoped_event_name d since s
      else if kind = ''Tool'' then watch_doc fl (toolClient fl K) scoped_event_name d since s
      else ((Some (UnknownKind kind), ''''), s))"

definition cmd_watch :: "cli_flags \<Rightarrow> 's keeper \<Rightarrow> int option \<Rightarrow> string \<Rightarrow> int \<Rightarrow> 's \<Rightarrow> cmd_result \<times> 's" where
  "cmd_watch fl K d alias since s =
     (case resolveKind alias of
        Inl err \<Rightarrow> ((Some err, ''''), s)
      | Inr kind \<Rightarrow> watchKind fl K d kind since s)"

section \<open>events\<close>

text \<open>Not in table form, the events are printed one by one, up to the first that fails.\<close>

fun print_each :: "cli_flags \<Rightarrow> codecs \<Rightarrow> pb_Event list \<Rightarrow> string \<Rightarrow> cmd_result" where
  "print_each fl cb [] out = (None, out)"
| "print_each fl cb (e # es) out =
     (case printObject fl (cb_toYAML cb) (cb_event cb) e of
        (None, o1) \<Rightarrow> print_each fl cb es (out @ o1)
      | (Some err, o1) \<Rightarrow> (Some err, out @ o1))"

definition event_row :: "pb_Event \<Rightarrow> string list" where
  "event_row e = [fmtInt (ev_Seq e), ev_Type e, clock_text (ev_Ts e)]"

definition cmd_events ::
  "cli_flags \<Rightarrow> codecs \<Rightarrow> 's keeper \<Rightarrow> int option \<Rightarrow> string \<Rightarrow> int \<Rightarrow> 's \<Rightarrow> cmd_result \<times> 's" where
  "cmd_events fl cb K d run sinceSeq s =
     (if fl_colony fl = '''' then ((Some (MissingFlag ''--colony''), ''''), s)
      else
        (case eventClient_List fl K (commandContext fl d)
           \<lparr>le_req_Colony = fl_colony fl, le_req_Run = run, le_req_SinceSeq = sinceSeq, le_req_Limit = 0\<rparr> s of
           (Inl err, s') \<Rightarrow> ((Some (RpcError err), ''''), s')
         | (Inr items, s') \<Rightarrow>
             (if fl_output fl \<noteq> ''table'' then print_each fl cb items ''''
              else (None, printTable [''SEQ'', ''TYPE'', ''TIME''] (map event_row items)), s')))"

section \<open>run\<close>

text \<open>\<open>json.Unmarshal\<close> into a \<open>map[string]any\<close>, then \<open>structpb.NewStruct\<close>, which does not fail on it.\<close>

definition parse_input :: "string \<Rightarrow> cli_error + Struct option" where
  "parse_input input =
     (if input = '''' then Inr None
      else (case json_Unmarshal input of
         Some (JObj es) \<Rightarrow> Inr (Some es)
       | Some JNull \<Rightarrow> Inr (Some [])
       | _ \<Rightarrow> Inl BadInput))"

definition run_object :: "cli_flags \<Rightarrow> string \<Rightarrow> string \<Rightarrow> Struct option \<Rightarrow> Run" where
  "run_object fl agent name input =
     \<lparr>ob_Metadata = Some \<lparr>om_Name = name, om_Colony = fl_colony fl, om_Uid = '''', om_Generation = 0,
        om_ResourceVersion = 0, om_Labels = fmempty, om_Annotations = fmempty, om_CreatedAt = None,
        om_UpdatedAt = None, om_DeletedAt = None\<rparr>,
      ob_Spec = Some (empty_RunSpec\<lparr>rn_AgentRef := agent, rn_Input := input\<rparr>), ob_Status = None\<rparr>"

definition run_warning :: string where
  "run_warning = ''warning: Run created as PENDING but nothing will schedule it '' @ [CHR 0xE2, CHR 0x80, CHR 0x94]
     @ '' there is no Scheduler until M1'' @ [CHR 0x0A]"

definition cmd_run ::
  "cli_flags \<Rightarrow> codecs \<Rightarrow> 's keeper \<Rightarrow> int option \<Rightarrow> string \<Rightarrow> string \<Rightarrow> string \<Rightarrow> 's \<Rightarrow> outcome_of \<times> 's" where
  "cmd_run fl cb K d agent name input s =
     (if fl_colony fl = '''' then (of_result (Some (MissingFlag ''--colony''), ''''), s)
      else if name = '''' then (of_result (Some (MissingFlag ''--name''), ''''), s)
      else (case parse_input input of
         Inl err \<Rightarrow> (of_result (Some err, ''''), s)
       | Inr inp \<Rightarrow>
           (case sv_Apply (runClient fl K) (commandContext fl d)
                   \<lparr>ap_Object = Some (run_object fl agent name inp), ap_IfResourceVersion = None\<rparr> s of
              (Inl err, s') \<Rightarrow> (of_result (Some (RpcError err), ''''), s')
            | (Inr msg, s') \<Rightarrow>
                ((of_result (printObject fl (cb_toYAML cb) (cb_run cb) msg))\<lparr>oc_stderr := run_warning\<rparr>, s'))))"

section \<open>logs and approve\<close>

definition cmd_logs :: "string \<Rightarrow> 's \<Rightarrow> cmd_result \<times> 's" where
  "cmd_logs run s = ((Some (notImplementedM1 ''logs''), ''''), s)"

definition cmd_approve :: "string \<Rightarrow> 's \<Rightarrow> cmd_result \<times> 's" where
  "cmd_approve run s = ((Some (notImplementedM1 ''approve''), ''''), s)"

lemmas unimplemented_commands [simp] = cmd_logs_def cmd_approve_def

section \<open>The root command\<close>

text \<open>\<open>internal/version\<close>: the build's variables.\<close>

record build_info =
  bi_Version :: string
  bi_Commit :: string
  bi_BuildDate :: string

definition dev_build :: build_info where
  "dev_build = \<lparr>bi_Version = ''dev'', bi_Commit = ''unknown'', bi_BuildDate = ''unknown''\<rparr>"

definition version_text :: "string \<Rightarrow> build_info \<Rightarrow> string" where
  "version_text prog b = prog @ '' '' @ bi_Version b @ '' (commit '' @ bi_Commit b
     @ '', built '' @ bi_BuildDate b @ '')'' @ [CHR 0x0A]"

text \<open>
  A command line as Cobra parses it and checks the number of its arguments: the subcommand,
  its arguments and its own flags.
\<close>

datatype command =
    Apply_Cmd string
  | Get_Cmd string "string option"
  | Watch_Cmd string int
  | Events_Cmd string int
  | Run_Cmd string string string
  | Logs_Cmd string
  | Approve_Cmd string
  | Version_Cmd

fun run_command ::
  "cli_flags \<Rightarrow> codecs \<Rightarrow> file_system \<Rightarrow> 'd yaml_lib \<Rightarrow> build_info \<Rightarrow> 's keeper \<Rightarrow> int option \<Rightarrow> command \<Rightarrow> 's
    \<Rightarrow> outcome_of \<times> 's" where
  "run_command fl cb F Y b K d (Apply_Cmd f) s = cmd_apply fl cb F Y K d f s"
| "run_command fl cb F Y b K d (Get_Cmd alias name) s = apfst of_result (cmd_get fl cb K d alias name s)"
| "run_command fl cb F Y b K d (Watch_Cmd alias since) s = apfst of_result (cmd_watch fl K d alias since s)"
| "run_command fl cb F Y b K d (Events_Cmd run since) s = apfst of_result (cmd_events fl cb K d run since s)"
| "run_command fl cb F Y b K d (Run_Cmd agent name input) s = cmd_run fl cb K d agent name input s"
| "run_command fl cb F Y b K d (Logs_Cmd run) s = apfst of_result (cmd_logs run s)"
| "run_command fl cb F Y b K d (Approve_Cmd run) s = apfst of_result (cmd_approve run s)"
| "run_command fl cb F Y b K d Version_Cmd s = (of_result (None, version_text ''hived'' b), s)"

text \<open>\<open>PersistentPreRunE\<close> comes before every command.\<close>

definition execute ::
  "cli_flags \<Rightarrow> codecs \<Rightarrow> file_system \<Rightarrow> 'd yaml_lib \<Rightarrow> build_info \<Rightarrow> 's keeper \<Rightarrow> int option \<Rightarrow> command \<Rightarrow> 's
    \<Rightarrow> outcome_of \<times> 's" where
  "execute fl cb F Y b K d c s =
     (case validateOutput fl of
        Some err \<Rightarrow> (of_result (Some err, ''''), s)
      | None \<Rightarrow> run_command fl cb F Y b K d c s)"

text \<open>\<open>main\<close>: the exit code, and the error reported unless it is a cancelled context.\<close>

definition hived_main :: "(cli_error \<Rightarrow> bool) \<Rightarrow> cli_error option \<Rightarrow> int \<times> cli_error option" where
  "hived_main is_canceled err =
     (case err of
        None \<Rightarrow> (0, None)
      | Some e \<Rightarrow> (1, if is_canceled e then None else Some e))"

end
