(* ===== verification/CliSamples.thy ===== *)
theory CliSamples
  imports ApiProps Keeper KeeperMain
begin

text \<open>
  Concrete inputs of the command line: a directory of two manifests, printers and codecs that
  know one message each, and a Keeper over an empty PostgreSQL database.
\<close>

section \<open>A directory\<close>

definition sample_json :: string where
  "sample_json = ''{\"kind\":\"Robot\",\"apiVersion\":\"hived/v1alpha1\"}''"

definition sample_fs :: file_system where
  "sample_fs = \<lparr>fs_Stat = (\<lambda>p. Inr (p = ''d'')),
     fs_Glob = (\<lambda>dir pat. Inr (if pat = ''*.yml'' then [''d/b.yml''] else if pat = ''*.json'' then [''d/a.json''] else [])),
     fs_ReadFile = (\<lambda>f. Inr sample_json), fs_Stdin = Inr ''''\<rparr>"

text \<open>A decoder that takes its input for one document of JSON, followed by an empty one.\<close>

definition sample_yaml :: "string yaml_lib" where
  "sample_yaml = \<lparr>yl_Decode = (\<lambda>raw. ([Some raw, None], None)), yl_Marshal = Inr, yl_ToJSON = Inr\<rparr>"

lemma sample_tokens:
  "json_tokens sample_json = Some
    [(TPunct (CHR ''{''), ''{''), (TStr ''kind'', ''\"kind\"''), (TPunct (CHR '':''), '':''), (TStr ''Robot'', ''\"Robot\"''),
     (TPunct (CHR '',''), '',''), (TStr ''apiVersion'', ''\"apiVersion\"''), (TPunct (CHR '':''), '':''),
     (TStr SupportedAPIVersion, ''\"hived/v1alpha1\"''), (TPunct (CHR ''}''), ''}'')]"
  by code_simp

lemma sample_fields:
  "field_is ''kind'' ''kind''" "field_is ''apiVersion'' ''apiVersion''" "\<not> field_is ''apiVersion'' ''kind''"
  "\<not> field_is ''name'' ''kind''" "\<not> field_is ''colony'' ''kind''"
  by (simp_all add: field_is_def fold_name_def)

definition robot_in :: "string \<Rightarrow> manifest" where
  "robot_in f = \<lparr>mf_APIVersion = SupportedAPIVersion, mf_Kind = ''Robot'', mf_Name = '''', mf_Colony = '''',
     mf_JSON = ''{}'', mf_Source = f, mf_Index = 0\<rparr>"

lemma sample_doc: "read_doc sample_yaml f sample_json 0 = Inr (robot_in f)"
  using sample_tokens
  by (simp add: read_doc_def sample_yaml_def decode_envelope_def stripEnvelopeFields_def unmarshal_fields_def is_null_def
      is_object_def object_members_def opens_def closes_def sample_fields empty_envelope_def SupportedAPIVersion_def
      marshal_fields_def robot_in_def)

lemma sample_manifests:
  "readManifests sample_fs sample_yaml ''d'' = Inr (map robot_in [''d/a.json'', ''d/b.yml''])"
proof -
  have "readDocs sample_fs sample_yaml f = Inr [robot_in f]" if "f \<noteq> ''-''" for f
    using that sample_doc [of f]
    by (simp add: readDocs_def sample_fs_def) (simp add: sample_yaml_def)
  moreover have "manifest_files sample_fs ''d'' = Inr [''d/a.json'', ''d/b.yml'']"
    by (simp add: manifest_files_def sample_fs_def manifest_patterns_def)
  ultimately show ?thesis by (simp add: readManifests_def)
qed

section \<open>A Keeper\<close>

definition sample_pjson :: "'o \<Rightarrow> 'o pjson" where
  "sample_pjson ob = \<lparr>pj_Unmarshal = (\<lambda>_. Inr ob), pj_Marshal = (\<lambda>_. Inr ''{}''), pj_Indent = (\<lambda>_. Inr ''{}'')\<rparr>"

definition sample_object :: "'spec \<Rightarrow> ('spec, 'status) object" where
  "sample_object sp = \<lparr>ob_Metadata = Some sample_meta, ob_Spec = Some sp, ob_Status = None\<rparr>"

definition sample_event :: pb_Event where
  "sample_event = \<lparr>ev_Colony = ''c'', ev_Run = ''r'', ev_Seq = 0, ev_Type = ''t'', ev_Ts = None,
     ev_Payload = None, ev_ResourceVersion = 0\<rparr>"

definition sample_codecs :: codecs where
  "sample_codecs = \<lparr>cb_colony = sample_pjson (sample_object empty_ColonySpec),
     cb_agent = sample_pjson (sample_object empty_AgentSpec),
     cb_agentVersion = sample_pjson (sample_object empty_AgentVersionSpec),
     cb_run = sample_pjson (sample_object empty_RunSpec),
     cb_tool = sample_pjson (sample_object empty_ToolSpec),
     cb_event = sample_pjson sample_event, cb_toYAML = Inr\<rparr>"

definition sample_wire :: wire_codecs where
  "sample_wire = \<lparr>wc_time = sample_time, wc_colony = sample_codec empty_ColonySpec empty_ColonyStatus,
     wc_agent = sample_codec empty_AgentSpec empty_AgentStatus,
     wc_agentVersion = sample_codec empty_AgentVersionSpec empty_AgentVersionStatus,
     wc_run = sample_codec empty_RunSpec empty_RunStatus, wc_tool = sample_codec empty_ToolSpec empty_ToolStatus,
     wc_payload = \<lparr>pc_Marshal = (\<lambda>_. Inr ''{}''), pc_Unmarshal = (\<lambda>_. Inr [])\<rparr>\<rparr>"

definition sample_keeper :: "verifier \<Rightarrow> (Postgres \<times> rpc_total) keeper" where
  "sample_keeper V = keeper_api V sample_wire (pg_ResourceStore plain_engine) (pg_EventStore plain_engine)
     (\<lambda>_. env_a) (\<lambda>_ _ _ _. [])"

definition agent_manifest :: manifest where
  "agent_manifest = \<lparr>mf_APIVersion = SupportedAPIVersion, mf_Kind = ''Agent'', mf_Name = ''a'', mf_Colony = ''c'',
     mf_JSON = ''{}'', mf_Source = ''d/a.json'', mf_Index = 0\<rparr>"

lemmas keeper_sample_defs = sample_pjson_def sample_object_def sample_codecs_def sample_wire_def sample_keeper_def
  agent_manifest_def sample_codec_def sample_meta_def

end
