(* ===== verification/CliProps.thy ===== *)
theory CliProps
  imports CliSamples
begin

text \<open>
  The properties of the command line on its own, over any Keeper: manifests are read
  completely and in order, and \<open>apply\<close> stops at the first that fails.
\<close>

section \<open>Reading manifests\<close>

text \<open>The documents of a stream that are not nil.\<close>

definition documents :: "'d option list \<Rightarrow> 'd list" where
  "documents ds = map the (filter (\<lambda>d. d \<noteq> None) ds)"

lemma documents_simps [simp]:
  "documents [] = []" "documents (None # ds) = documents ds" "documents (Some d # ds) = d # documents ds"
  by (simp_all add: documents_def)

lemma read_doc_Inr:
  assumes "read_doc Y file d n = Inr m"
  shows "mf_APIVersion m = SupportedAPIVersion" "mf_Kind m \<noteq> ''''" "mf_Source m = file" "mf_Index m = n"
  using assms by (auto simp: read_doc_def split: sum.splits option.splits if_splits)

lemma read_docs_loop_Inr:
  "read_docs_loop Y file i ds ending docs = Inr ms \<longleftrightarrow> ending = None \<and>
    (\<exists>new. ms = docs @ new
      \<and> list_all2 (\<lambda>(k, d) m. read_doc Y file d (int k) = Inr m) (enumerate (length docs) (documents ds)) new)"
proof (induction ds arbitrary: i docs)
  case Nil
  show ?case by (auto split: option.splits)
next
  case (Cons d ds)
  show ?case
  proof (cases d)
    case None
    then show ?thesis by (simp add: Cons.IH)
  next
    case (Some x)
    then show ?thesis
      by (cases "read_doc Y file x (int (length docs))")
        (auto simp: Cons.IH list_all2_Cons1 split: sum.splits)
  qed
qed

text \<open>
  C26: \<open>readDocs\<close> loses nothing: it succeeds exactly when the stream decodes to its end and
  every document that is not nil is a manifest, and then returns one manifest for each, in
  their order and numbered by it; each names a kind and has the one supported \<open>apiVersion\<close>.
\<close>

theorem manifests_complete:
  "readDocs F Y file = Inr ms \<longleftrightarrow>
    (\<exists>raw ds. (if file = ''-'' then fs_Stdin F else fs_ReadFile F file) = Inr raw \<and> yl_Decode Y raw = (ds, None)
      \<and> list_all2 (\<lambda>(k, d) m. read_doc Y file d (int k) = Inr m \<and> mf_Index m = int k \<and> mf_Source m = file
          \<and> mf_Kind m \<noteq> '''' \<and> mf_APIVersion m = SupportedAPIVersion) (enumerate 0 (documents ds)) ms)"
proof -
  have "(\<lambda>(k, d) m. read_doc Y file d (int k) = Inr m \<and> mf_Index m = int k \<and> mf_Source m = file
      \<and> mf_Kind m \<noteq> '''' \<and> mf_APIVersion m = SupportedAPIVersion) = (\<lambda>(k, d) m. read_doc Y file d (int k) = Inr m)"
    using read_doc_Inr by (fastforce simp: fun_eq_iff)
  then show ?thesis
    by (auto simp: readDocs_def read_docs_loop_Inr split: sum.splits prod.splits)
qed

lemma glob_all_Inr:
  "glob_all F path exts seen = Inr files \<Longrightarrow> distinct seen \<Longrightarrow>
    distinct files \<and> set files = set seen \<union> {f. \<exists>ext\<in>set exts. \<exists>ms. fs_Glob F path ext = Inr ms \<and> f \<in> set ms}"
proof (induction exts arbitrary: seen)
  case Nil
  then show ?case by simp
next
  case (Cons ext exts)
  then obtain ms where ms: "fs_Glob F path ext = Inr ms"
    "glob_all F path exts (seen @ filter (\<lambda>m. m \<notin> set seen) (remdups ms)) = Inr files"
    by (auto split: sum.splits)
  have "distinct (seen @ filter (\<lambda>m. m \<notin> set seen) (remdups ms))" using Cons.prems(2) by auto
  from Cons.IH [OF ms(2) this] show ?case using ms(1) by auto
qed

lemma read_files_Inr:
  "read_files F Y files out = Inr ms \<longleftrightarrow>
    (\<exists>parts. ms = out @ concat parts \<and> list_all2 (\<lambda>f docs. readDocs F Y f = Inr docs) files parts)"
proof (induction files arbitrary: out)
  case Nil
  then show ?case by auto
next
  case (Cons f files)
  show ?case
    by (cases "readDocs F Y f") (auto simp: Cons.IH list_all2_Cons1, metis concat.simps(2))
qed

text \<open>
  A directory is applied whole and in the order of its file names, whatever their
  extension: the manifests are those of every file a pattern matches, each file once.
\<close>

theorem directory_in_order:
  assumes "path \<noteq> ''-''" "fs_Stat F path = Inr True" "readManifests F Y path = Inr ms"
  shows "\<exists>files parts. sorted files \<and> distinct files
    \<and> set files = {f. \<exists>ext\<in>set manifest_patterns. \<exists>fs. fs_Glob F path ext = Inr fs \<and> f \<in> set fs}
    \<and> list_all2 (\<lambda>f docs. readDocs F Y f = Inr docs) files parts \<and> ms = concat parts"
proof -
  obtain seen where seen: "glob_all F path manifest_patterns [] = Inr seen"
    "read_files F Y (sort seen) [] = Inr ms"
    using assms by (auto simp: readManifests_def manifest_files_def split: sum.splits bool.splits)
  then show ?thesis
    using glob_all_Inr [OF seen(1)] by (intro exI [of _ "sort seen"]) (auto simp: read_files_Inr)
qed

theorem directory_in_order_witness:
  "\<exists>files parts. sorted files \<and> distinct files \<and> set files = {''d/b.yml'', ''d/a.json''}
    \<and> list_all2 (\<lambda>f docs. readDocs sample_fs sample_yaml f = Inr docs) files parts
    \<and> map mf_Source (concat parts) = [''d/a.json'', ''d/b.yml'']"
proof -
  have "''d'' \<noteq> ''-''" "fs_Stat sample_fs ''d'' = Inr True" by (simp_all add: sample_fs_def)
  from directory_in_order [OF this sample_manifests]
  obtain files parts where f: "sorted files" "distinct files"
    "set files = {f. \<exists>ext\<in>set manifest_patterns. \<exists>fs. fs_Glob sample_fs ''d'' ext = Inr fs \<and> f \<in> set fs}"
    "list_all2 (\<lambda>f docs. readDocs sample_fs sample_yaml f = Inr docs) files parts"
    "map robot_in [''d/a.json'', ''d/b.yml''] = concat parts"
    by blast
  have sources: "map mf_Source (concat parts) = [''d/a.json'', ''d/b.yml'']"
    unfolding f(5) [symmetric] by (simp add: robot_in_def)
  have files: "set files = {''d/b.yml'', ''d/a.json''}"
    unfolding f(3) manifest_patterns_def by (simp add: sample_fs_def) blast
  show ?thesis
    by (intro exI [of _ files] exI [of _ parts] conjI f(1,2,4) files sources)
qed

section \<open>apply\<close>

text \<open>Whether a document is applied without an error, and the state after a list of them.\<close>

definition doc_error_of :: "cli_flags \<Rightarrow> codecs \<Rightarrow> 's keeper \<Rightarrow> int option \<Rightarrow> 's \<Rightarrow> manifest \<Rightarrow> cli_error option" where
  "doc_error_of fl cb K d s m = fst (fst (applyOneWithTimeout fl cb K d m s))"

definition applied :: "cli_flags \<Rightarrow> codecs \<Rightarrow> 's keeper \<Rightarrow> int option \<Rightarrow> 's \<Rightarrow> manifest list \<Rightarrow> 's" where
  "applied fl cb K d s ms = foldl (\<lambda>s m. snd (applyOneWithTimeout fl cb K d m s)) s ms"

lemma apply_loop_cases:
  assumes "apply_loop fl cb K d n i ms out s = (oc, s')"
  shows "(oc_error oc = None \<and> oc_stderr oc = '''' \<and> s' = applied fl cb K d s ms
      \<and> (\<forall>k<length ms. doc_error_of fl cb K d (applied fl cb K d s (take k ms)) (ms ! k) = None))
    \<or> (\<exists>k err. k < length ms \<and> oc_error oc = Some (InDocument (manifest_String (ms ! k)) err)
      \<and> doc_error_of fl cb K d (applied fl cb K d s (take k ms)) (ms ! k) = Some err
      \<and> (\<forall>l<k. doc_error_of fl cb K d (applied fl cb K d s (take l ms)) (ms ! l) = None)
      \<and> s' = applied fl cb K d s (take (Suc k) ms)
      \<and> oc_stderr oc = (if i + k > 0 then progress_report (i + k) n else ''''))"
  using assms
proof (induction ms arbitrary: i out s)
  case Nil
  then show ?case by (auto simp: applied_def)
next
  case (Cons m ms)
  obtain e o1 s1 where one: "applyOneWithTimeout fl cb K d m s = ((e, o1), s1)"
    by (cases "applyOneWithTimeout fl cb K d m s") auto
  have step: "applied fl cb K d s (m # xs) = applied fl cb K d s1 xs" for xs
    by (simp add: applied_def one)
  show ?case
  proof (cases e)
    case None
    with Cons.prems one have "apply_loop fl cb K d n (i + 1) ms (out @ o1) s1 = (oc, s')" by simp
    from Cons.IH [OF this] show ?thesis
    proof (elim disjE exE)
      fix k err
      assume "k < length ms \<and> oc_error oc = Some (InDocument (manifest_String (ms ! k)) err)
        \<and> doc_error_of fl cb K d (applied fl cb K d s1 (take k ms)) (ms ! k) = Some err
        \<and> (\<forall>l<k. doc_error_of fl cb K d (applied fl cb K d s1 (take l ms)) (ms ! l) = None)
        \<and> s' = applied fl cb K d s1 (take (Suc k) ms)
        \<and> oc_stderr oc = (if i + 1 + k > 0 then progress_report (i + 1 + k) n else '''')"
      then show ?thesis
        using one None
        by (intro disjI2 exI [of _ "Suc k"] exI [of _ err])
          (auto simp: step doc_error_of_def applied_def less_Suc_eq_0_disj)
    qed (use one None in \<open>auto simp: step doc_error_of_def applied_def less_Suc_eq_0_disj\<close>)
  next
    case (Some err)
    with Cons.prems one show ?thesis
      by (intro disjI2 exI [of _ 0] exI [of _ err]) (auto simp: doc_error_of_def applied_def)
  qed
qed

text \<open>
  C20: \<open>apply\<close> stops at the first document that fails and says so truthfully: without an error
  every document was applied in order; with one it names the failing document, every earlier
  one was applied, no later one was attempted, and the report counts exactly the earlier ones.
\<close>

theorem apply_stops_at_first_error:
  assumes "readManifests F Y file = Inr ms" "file \<noteq> ''''" "ms \<noteq> []"
    and "cmd_apply fl cb F Y K d file s = (oc, s')"
  shows "(oc_error oc = None \<and> s' = applied fl cb K d s ms
      \<and> (\<forall>k<length ms. doc_error_of fl cb K d (applied fl cb K d s (take k ms)) (ms ! k) = None))
    \<or> (\<exists>k err. k < length ms \<and> oc_error oc = Some (InDocument (manifest_String (ms ! k)) err)
      \<and> doc_error_of fl cb K d (applied fl cb K d s (take k ms)) (ms ! k) = Some err
      \<and> (\<forall>l<k. doc_error_of fl cb K d (applied fl cb K d s (take l ms)) (ms ! l) = None)
      \<and> s' = applied fl cb K d s (take (Suc k) ms)
      \<and> oc_stderr oc = (if k > 0 then progress_report k (length ms) else ''''))"
proof -
  have "apply_loop fl cb K d (length ms) 0 ms '''' s = (oc, s')"
    using assms by (simp add: cmd_apply_def)
  from apply_loop_cases [OF this] show ?thesis by auto
qed

theorem apply_stops_at_first_error_witness:
  "\<exists>oc err. cmd_apply default_flags sample_codecs sample_fs sample_yaml (sample_keeper StubVerifier) None ''d''
       (init_postgres, \<lambda>_. 0) = (oc, (init_postgres, \<lambda>_. 0))
    \<and> oc_error oc = Some (InDocument (manifest_String (robot_in ''d/a.json'')) err) \<and> oc_stderr oc = ''''"
proof -
  let ?K = "sample_keeper StubVerifier" and ?s = "(init_postgres, \<lambda>_. 0) :: Postgres \<times> rpc_total"
  let ?ms = "map robot_in [''d/a.json'', ''d/b.yml'']"
  obtain oc s' where a: "cmd_apply default_flags sample_codecs sample_fs sample_yaml ?K None ''d'' ?s = (oc, s')"
    by (cases "cmd_apply default_flags sample_codecs sample_fs sample_yaml ?K None ''d'' ?s") auto
  have bad: "applyOneWithTimeout default_flags sample_codecs ?K None (robot_in f) ?s = ((Some (UnknownKind ''Robot''), ''''), ?s)"
    for f by (simp add: applyOneWithTimeout_def applyOne_def robot_in_def)
  then have first: "doc_error_of default_flags sample_codecs ?K None ?s (?ms ! 0) \<noteq> None"
    "applied default_flags sample_codecs ?K None ?s (take 1 ?ms) = ?s"
    by (simp_all add: doc_error_of_def applied_def)
  have ne: "''d'' \<noteq> ''''" "?ms \<noteq> []" by simp_all
  have start: "applied default_flags sample_codecs ?K None ?s (take 0 ?ms) = ?s" by (simp add: applied_def)
  from apply_stops_at_first_error [OF sample_manifests ne a] show ?thesis
  proof (elim disjE exE conjE)
    assume "\<forall>k<length ?ms. doc_error_of default_flags sample_codecs ?K None
      (applied default_flags sample_codecs ?K None ?s (take k ?ms)) (?ms ! k) = None"
    then show ?thesis using first(1) start by fastforce
  next
    fix k err
    assume k: "oc_error oc = Some (InDocument (manifest_String (?ms ! k)) err)"
      "\<forall>l<k. doc_error_of default_flags sample_codecs ?K None
        (applied default_flags sample_codecs ?K None ?s (take l ?ms)) (?ms ! l) = None"
      "s' = applied default_flags sample_codecs ?K None ?s (take (Suc k) ?ms)"
      "oc_stderr oc = (if k > 0 then progress_report k (length ?ms) else '''')"
    have "k = 0" using k(2) first(1) start by (metis gr0I)
    then show ?thesis using k(1,3,4) first(2) a by auto
  qed
qed

end
