(* ===== verification/KeeperProps.thy ===== *)
theory KeeperProps
  imports CliProps
begin

text \<open>
  The command line composed with the Keeper: what a generated client's call does on
  the Keeper's API, and that what \<open>apply\<close> prints is what \<open>get\<close> prints next.
\<close>

section \<open>apply, then get\<close>

text \<open>The colony and name of the object a document decodes to, for the colony-scoped kinds.\<close>

definition object_name :: "('spec, 'status) object pjson \<Rightarrow> string \<Rightarrow> (string \<times> string) option" where
  "object_name pj js =
     (case pj_Unmarshal pj js of
        Inl _ \<Rightarrow> None
      | Inr ob \<Rightarrow> map_option (\<lambda>m. (om_Colony m, om_Name m)) (ob_Metadata ob))"

definition doc_names :: "codecs \<Rightarrow> manifest \<Rightarrow> (string \<times> string) option" where
  "doc_names cb m =
     (if mf_Kind m = ''Agent'' then object_name (cb_agent cb) (mf_JSON m)
      else if mf_Kind m = ''AgentVersion'' then object_name (cb_agentVersion cb) (mf_JSON m)
      else if mf_Kind m = ''Run'' then object_name (cb_run cb) (mf_JSON m)
      else if mf_Kind m = ''Tool'' then object_name (cb_tool cb) (mf_JSON m)
      else None)"

lemma httpClient_colony [simp]: "httpClient (fl\<lparr>fl_colony := c\<rparr>) = httpClient fl"
  by (simp add: httpClient_def)

lemma unary_call_colony [simp]: "unary_call (fl\<lparr>fl_colony := c\<rparr>) = unary_call fl"
  by (intro ext) (simp add: unary_call_eq)

lemma printObject_colony [simp]: "printObject (fl\<lparr>fl_colony := c\<rparr>) = printObject fl"
  by (intro ext) (simp add: printObject_def)

lemma unary_call_result:
  assumes "procedure sv me \<noteq> ''''" "rpc_kind_of me = Unary"
  shows "unary_call fl (unary_rpc V sv me h) d req (s, m) =
    (case V None (fl_token fl) of
       Inl err \<Rightarrow> (Inl (ConnectError CodeUnauthenticated err), s,
         observe (procedure sv me) (Some (ConnectError CodeUnauthenticated err)) m)
     | Inr p \<Rightarrow> (case h req s of (r, s') \<Rightarrow>
         (r, s', observe (procedure sv me) (case r of Inl e \<Rightarrow> Some e | Inr _ \<Rightarrow> None) m)))"
proof -
  have "strings_TrimPrefix (if t = '''' then '''' else ''Bearer '' @ t) ''Bearer '' = t" for t
    by (auto simp: strings_TrimPrefix_def)
  then show ?thesis
    by (simp only: unary_call_eq unary_rpc_result [OF assms] call.select_convs)
qed

lemma stream_call_result:
  assumes "procedure sv me \<noteq> ''''" "rpc_kind_of me = ServerStream"
  shows "stream_call fl (stream_rpc V sv me h) d req (s, m) =
    (case V None (fl_token fl) of
       Inl err \<Rightarrow> (([], Some (ConnectError CodeUnauthenticated err)), s,
         observe (procedure sv me) (Some (ConnectError CodeUnauthenticated err)) m)
     | Inr p \<Rightarrow> (case h req s of (evs, err) \<Rightarrow> ((evs, err), s, observe (procedure sv me) err m)))"
proof -
  have "strings_TrimPrefix (if t = '''' then '''' else ''Bearer '' @ t) ''Bearer '' = t" for t
    by (auto simp: strings_TrimPrefix_def)
  then show ?thesis
    by (simp only: unary_call_eq stream_call_eq stream_rpc_result [OF assms] call.select_convs)
qed

lemma apply_then_get_doc:
  assumes "procedure sv ApplyRPC \<noteq> ''''" "procedure sv GetRPC \<noteq> ''''"
    and "sv_Apply C = unary_call fl (unary_rpc V sv ApplyRPC ap)"
    and "sv_Get C = unary_call fl (unary_rpc V sv GetRPC (\<lambda>req s. (gt req s, s)))"
    and read: "\<And>req out s'. ap req s = (Inr out, s') \<Longrightarrow> gt (named req) s' = Inr out"
    and "object_name pj js = Some (c, n)"
    and "apply_doc fl cb pj C d js (s, mt) = ((None, tx), (s', mt'))"
  shows "\<exists>mt''. get_doc (fl\<lparr>fl_colony := c\<rparr>) cb pj C d c n (s', mt') = ((None, tx), (s', mt''))"
proof -
  obtain ob om where ob: "pj_Unmarshal pj js = Inr ob" "ob_Metadata ob = Some om" "c = om_Colony om" "n = om_Name om"
    using assms(6) by (auto simp: object_name_def split: sum.splits)
  let ?req = "\<lparr>ap_Object = Some ob, ap_IfResourceVersion = None\<rparr>"
  obtain p out where a: "V None (fl_token fl) = Inr p" "ap ?req s = (Inr out, s')"
    "printObject fl (cb_toYAML cb) pj out = (None, tx)"
    using assms(3,7) ob(1) unary_call_result [OF assms(1), of fl V ap d ?req s mt]
    by (auto simp: apply_doc_def rpc_kind_of_def split: sum.splits prod.splits)
  have "named ?req = \<lparr>gt_Colony = c, gt_Name = n\<rparr>" using ob by (simp add: named_def)
  with read [OF a(2)] a assms(4)
    unary_call_result [OF assms(2), of fl V "\<lambda>req s. (gt req s, s)" d "\<lparr>gt_Colony = c, gt_Name = n\<rparr>" s' mt']
  show ?thesis by (simp add: get_doc_def rpc_kind_of_def)
qed

lemma keeper_sel:
  "sv_Apply (agentClient fl (keeper_api V wc S E clock ch)) = unary_call fl (unary_rpc V AgentService ApplyRPC
     (\<lambda>req s. Agent_Apply (wc_time wc) (wc_agent wc) S (clock s) req s))"
  "sv_Get (agentClient fl (keeper_api V wc S E clock ch)) = unary_call fl (unary_rpc V AgentService GetRPC
     (\<lambda>req s. (Agent_Get (wc_time wc) (wc_agent wc) S req s, s)))"
  "sv_Apply (agentVersionClient fl (keeper_api V wc S E clock ch)) = unary_call fl (unary_rpc V AgentVersionService ApplyRPC
     (\<lambda>req s. AgentVersion_Apply (wc_time wc) (wc_agentVersion wc) S (clock s) req s))"
  "sv_Get (agentVersionClient fl (keeper_api V wc S E clock ch)) = unary_call fl (unary_rpc V AgentVersionService GetRPC
     (\<lambda>req s. (AgentVersion_Get (wc_time wc) (wc_agentVersion wc) S req s, s)))"
  "sv_Apply (runClient fl (keeper_api V wc S E clock ch)) = unary_call fl (unary_rpc V RunService ApplyRPC
     (\<lambda>req s. Run_Apply (wc_time wc) (wc_run wc) S (clock s) req s))"
  "sv_Get (runClient fl (keeper_api V wc S E clock ch)) = unary_call fl (unary_rpc V RunService GetRPC
     (\<lambda>req s. (Run_Get (wc_time wc) (wc_run wc) S req s, s)))"
  "sv_Apply (toolClient fl (keeper_api V wc S E clock ch)) = unary_call fl (unary_rpc V ToolService ApplyRPC
     (\<lambda>req s. Tool_Apply (wc_time wc) (wc_tool wc) S (clock s) req s))"
  "sv_Get (toolClient fl (keeper_api V wc S E clock ch)) = unary_call fl (unary_rpc V ToolService GetRPC
     (\<lambda>req s. (Tool_Get (wc_time wc) (wc_tool wc) S req s, s)))"
  by (simp_all add: client_defs keeper_api_def Let_def)

lemmas get_after_apply =
  pg_apply_get [OF _ _ conjunct1 [OF agentToResource_Inr]] pg_apply_get [OF _ _ conjunct1 [OF agentVersionToResource_Inr]]
  pg_apply_get [OF _ _ conjunct1 [OF runToResource_Inr]] pg_apply_get [OF _ _ conjunct1 [OF toolToResource_Inr]]

lemmas rpc_handler_defs = Agent_Apply_def Agent_Get_def AgentVersion_Apply_def AgentVersion_Get_def
  Run_Apply_def Run_Get_def Tool_Apply_def Tool_Get_def

text \<open>
  C5: end to end: a document of a colony-scoped kind that \<open>hived apply\<close> applies through the
  Keeper's whole API to PostgreSQL without an error is what \<open>hived get\<close> of its kind, colony and
  name prints next, character for character.
\<close>

theorem apply_then_get:
  assumes "pg_inv eng s" "p_counter s + 2 \<le> max_int64" "doc_names cb m = Some (c, n)"
    and "K = keeper_api V wc (pg_ResourceStore eng) E clock ch"
    and "applyOne fl cb K d m (s, mt) = ((None, tx), (s', mt'))"
  shows "\<exists>mt''. getOne (fl\<lparr>fl_colony := c\<rparr>) cb K d (mf_Kind m) n (s', mt') = ((None, tx), (s', mt''))"
proof -
  have K: "new_client (fl\<lparr>fl_colony := c\<rparr>) W = new_client fl W" for W :: "(call, Postgres \<times> rpc_total, 'x, 'y) service_rpcs"
    by (simp add: new_client_def stream_call_eq fun_eq_iff)
  have names: "procedure sv ApplyRPC \<noteq> ''''" "procedure sv GetRPC \<noteq> ''''" if "sv \<noteq> EventService" for sv
    using that by (cases sv; simp)+
  note doc = apply_then_get_doc [OF names, where fl = fl and cb = cb and d = d and s = s and mt = mt and s' = s'
      and mt' = mt' and tx = tx and c = c and n = n and js = "mf_JSON m" and V = V]
  note get_next = get_after_apply [OF assms(1,2)]
  consider "mf_Kind m = ''Agent''" | "mf_Kind m = ''AgentVersion''" | "mf_Kind m = ''Run''" | "mf_Kind m = ''Tool''"
    using assms(3) by (auto simp: doc_names_def split: if_splits)
  then show ?thesis
  proof cases
    case 1
    then show ?thesis
      using assms(3,5) unfolding assms(4)
      by (auto simp: applyOne_def getOne_def doc_names_def agentClient_def K rpc_handler_defs
          intro!: doc [OF _ _ keeper_sel(1,2) [unfolded agentClient_def rpc_handler_defs] get_next(1)])
  next
    case 2
    then show ?thesis
      using assms(3,5) unfolding assms(4)
      by (auto simp: applyOne_def getOne_def doc_names_def agentVersionClient_def K rpc_handler_defs
          intro!: doc [OF _ _ keeper_sel(3,4) [unfolded agentVersionClient_def rpc_handler_defs] get_next(2)])
  next
    case 3
    then show ?thesis
      using assms(3,5) unfolding assms(4)
      by (auto simp: applyOne_def getOne_def doc_names_def runClient_def K rpc_handler_defs
          intro!: doc [OF _ _ keeper_sel(5,6) [unfolded runClient_def rpc_handler_defs] get_next(3)])
  next
    case 4
    then show ?thesis
      using assms(3,5) unfolding assms(4)
      by (auto simp: applyOne_def getOne_def doc_names_def toolClient_def K rpc_handler_defs
          intro!: doc [OF _ _ keeper_sel(7,8) [unfolded toolClient_def rpc_handler_defs] get_next(4)])
  qed
qed

theorem apply_then_get_witness:
  "\<exists>tx s' mt' mt''. applyOne default_flags sample_codecs (sample_keeper StubVerifier) None agent_manifest
      (init_postgres, \<lambda>_. 0) = ((None, tx), (s', mt'))
    \<and> getOne (default_flags\<lparr>fl_colony := ''c''\<rparr>) sample_codecs (sample_keeper StubVerifier) None ''Agent'' ''a''
      (s', mt') = ((None, tx), (s', mt''))"
proof -
  obtain out s' where a: "Agent_Apply sample_time (sample_codec empty_AgentSpec empty_AgentStatus)
      (pg_ResourceStore plain_engine) env_a (sample_request empty_AgentSpec) init_postgres = (Inr out, s')"
    using sample_agent_apply by blast
  have names: "procedure AgentService ApplyRPC \<noteq> ''''" "rpc_kind_of ApplyRPC = Unary"
    by (simp_all add: rpc_kind_of_def)
  obtain tx mt' where b: "applyOne default_flags sample_codecs (sample_keeper StubVerifier) None agent_manifest
      (init_postgres, \<lambda>_. 0) = ((None, tx), (s', mt'))"
    using a
    by (simp add: applyOne_def apply_doc_def agent_manifest_def sample_keeper_def keeper_sel(1) unary_call_result [OF names]
        StubVerifier_def sample_codecs_def sample_pjson_def sample_object_def sample_request_def sample_wire_def
        printObject_def default_flags_def)
  have pre: "p_counter init_postgres + 2 \<le> max_int64" "doc_names sample_codecs agent_manifest = Some (''c'', ''a'')"
    "mf_Kind agent_manifest = ''Agent''"
    by (simp_all add: init_postgres_def doc_names_def agent_manifest_def object_name_def sample_codecs_def sample_pjson_def
        sample_object_def sample_meta_def)
  from apply_then_get [OF pg_inv_init pre(1,2) sample_keeper_def b] b show ?thesis
    unfolding pre(3) by blast
qed
end
