(* ===== verification/CliSafety.thy ===== *)
theory CliSafety
  imports KeeperProps
begin

text \<open>
  What no run of the command line does: change anything with a token the verifier rejects, end
  in an internal error over the Keeper's API, call a URL that is not answered by its RPC; and
  the Keeper's process does not serve before its database is migrated.
\<close>

section \<open>Refused calls\<close>

text \<open>The error behind the names of a file and a document.\<close>

fun cause :: "cli_error \<Rightarrow> cli_error" where
  "cause (InFile f e) = cause e"
| "cause (InDocument m e) = cause e"
| "cause e = e"

text \<open>A service that answers every call with \<open>unauthenticated\<close> and leaves the state.\<close>

definition refused :: "api_error \<Rightarrow> bool" where
  "refused e \<longleftrightarrow> CodeOf e = CodeUnauthenticated"

definition refuses :: "(int option, 's \<times> rpc_total, 'spec, 'status) service_rpcs \<Rightarrow> bool" where
  "refuses C \<longleftrightarrow>
     (\<forall>d req s m. \<exists>e m'. sv_Apply C d req (s, m) = (Inl e, s, m') \<and> refused e)
     \<and> (\<forall>d req s m. \<exists>e m'. sv_Get C d req (s, m) = (Inl e, s, m') \<and> refused e)
     \<and> (\<forall>d req s m. \<exists>e m'. sv_List C d req (s, m) = (Inl e, s, m') \<and> refused e)
     \<and> (\<forall>d req s m. \<exists>e m'. sv_Watch C d req (s, m) = (([], Some e), s, m') \<and> refused e)"

lemma refuses_clients:
  assumes "V None (fl_token fl) = Inl err"
  shows "refuses (colonyClient fl (keeper_api V wc S E clock ch))"
    "refuses (agentClient fl (keeper_api V wc S E clock ch))"
    "refuses (agentVersionClient fl (keeper_api V wc S E clock ch))"
    "refuses (runClient fl (keeper_api V wc S E clock ch))"
    "refuses (toolClient fl (keeper_api V wc S E clock ch))"
  using assms
  by (simp_all add: refuses_def client_defs keeper_api_def Let_def unary_call_result stream_call_result rpc_kind_of_def refused_def)

lemma events_refused:
  assumes "V None (fl_token fl) = Inl err"
  shows "\<exists>e m'. eventClient_List fl (keeper_api V wc S E clock ch) d req (s, m) = (Inl e, s, m') \<and> refused e"
  using assms
  by (simp add: client_defs keeper_api_def Let_def unary_call_result rpc_kind_of_def refused_def)

definition no_effect :: "'s \<Rightarrow> cli_error option \<Rightarrow> string \<Rightarrow> 's \<times> rpc_total \<Rightarrow> bool" where
  "no_effect s err out st \<longleftrightarrow> fst st = s \<and> out = '''' \<and> err \<noteq> None
     \<and> (\<forall>a. map_option cause err = Some (RpcError a) \<longrightarrow> refused a)"

lemma refused_docs:
  assumes "refuses C"
  shows "case apply_doc fl cb pj C d js (s, m) of ((err, out), st) \<Rightarrow> no_effect s err out st"
    "case get_doc fl cb pj C d colony name (s, m) of ((err, out), st) \<Rightarrow> no_effect s err out st"
    "case list_doc fl cb pj C headers row d (s, m) of ((err, out), st) \<Rightarrow> no_effect s err out st"
    "case watch_doc fl C name_of d since (s, m) of ((err, out), st) \<Rightarrow> no_effect s err out st"
proof -
  note C = assms [unfolded refuses_def]
  show "case apply_doc fl cb pj C d js (s, m) of ((err, out), st) \<Rightarrow> no_effect s err out st"
  proof (cases "pj_Unmarshal pj js")
    case (Inr ob)
    obtain e m' where "sv_Apply C d \<lparr>ap_Object = Some ob, ap_IfResourceVersion = None\<rparr> (s, m) = (Inl e, s, m')" "refused e"
      using C by blast
    then show ?thesis using Inr by (simp add: apply_doc_def no_effect_def)
  qed (simp add: apply_doc_def no_effect_def)
  obtain e m' where "sv_Get C d \<lparr>gt_Colony = colony, gt_Name = name\<rparr> (s, m) = (Inl e, s, m')" "refused e" using C by blast
  then show "case get_doc fl cb pj C d colony name (s, m) of ((err, out), st) \<Rightarrow> no_effect s err out st"
    by (simp add: get_doc_def no_effect_def)
  obtain e m' where "sv_List C d (list_request fl) (s, m) = (Inl e, s, m')" "refused e" using C by blast
  then show "case list_doc fl cb pj C headers row d (s, m) of ((err, out), st) \<Rightarrow> no_effect s err out st"
    by (simp add: list_doc_def no_effect_def)
  obtain e m' where "sv_Watch C d (watch_request fl since) (s, m) = (([], Some e), s, m')" "refused e" using C by blast
  then show "case watch_doc fl C name_of d since (s, m) of ((err, out), st) \<Rightarrow> no_effect s err out st"
    by (simp add: watch_doc_def no_effect_def)
qed

definition no_effect_oc :: "'s \<Rightarrow> outcome_of \<times> 's \<times> rpc_total \<Rightarrow> bool" where
  "no_effect_oc s r \<longleftrightarrow> no_effect s (oc_error (fst r)) (oc_stdout (fst r)) (snd r)"

lemma no_effect_of_result:
  "case r of ((err, out), st) \<Rightarrow> no_effect s err out st \<Longrightarrow> no_effect_oc s (apfst of_result r)"
  by (simp add: no_effect_oc_def of_result_def split: prod.splits)

lemma no_effect_fail:
  "(\<And>a. cause e \<noteq> RpcError a) \<Longrightarrow> no_effect_oc s (of_result (Some e, ''''), (s, m))"
  by (simp add: no_effect_oc_def no_effect_def of_result_def)

lemma refused_commands:
  assumes "V None (fl_token fl) = Inl err" "K = keeper_api V wc S E clock ch"
  shows "case applyOne fl cb K d mf (s, m) of ((err, out), st) \<Rightarrow> no_effect s err out st"
    "no_effect_oc s (apfst of_result (cmd_get fl cb K d alias nm (s, m)))"
    "no_effect_oc s (apfst of_result (cmd_watch fl K d alias since (s, m)))"
    "no_effect_oc s (apfst of_result (cmd_events fl cb K d run since (s, m)))"
proof -
  note C = refuses_clients [where V = V and fl = fl, OF assms(1), of wc S E clock ch, folded assms(2)]
  note docs = C [THEN refused_docs(1)] C [THEN refused_docs(2)] C [THEN refused_docs(3)] C [THEN refused_docs(4)]
  have fail: "no_effect s (Some e) '''' (s, m)" if "\<And>a. cause e \<noteq> RpcError a" for e
    using that by (simp add: no_effect_def)
  show "case applyOne fl cb K d mf (s, m) of ((err, out), st) \<Rightarrow> no_effect s err out st"
    using docs by (simp add: applyOne_def fail)
  show "no_effect_oc s (apfst of_result (cmd_get fl cb K d alias nm (s, m)))"
    by (rule no_effect_of_result)
      (use docs in \<open>simp add: cmd_get_def resolveKind_def getOne_def listAll_def fail split: option.split\<close>)
  show "no_effect_oc s (apfst of_result (cmd_watch fl K d alias since (s, m)))"
    by (rule no_effect_of_result) (use docs in \<open>simp add: cmd_watch_def resolveKind_def watchKind_def fail\<close>)
  obtain e m' where "eventClient_List fl K (commandContext fl d) \<lparr>le_req_Colony = fl_colony fl, le_req_Run = run,
      le_req_SinceSeq = since, le_req_Limit = 0\<rparr> (s, m) = (Inl e, s, m')" "refused e"
    unfolding assms(2) using events_refused [where V = V and fl = fl, OF assms(1), of wc S E clock ch] by metis
  then show "no_effect_oc s (apfst of_result (cmd_events fl cb K d run since (s, m)))"
    by (intro no_effect_of_result) (simp add: cmd_events_def fail no_effect_def)
qed

text \<open>Reading manifests makes no call.\<close>

lemma readDocs_cause: "readDocs F Y f = Inl e \<Longrightarrow> (\<exists>x. cause e = OSError x) \<or> (\<exists>n x. cause e = DocError n x)"
proof -
  have "read_docs_loop Y f i ds ending docs = Inl e \<Longrightarrow> \<exists>n x. cause e = DocError n x" for i ds ending docs
  proof (induction ds arbitrary: i docs)
    case (Cons d ds)
    then show ?case by (cases d) (auto split: sum.splits)
  qed (auto split: option.splits)
  then show "readDocs F Y f = Inl e \<Longrightarrow> (\<exists>x. cause e = OSError x) \<or> (\<exists>n x. cause e = DocError n x)"
    by (auto simp: readDocs_def split: sum.splits prod.splits)
qed

lemma readManifests_cause:
  assumes "readManifests F Y path = Inl e"
  shows "(\<exists>x. cause e = OSError x) \<or> (\<exists>x. cause e = GlobError x) \<or> (\<exists>n x. cause e = DocError n x)"
proof -
  have glob: "glob_all F path exts seen = Inl e \<Longrightarrow> \<exists>x. e = GlobError x" for exts seen
    by (induction exts arbitrary: seen) (auto split: sum.splits)
  have files: "read_files F Y fs out = Inl e \<Longrightarrow> (\<exists>x. cause e = OSError x) \<or> (\<exists>n x. cause e = DocError n x)" for fs out
    by (induction fs arbitrary: out) (auto split: sum.splits dest!: readDocs_cause)
  show ?thesis
    using assms files
    by (auto simp: readManifests_def manifest_files_def split: sum.splits if_splits bool.splits dest!: glob)
qed

lemma refused_apply:
  assumes "V None (fl_token fl) = Inl err" "K = keeper_api V wc S E clock ch"
  shows "no_effect_oc s (cmd_apply fl cb F Y K d file (s, m))"
proof (cases "readManifests F Y file")
  case (Inl e)
  then show ?thesis
    using readManifests_cause [OF Inl] by (auto simp: cmd_apply_def intro!: no_effect_fail)
next
  case (Inr ms)
  have "no_effect_oc s (apply_loop fl cb K d n i (mf # mfs) '''' (s, m))" for n i mf mfs
    using refused_commands(1) [where V = V and fl = fl, OF assms, where cb = cb and d = "commandContext fl d" and mf = mf and s = s and m = m]
    by (auto simp: applyOneWithTimeout_def no_effect_oc_def no_effect_def split: prod.splits option.splits)
  then show ?thesis
    using Inr by (cases ms) (auto simp: cmd_apply_def intro!: no_effect_fail)
qed

lemma refused_run:
  assumes "V None (fl_token fl) = Inl err" "K = keeper_api V wc S E clock ch"
  shows "no_effect_oc s (cmd_run fl cb K d agent nm input (s, m))"
proof (cases "parse_input input")
  case (Inl e)
  then have "e = BadInput" by (auto simp: parse_input_def split: if_splits option.splits json.splits)
  then show ?thesis using Inl by (auto simp: cmd_run_def intro!: no_effect_fail)
next
  case (Inr inp)
  obtain e m' where "sv_Apply (runClient fl K) (commandContext fl d)
      \<lparr>ap_Object = Some (run_object fl agent nm inp), ap_IfResourceVersion = None\<rparr> (s, m) = (Inl e, s, m')" "refused e"
    using refuses_clients(4) [where V = V and fl = fl, OF assms(1), of wc S E clock ch, folded assms(2)]
    unfolding refuses_def by blast
  then show ?thesis
    using Inr by (auto simp: cmd_run_def no_effect_oc_def no_effect_def of_result_def)
qed

text \<open>
  C18: a caller whose token the verifier rejects gets nothing and does nothing: every command
  fails without output and leaves the Keeper's state as it was, and an error that came from
  the Keeper has the code \<open>unauthenticated\<close>; only \<open>version\<close>, which makes no call, succeeds.
\<close>

theorem rejected_token_no_effect:
  assumes "V None (fl_token fl) = Inl err"
    and "execute fl cb F Y b (keeper_api V wc S E clock ch) d c (s, m) = (oc, (s', m'))"
  shows "s' = s \<and> (c = Version_Cmd \<or> oc_error oc \<noteq> None \<and> oc_stdout oc = ''''
    \<and> (\<forall>e. map_option cause (oc_error oc) = Some (RpcError e) \<longrightarrow> CodeOf e = CodeUnauthenticated))"
proof (cases "validateOutput fl")
  case (Some e)
  then have "cause e \<noteq> RpcError a" for a by (auto simp: validateOutput_def split: if_splits)
  from no_effect_fail [OF this] Some assms(2) show ?thesis
    by (auto simp: execute_def no_effect_oc_def no_effect_def refused_def)
next
  case None
  note K = refl [of "keeper_api V wc S E clock ch"]
  have "no_effect_oc s (run_command fl cb F Y b (keeper_api V wc S E clock ch) d c (s, m))" if "c \<noteq> Version_Cmd"
    using that refused_commands(2-4) [where V = V and fl = fl, OF assms(1) K]
    by (cases c) (auto simp: notImplementedM1_def intro: no_effect_fail refused_apply [where V = V and fl = fl, OF assms(1) K]
        refused_run [where V = V and fl = fl, OF assms(1) K])
  then show ?thesis
    using assms(2) None by (cases "c = Version_Cmd") (auto simp: execute_def no_effect_oc_def no_effect_def refused_def)
qed

theorem rejected_token_no_effect_witness:
  "\<exists>oc m'. execute default_flags sample_codecs sample_fs sample_yaml dev_build (sample_keeper (\<lambda>_ _. Inl ''expired'')) None
      (Get_Cmd ''agents'' None) (init_postgres, \<lambda>_. 0) = (oc, (init_postgres, m'))
    \<and> oc_error oc \<noteq> None \<and> oc_stdout oc = ''''"
proof -
  let ?run = "execute default_flags sample_codecs sample_fs sample_yaml dev_build (sample_keeper (\<lambda>_ _. Inl ''expired'')) None
      (Get_Cmd ''agents'' None) (init_postgres, \<lambda>_. 0)"
  obtain oc s' m' where run: "?run = (oc, (s', m'))" by (cases ?run) auto
  show ?thesis
    using rejected_token_no_effect [OF refl run [unfolded sample_keeper_def]] unfolding run by simp
qed

section \<open>Answers are complete\<close>

definition complete :: "('spec, 'status) object \<Rightarrow> bool" where
  "complete ob \<longleftrightarrow> ob_Metadata ob \<noteq> None \<and> ob_Spec ob \<noteq> None \<and> ob_Status ob \<noteq> None"

definition complete_events :: "('spec, 'status) object WatchEvent list \<Rightarrow> bool" where
  "complete_events evs \<longleftrightarrow> (\<forall>ev\<in>set evs. \<forall>ob. wv_Object ev = Some ob \<longrightarrow> complete ob)"

lemma complete_events_simps [simp]:
  "complete_events []"
  "complete_events (ev # evs) \<longleftrightarrow> (\<forall>ob. wv_Object ev = Some ob \<longrightarrow> complete ob) \<and> complete_events evs"
  "complete_events (evs @ evs') \<longleftrightarrow> complete_events evs \<and> complete_events evs'"
  by (auto simp: complete_events_def)

lemma converted_complete:
  "resource_to_object T cd zs zt r = Inr ob \<Longrightarrow> complete ob"
  "resourceToColony T cdc r = Inr c \<Longrightarrow> complete c" "resourceToAgent T cda r = Inr a \<Longrightarrow> complete a"
  "resourceToAgentVersion T cdv r = Inr v \<Longrightarrow> complete v" "resourceToRun T cdr r = Inr n \<Longrightarrow> complete n"
  "resourceToTool T cdt r = Inr t \<Longrightarrow> complete t"
  by (auto simp: complete_def resourceToColony_def resourceToAgent_def resourceToAgentVersion_def resourceToRun_def
      resourceToTool_def dest!: resource_to_object_Inr)

lemma handle_List_complete:
  assumes "handle_List S kind f opts s = Inr resp" "\<And>r ob. f r = Inr ob \<Longrightarrow> complete ob"
  shows "\<forall>ob\<in>set (rp_Items resp). complete ob"
proof -
  have "convert_items f rs items = Inr obs \<Longrightarrow> \<forall>ob\<in>set items. complete ob \<Longrightarrow> \<forall>ob\<in>set obs. complete ob"
    for rs items obs
  proof (induction rs arbitrary: items)
    case (Cons r rs)
    from Cons.prems(1) obtain ob where ob: "f r = Inr ob" "convert_items f rs (items @ [ob]) = Inr obs"
      by (auto split: sum.splits)
    show ?case by (rule Cons.IH [OF ob(2)]) (use Cons.prems(2) assms(2) [OF ob(1)] in auto)
  qed simp
  note conv = this
  obtain rs where "convert_items f rs [] = Inr (rp_Items resp)"
    using assms(1) by (auto simp: handle_List_def split: sum.splits)
  from conv [OF this] show ?thesis by simp
qed

lemma handle_Watch_complete:
  assumes "handle_Watch send f ch = (evs, err)" "\<And>r ob. f r = Inr ob \<Longrightarrow> complete ob"
  shows "complete_events evs"
proof -
  have out: "complete_events [out]" if "watch_event_out f ev = Inr (Some out)" for ev out
    using that assms(2) by (fastforce simp: watch_event_out_def Let_def split: if_splits sum.splits)
  have "watchLoop send (watch_event_out f) ch sent = (evs, err) \<Longrightarrow> complete_events sent \<Longrightarrow> complete_events evs" for sent
  proof (induction ch arbitrary: sent)
    case (Cons ev ch)
    show ?case
    proof (cases "watch_event_out f ev")
      case (Inr o')
      then show ?thesis
        using Cons.prems Cons.IH [of sent] Cons.IH [of "sent @ [the o']"] out [of ev]
        by (cases o') (auto split: option.splits)
    qed (use Cons.prems in auto)
  qed simp
  from this [of "[]"] assms(1) show ?thesis by (simp add: handle_Watch_def)
qed

definition answers_complete :: "(int option, 's, 'spec, 'status) service_rpcs \<Rightarrow> bool" where
  "answers_complete C \<longleftrightarrow>
     (\<forall>d req st resp st'. sv_List C d req st = (Inr resp, st') \<longrightarrow> (\<forall>ob\<in>set (rp_Items resp). complete ob))
     \<and> (\<forall>d req st evs err st'. sv_Watch C d req st = ((evs, err), st') \<longrightarrow> complete_events evs)"

lemma answers_complete_clients:
  "answers_complete (colonyClient fl (keeper_api V wc S E clock ch))"
  "answers_complete (agentClient fl (keeper_api V wc S E clock ch))"
  "answers_complete (agentVersionClient fl (keeper_api V wc S E clock ch))"
  "answers_complete (runClient fl (keeper_api V wc S E clock ch))"
  "answers_complete (toolClient fl (keeper_api V wc S E clock ch))"
  by (auto simp: answers_complete_def client_defs keeper_api_def Let_def unary_call_result stream_call_result
      rpc_kind_of_def Colony_List_def Agent_List_def AgentVersion_List_def Run_List_def Tool_List_def
      Colony_Watch_def Agent_Watch_def AgentVersion_Watch_def Run_Watch_def Tool_Watch_def
      split: sum.splits prod.splits
      dest: handle_List_complete [OF _ converted_complete(2)] handle_List_complete [OF _ converted_complete(3)]
        handle_List_complete [OF _ converted_complete(4)] handle_List_complete [OF _ converted_complete(5)]
        handle_List_complete [OF _ converted_complete(6)]
      intro: handle_Watch_complete [OF _ converted_complete(2)] handle_Watch_complete [OF _ converted_complete(3)]
        handle_Watch_complete [OF _ converted_complete(4)] handle_Watch_complete [OF _ converted_complete(5)]
        handle_Watch_complete [OF _ converted_complete(6)])

text \<open>What no command over complete answers can end in.\<close>

definition sound :: "bool \<Rightarrow> cli_error option \<Rightarrow> bool" where
  "sound kinds err \<longleftrightarrow> (\<forall>e. map_option cause err = Some e \<longrightarrow>
     e \<noteq> NilDereference \<and> (\<forall>v. e \<noteq> UnknownOutput v) \<and> (\<forall>k. e = UnknownKind k \<longrightarrow> kinds))"

lemma sound_None [simp]: "sound k None"
  by (simp add: sound_def)

lemma sound_Some [simp]:
  "sound kinds (Some e) \<longleftrightarrow> cause e \<noteq> NilDereference \<and> (\<forall>v. cause e \<noteq> UnknownOutput v)
    \<and> (\<forall>k. cause e = UnknownKind k \<longrightarrow> kinds)"
  by (simp add: sound_def)

lemma printObject_sound:
  "validateOutput fl = None \<Longrightarrow> sound k (fst (printObject fl toYAML pj ob))"
  by (auto simp: printObject_def validateOutput_def validOutputs_def sound_def split: sum.splits if_splits)

lemma printObjects_sound:
  assumes "validateOutput fl = None" "fl_output fl \<noteq> ''table''"
  shows "sound k (fst (printObjects fl toYAML pj obs))"
proof -
  have "sound k (fst (print_yaml toYAML pj obs out))" for out
    by (induction obs arbitrary: out) (auto simp: sound_def split: sum.splits)
  then show ?thesis
    using assms by (auto simp: printObjects_def validateOutput_def validOutputs_def sound_def split: sum.splits option.splits if_splits)
qed

lemma docs_sound:
  assumes "validateOutput fl = None"
  shows "sound k (fst (fst (apply_doc fl cb pj C d js st)))"
    "sound k (fst (fst (get_doc fl cb pj C d colony name st)))"
    "answers_complete C \<Longrightarrow> (\<And>ob. complete ob \<Longrightarrow> row ob \<noteq> None) \<Longrightarrow>
      sound k (fst (fst (list_doc fl cb pj C headers row d st)))"
    "answers_complete C \<Longrightarrow> (\<And>ev ob. wv_Object ev = Some ob \<Longrightarrow> complete ob \<Longrightarrow> name_of ev \<noteq> None) \<Longrightarrow>
      (\<And>ev. wv_Object ev = None \<Longrightarrow> name_of ev \<noteq> None) \<Longrightarrow>
      sound k (fst (fst (watch_doc fl C name_of d since st)))"
proof -
  show "sound k (fst (fst (apply_doc fl cb pj C d js st)))" "sound k (fst (fst (get_doc fl cb pj C d colony name st)))"
    using printObject_sound [OF assms]
    by (auto simp: apply_doc_def get_doc_def split: sum.splits prod.splits)
  assume C: "answers_complete C"
  show "sound k (fst (fst (list_doc fl cb pj C headers row d st)))" if row: "\<And>ob. complete ob \<Longrightarrow> row ob \<noteq> None"
  proof -
    have "those (map row obs) \<noteq> None" if "\<forall>ob\<in>set obs. complete ob" for obs
      using that row by (induction obs) (auto split: option.splits)
    then show ?thesis
      using C printObjects_sound [OF assms]
      by (fastforce simp: list_doc_def answers_complete_def split: sum.splits prod.splits option.splits)
  qed
  show "sound k (fst (fst (watch_doc fl C name_of d since st)))"
    if some: "\<And>ev ob. wv_Object ev = Some ob \<Longrightarrow> complete ob \<Longrightarrow> name_of ev \<noteq> None"
      and none: "\<And>ev. wv_Object ev = None \<Longrightarrow> name_of ev \<noteq> None"
  proof -
    have "sound k (fst (receive_loop name_of evs (map_option RpcError err) out))" if "complete_events evs" for evs err out
      using that
    proof (induction evs arbitrary: out)
      case Nil
      then show ?case by (cases err) simp_all
    next
      case (Cons ev evs)
      then have "name_of ev \<noteq> None" using some none by (cases "wv_Object ev") auto
      with Cons show ?case by auto
    qed
    then show ?thesis
      using C by (cases "sv_Watch C d (watch_request fl since) st") (auto simp: watch_doc_def answers_complete_def, blast)
  qed
qed

lemma rows_complete:
  "complete c \<Longrightarrow> colony_row c \<noteq> None" "complete a \<Longrightarrow> agent_row a \<noteq> None"
  "complete v \<Longrightarrow> agentVersion_row v \<noteq> None" "complete r \<Longrightarrow> run_row r \<noteq> None" "complete t \<Longrightarrow> tool_row t \<noteq> None"
  by (auto simp: complete_def colony_row_def agent_row_def agentVersion_row_def run_row_def tool_row_def)

lemma names_complete:
  "wv_Object ev = Some ob \<Longrightarrow> complete ob \<Longrightarrow> colony_event_name ev \<noteq> None"
  "wv_Object ev = None \<Longrightarrow> colony_event_name ev \<noteq> None"
  "wv_Object ev' = Some ob' \<Longrightarrow> complete ob' \<Longrightarrow> scoped_event_name ev' \<noteq> None"
  "wv_Object ev' = None \<Longrightarrow> scoped_event_name ev' \<noteq> None"
  by (auto simp: complete_def colony_event_name_def scoped_event_name_def)

lemma sound_commands:
  assumes "validateOutput fl = None" "K = keeper_api V wc S E clock ch"
  shows "sound True (fst (fst (applyOne fl cb K d mf st)))"
    "sound False (fst (fst (cmd_get fl cb K d alias nm st)))"
    "sound False (fst (fst (cmd_watch fl K d alias since st)))"
    "sound False (fst (fst (cmd_events fl cb K d run since st)))"
proof -
  note C = answers_complete_clients [where V = V and fl = fl, of wc S E clock ch, folded assms(2)]
  note docs = docs_sound(1,2) [OF assms(1)]
  have lists: "sound False (fst (fst (listAll fl cb K d' kind st)))" if "kind \<in> {''Colony'', ''Agent'', ''AgentVersion'', ''Run'', ''Tool''}" for d' kind
    using that
    by (simp add: listAll_def docs_sound(3) [OF assms(1) C(1) rows_complete(1)] docs_sound(3) [OF assms(1) C(2) rows_complete(2)]
        docs_sound(3) [OF assms(1) C(3) rows_complete(3)] docs_sound(3) [OF assms(1) C(4) rows_complete(4)]
        docs_sound(3) [OF assms(1) C(5) rows_complete(5)]) blast
  have watches: "sound False (fst (fst (watchKind fl K d' kind since st)))" if "kind \<in> {''Colony'', ''Agent'', ''AgentVersion'', ''Run'', ''Tool''}" for d' kind
    using that
    by (simp add: watchKind_def docs_sound(4) [OF assms(1) C(1) names_complete(1,2)]
        docs_sound(4) [OF assms(1) C(2) names_complete(3,4)] docs_sound(4) [OF assms(1) C(3) names_complete(3,4)]
        docs_sound(4) [OF assms(1) C(4) names_complete(3,4)] docs_sound(4) [OF assms(1) C(5) names_complete(3,4)]) blast
  have gets: "sound False (fst (fst (getOne fl cb K d' kind n st)))" if "kind \<in> {''Colony'', ''Agent'', ''AgentVersion'', ''Run'', ''Tool''}" for d' kind n
    using that by (simp add: getOne_def docs(2)) blast
  have kinds: "case resolveKind alias of Inl e \<Rightarrow> sound False (Some e)
      | Inr kind \<Rightarrow> kind \<in> {''Colony'', ''Agent'', ''AgentVersion'', ''Run'', ''Tool''}"
    by (simp add: resolveKind_def)
  show "sound True (fst (fst (applyOne fl cb K d mf st)))"
    by (simp add: applyOne_def docs(1))
  show "sound False (fst (fst (cmd_get fl cb K d alias nm st)))"
    using kinds by (auto simp: cmd_get_def split: sum.splits option.splits intro!: gets lists)
  show "sound False (fst (fst (cmd_watch fl K d alias since st)))"
    using kinds by (auto simp: cmd_watch_def split: sum.splits intro!: watches)
  have "sound False (fst (print_each fl cb es out))" for es out
  proof (induction es arbitrary: out)
    case (Cons e es)
    then show ?case
      using printObject_sound [OF assms(1), of False "cb_toYAML cb" "cb_event cb" e] by (auto split: prod.splits option.splits)
  qed simp
  then show "sound False (fst (fst (cmd_events fl cb K d run since st)))"
    by (auto simp: cmd_events_def split: sum.splits prod.splits)
qed

lemma sound_apply:
  assumes "validateOutput fl = None" "K = keeper_api V wc S E clock ch"
  shows "sound True (oc_error (fst (cmd_apply fl cb F Y K d file st)))"
proof -
  have "sound True (oc_error (fst (apply_loop fl cb K d n i ms out st)))" for n i ms out
  proof (induction ms arbitrary: i out st)
    case (Cons m ms)
    then show ?case
      using sound_commands(1) [OF assms, of cb "commandContext fl d" m st]
      by (auto simp: applyOneWithTimeout_def split: prod.splits option.splits)
  qed simp
  then show ?thesis
    by (auto simp: cmd_apply_def of_result_def split: sum.splits dest!: readManifests_cause)
qed

lemma sound_run:
  assumes "validateOutput fl = None"
  shows "sound False (oc_error (fst (cmd_run fl cb K d agent nm input st)))"
proof (cases "parse_input input")
  case (Inl e)
  then have "e = BadInput" by (auto simp: parse_input_def split: if_splits option.splits json.splits)
  then show ?thesis using Inl by (simp add: cmd_run_def of_result_def)
next
  case (Inr inp)
  then show ?thesis
    using printObject_sound [OF assms] by (auto simp: cmd_run_def of_result_def split: sum.splits prod.splits)
qed

text \<open>
  C33: no command over the Keeper's API reads through a nil pointer, whatever the handlers
  answer and whatever is stored: lists and watches only carry objects whose metadata, spec and
  status are there. The branches for an unknown output format and, outside \<open>apply\<close>, for an
  unknown kind are dead code once the flags and the alias were checked.
\<close>

theorem no_internal_errors:
  assumes "validateOutput fl = None" "oc_error (fst (execute fl cb F Y b (keeper_api V wc S E clock ch) d c st)) = Some err"
  shows "cause err \<noteq> NilDereference \<and> (\<forall>out. cause err \<noteq> UnknownOutput out)
    \<and> (\<forall>kind. cause err = UnknownKind kind \<longrightarrow> (\<exists>file. c = Apply_Cmd file))"
proof -
  note K = refl [of "keeper_api V wc S E clock ch"]
  have "sound (\<exists>file. c = Apply_Cmd file) (oc_error (fst (run_command fl cb F Y b (keeper_api V wc S E clock ch) d c st)))"
    using sound_apply [OF assms(1) K, of cb F Y d _ st] sound_commands(2-4) [OF assms(1) K, where st = st]
      sound_run [OF assms(1), of cb "keeper_api V wc S E clock ch" d _ _ _ st]
    by (cases c) (simp_all add: of_result_def notImplementedM1_def)
  then show ?thesis
    using assms by (simp add: execute_def)
qed

theorem no_internal_errors_witness:
  "\<exists>err. oc_error (fst (execute default_flags sample_codecs sample_fs sample_yaml dev_build (sample_keeper StubVerifier) None
      (Get_Cmd ''agent'' (Some ''a'')) (init_postgres, \<lambda>_. 0))) = Some err \<and> cause err \<noteq> NilDereference"
proof -
  let ?run = "execute default_flags sample_codecs sample_fs sample_yaml dev_build (sample_keeper StubVerifier) None
      (Get_Cmd ''agent'' (Some ''a'')) (init_postgres, \<lambda>_. 0)"
  have names: "procedure AgentService GetRPC \<noteq> ''''" "rpc_kind_of GetRPC = Unary"
    by (simp_all add: rpc_kind_of_def)
  have "oc_error (fst ?run) \<noteq> None"
    by (simp add: execute_def validateOutput_def default_flags_def validOutputs_def of_result_def cmd_get_def resolveKind_def
        getOne_def get_doc_def sample_keeper_def keeper_sel(2) unary_call_result [OF names] StubVerifier_def Agent_Get_def
        handle_Get_def pg_ResourceStore_def pg_Get_def init_postgres_def sample_defs)
  then obtain err where err: "oc_error (fst ?run) = Some err" by auto
  have "validateOutput default_flags = None" by (simp add: validateOutput_def default_flags_def validOutputs_def)
  from no_internal_errors [OF this err [unfolded sample_keeper_def]] err show ?thesis by blast
qed

section \<open>Routing\<close>

lemma mux_dispatch_nil [simp]: "mux_dispatch '''' = None"
  by code_simp

text \<open>
  Every URL a generated client calls is answered by the RPC it was made for, and nothing
  else is: the URL of a method is the base, less trailing slashes, followed by a path which
  the mux takes to that method of that service, and the mux takes no other path anywhere.
\<close>

theorem client_urls_dispatch:
  "map_of (client_of sv base) m = Some (url, k) \<longleftrightarrow>
    (\<exists>path. url = trim_slashes base @ path \<and> mux_dispatch path = Some (sv, m, k))"
proof
  assume "map_of (client_of sv base) m = Some (url, k)"
  then show "\<exists>path. url = trim_slashes base @ path \<and> mux_dispatch path = Some (sv, m, k)"
    using mux_dispatch_procedure [of sv m] by (auto simp: client_url split: if_splits)
next
  assume "\<exists>path. url = trim_slashes base @ path \<and> mux_dispatch path = Some (sv, m, k)"
  then obtain path where p: "url = trim_slashes base @ path" "mux_dispatch path = Some (sv, m, k)" by blast
  have "procedure sv m \<noteq> ''''"
    using mux_dispatch_only [OF p(2)] p(2) mux_dispatch_nil by auto
  then show "map_of (client_of sv base) m = Some (url, k)"
    using mux_dispatch_only [OF p(2)] p(1) by (simp add: client_url)
qed

section \<open>The Keeper's start\<close>

text \<open>
  C29: \<open>hived-keeper serve\<close> listens only after everything before it went well: the
  configuration was read, with automatic migration on goose brought the database up and its
  result is what is served, without it the database is untouched, and the pool was made. It
  ends without an error exactly when it listened and was told to stop.
\<close>

theorem serve_after_migration:
  assumes "keeper_main b env ps [prog, ''serve''] db = (err, out, acts, db')"
  shows "(acts \<noteq> [] \<and> acts \<noteq> [Migrated] \<longrightarrow> (\<exists>cfg. FromEnv env = Inr cfg \<and> ps_Pool ps (cf_PGDSN cfg) = None
      \<and> ListenAPI (cf_ListenAddr cfg) \<in> set acts \<and> ListenMetrics (cf_MetricsAddr cfg) \<in> set acts
      \<and> (if cf_AutoMigrate cfg
         then hd acts = Migrated \<and> ps_SqlOpen ps (cf_PGDSN cfg) = None \<and> ps_Dialect ps = None
           \<and> ps_Goose ps GooseUp db = (None, db')
         else Migrated \<notin> set acts \<and> db' = db)))
    \<and> (err = None \<longleftrightarrow> ShutDown \<in> set acts) \<and> (err \<noteq> None \<longrightarrow> (\<exists>e. err = Some (Failed e)))"
proof -
  obtain e where run: "runServe env ps db = (e, acts, db')" "err = map_option Failed e"
    using assms by (auto simp: keeper_main_def split: prod.splits)
  show ?thesis
  proof (cases "FromEnv env")
    case (Inl x)
    with run show ?thesis by (auto simp: runServe_def)
  next
    case (Inr cfg)
    show ?thesis
    proof (cases "cf_AutoMigrate cfg")
      case True
      then show ?thesis
        using run Inr
        by (cases "ps_Goose ps GooseUp db")
          (auto simp: runServe_def auto_migrate_def Migrate_def serve_until_def Let_def
            split: option.splits serving_end.splits prod.splits)
    next
      case False
      then show ?thesis
        using run Inr by (auto simp: runServe_def serve_until_def Let_def split: option.splits serving_end.splits)
    qed
  qed
qed

definition sample_process :: "nat process" where
  "sample_process = \<lparr>ps_SqlOpen = (\<lambda>_. None), ps_Dialect = None, ps_Goose = (\<lambda>op n. (None, if op = GooseUp then 3 else n)),
     ps_Pool = (\<lambda>_. None), ps_End = Signalled\<rparr>"

theorem serve_after_migration_witness:
  "\<exists>err out acts. keeper_main dev_build (\<lambda>_. '''') sample_process [''hived-keeper'', ''serve''] 0 = (err, out, acts, 3)
    \<and> err = None \<and> ListenAPI '':8080'' \<in> set acts \<and> hd acts = Migrated"
proof -
  let ?run = "keeper_main dev_build (\<lambda>_. '''') sample_process [''hived-keeper'', ''serve''] 0"
  have cfg: "FromEnv (\<lambda>_. '''') = Inr c \<Longrightarrow> cf_ListenAddr c = '':8080'' \<and> cf_AutoMigrate c" for c
    by (auto simp: FromEnv_def getenv_def Let_def)
  have run: "?run = (None, '''', [Migrated, ListenAPI '':8080'', ListenMetrics '':9090'', ShutDown], 3)"
    by (simp add: keeper_main_def runServe_def FromEnv_def getenv_def auto_migrate_def Migrate_def serve_until_def
        sample_process_def Let_def)
  from serve_after_migration [OF this] run cfg show ?thesis by auto
qed

end
