(* ===== verification/StoreBounds.thy ===== *)
theory StoreBounds
  imports ApiProps
begin

text \<open>
  Bounds: the length of a page, whatever a caller asks for, and the shape of a UID.
\<close>

section \<open>Pages\<close>

lemma cut_page_bounds:
  assumes "cut_page n xs = (page, token)" "1 \<le> n" "n < 2 ^ 31" "int (length xs) < 2 ^ 31"
  shows "int (length page) \<le> n \<and> (token \<noteq> '''' \<longrightarrow> int (length page) = n)"
  using assms by (auto simp: cut_page_def int32_id Let_def split: if_splits)

lemma convert_items_length: "convert_items f rs items = Inr xs \<Longrightarrow> length xs = length items + length rs"
proof (induction rs arbitrary: items)
  case (Cons r rs)
  from Cons.prems obtain ob where "convert_items f rs (items @ [ob]) = Inr xs" by (auto split: sum.splits)
  from Cons.IH [OF this] show ?case by simp
qed simp

lemma handle_List_length:
  assumes "handle_List S kind f opts s = Inr resp"
  shows "\<exists>res. rs_List S kind opts s = Inr res \<and> length (rp_Items resp) = length (lr_Items res)"
  using assms convert_items_length [of f _ "[]"] by (auto simp: handle_List_def split: sum.splits)

lemma pg_List2_bounds:
  assumes "pg_List2 eng kind opts s1 s2 = Inr res"
  shows "int (length (lr_Items res)) \<le> clampPageSize (lo_PageSize opts)
    \<and> (lr_NextPageToken res \<noteq> '''' \<longrightarrow> int (length (lr_Items res)) = clampPageSize (lo_PageSize opts))"
proof -
  let ?n = "clampPageSize (lo_PageSize opts)"
  obtain xs where xs: "cut_page ?n (take (nat (?n + 1)) xs) = (lr_Items res, lr_NextPageToken res)"
    using assms by (auto simp: pg_List2_def Let_def split: sum.splits if_splits option.splits prod.splits)
  have "int (length (take (nat (?n + 1)) xs)) < 2 ^ 31"
    using clampPageSize_bounds [of "lo_PageSize opts"] by auto
  then show ?thesis
    using cut_page_bounds [OF xs]
      clampPageSize_bounds [of "lo_PageSize opts"] by simp
qed

lemma mem_List_bounds:
  assumes "mem_List kind opts m = Inr res" "int (length (m_resources m)) < 2 ^ 31"
  shows "int (length (lr_Items res)) \<le> clampPageSize (lo_PageSize opts)
    \<and> (lr_NextPageToken res \<noteq> '''' \<longrightarrow> int (length (lr_Items res)) = clampPageSize (lo_PageSize opts))"
proof -
  let ?n = "clampPageSize (lo_PageSize opts)"
  let ?items = "sort_key list_key (filter (mem_selects kind opts) (map (cloneResource \<circ> snd) (m_resources m)))"
  obtain P where P: "lr_Items res = fst (cut_page ?n (filter P ?items))" "lr_NextPageToken res = snd (cut_page ?n (filter P ?items))"
  proof (cases "lo_PageToken opts = ''''")
    case True
    then show ?thesis
      using assms(1) that [of "\<lambda>_. True"] by (auto simp: mem_List_def Let_def split: sum.splits prod.splits)
  next
    case False
    then obtain c n where "decodePageToken (lo_PageToken opts) = Inr (c, n)"
      using assms(1) by (auto simp: mem_List_def Let_def split: sum.splits)
    then show ?thesis
      using False assms(1) that [of "\<lambda>r. \<not> (r_Colony r < c \<or> r_Colony r = c \<and> r_Name r \<le> n)"]
      by (auto simp: mem_List_def Let_def split: prod.splits)
  qed
  have "length (filter P ?items) \<le> length ?items" by (rule length_filter_le)
  also have "\<dots> \<le> length (m_resources m)" by (simp add: le_trans [OF length_filter_le])
  finally have "int (length (filter P ?items)) < 2 ^ 31" using assms(2) by linarith
  then show ?thesis
    using cut_page_bounds [of ?n "filter P ?items" "lr_Items res" "lr_NextPageToken res"] P
      clampPageSize_bounds [of "lo_PageSize opts"] by simp
qed

lemma take_clamp_bound: "int (length (take (nat (clampPageSize limit)) xs)) \<le> clampPageSize limit"
  using clampPageSize_bounds [of limit] by auto

text \<open>
  C32: no List answers more than \<open>MaxPageSize\<close> items, whatever page size a caller asks for,
  on either store (the in-memory one below two billion resources) and through the API; and
  a page with a token for the next one is full.
\<close>

theorem list_page_bounds:
  assumes "int (length (m_resources m)) < 2 ^ 31"
  shows "(pg_List eng kind opts s = Inr res \<or> mem_List kind opts m = Inr res \<longrightarrow>
      int (length (lr_Items res)) \<le> clampPageSize (lo_PageSize opts)
      \<and> (lr_NextPageToken res \<noteq> '''' \<longrightarrow> int (length (lr_Items res)) = clampPageSize (lo_PageSize opts)))
    \<and> (pg_ListEvents eng colony run since limit s = Inr evs \<or> mem_ListEvents colony run since limit m = Inr evs \<longrightarrow>
      int (length evs) \<le> clampPageSize limit)
    \<and> (handle_List (pg_ResourceStore eng) kind f opts s = Inr resp
        \<or> handle_List mem_ResourceStore kind f opts m = Inr resp \<longrightarrow> int (length (rp_Items resp)) \<le> MaxPageSize)"
proof (intro conjI impI)
  note b = clampPageSize_bounds
  assume "pg_List eng kind opts s = Inr res \<or> mem_List kind opts m = Inr res"
  then have "int (length (lr_Items res)) \<le> clampPageSize (lo_PageSize opts)
      \<and> (lr_NextPageToken res \<noteq> '''' \<longrightarrow> int (length (lr_Items res)) = clampPageSize (lo_PageSize opts))"
    using pg_List2_bounds mem_List_bounds assms unfolding pg_List_def by blast
  then show "int (length (lr_Items res)) \<le> clampPageSize (lo_PageSize opts)"
    "lr_NextPageToken res \<noteq> '''' \<Longrightarrow> int (length (lr_Items res)) = clampPageSize (lo_PageSize opts)" by blast+
next
  assume "pg_ListEvents eng colony run since limit s = Inr evs \<or> mem_ListEvents colony run since limit m = Inr evs"
  then show "int (length evs) \<le> clampPageSize limit"
    using take_clamp_bound by (auto simp: pg_ListEvents_def mem_ListEvents_eq split: if_splits simp del: length_take)
next
  assume "handle_List (pg_ResourceStore eng) kind f opts s = Inr resp \<or> handle_List mem_ResourceStore kind f opts m = Inr resp"
  then obtain res where "pg_List eng kind opts s = Inr res \<or> mem_List kind opts m = Inr res"
    "length (rp_Items resp) = length (lr_Items res)"
    using handle_List_length [of "pg_ResourceStore eng" kind f opts s resp]
      handle_List_length [of mem_ResourceStore kind f opts m resp]
    by (auto simp: pg_ResourceStore_def mem_ResourceStore_def)
  note res = this
  from res(1) have "int (length (lr_Items res)) \<le> clampPageSize (lo_PageSize opts)"
    using pg_List2_bounds mem_List_bounds assms unfolding pg_List_def by blast
  then show "int (length (rp_Items resp)) \<le> MaxPageSize"
    using res(2) clampPageSize_bounds [of "lo_PageSize opts"] by (simp add: MaxPageSize_def)
qed

theorem list_page_bounds_witness:
  "\<exists>resp. handle_List mem_ResourceStore ''Agent'' Inr empty_list_options (mem_after writes_1) = Inr resp
    \<and> length (rp_Items resp) = 1 \<and> int (length (rp_Items resp)) \<le> MaxPageSize"
proof -
  have small: "int (length (m_resources (mem_after writes_1))) < 2 ^ 31" by (simp add: mem_writes_1)
  obtain resp where r: "handle_List mem_ResourceStore ''Agent'' Inr empty_list_options (mem_after writes_1) = Inr resp"
    "length (rp_Items resp) = 1"
    by (simp add: handle_List_def mem_ResourceStore_def mem_List_def mem_writes_1 mem_selects_def matchesLabels_def cloneResource_def
      empty_list_options_def decodePageToken_def cut_page_def sample_defs clampPageSize_def DefaultPageSize_def int32_id Let_def)
  from list_page_bounds [OF small, THEN conjunct2, THEN conjunct2, THEN mp, OF disjI2, OF r(1)] r show ?thesis by blast
qed

section \<open>UIDs\<close>

lemma hex_byte_inj [simp]: "hex_byte a = hex_byte b \<longleftrightarrow> a = b"
proof
  have hex: "i < 16 \<Longrightarrow> j < 16 \<Longrightarrow> ''0123456789abcdef'' ! i = ''0123456789abcdef'' ! j \<Longrightarrow> i = j" for i j :: nat
    by (simp add: nth_eq_iff_index_eq)
  assume "hex_byte a = hex_byte b"
  moreover have "unat a < 256" "unat b < 256" using unsigned_less [of a] unsigned_less [of b] by simp_all
  ultimately have "unat a div 16 = unat b div 16" "unat a mod 16 = unat b mod 16"
    unfolding hex_byte_def by (auto intro!: hex)
  then have "unat a = unat b" by (metis div_mult_mod_eq)
  then show "a = b" by (simp add: word_unat_eq_iff)
qed simp


lemma hex_byte_simps [simp]: "length (hex_byte b) = 2" "set (hex_byte b) \<subseteq> set ''0123456789abcdef''"
proof -
  have "i < 16 \<Longrightarrow> ''0123456789abcdef'' ! i \<in> set ''0123456789abcdef''" for i :: nat
    by (rule nth_mem) simp
  moreover have "unat b < 256" using unsigned_less [of b] by simp
  ultimately show "set (hex_byte b) \<subseteq> set ''0123456789abcdef''"
    by (simp add: hex_byte_def less_mult_imp_div_less)
qed (simp add: hex_byte_def)

lemma hex_bytes_length [simp]: "length (concat (map hex_byte bs)) = 2 * length bs"
  by (induction bs) simp_all

lemma hex_bytes_inj: "length bs = length cs \<Longrightarrow> concat (map hex_byte bs) = concat (map hex_byte cs) \<longleftrightarrow> bs = cs"
  by (induction bs cs rule: list_induct2) (auto simp: append_eq_append_conv)

text \<open>The version and variant digits: the high halves of bytes 6 and 8.\<close>

lemma version_bits: "unat ((w AND 0x0f) OR 0x40 :: 8 word) div 16 = 4"
proof -
  have "list_all (\<lambda>n. unat ((word_of_nat n AND 0x0f) OR 0x40 :: 8 word) div 16 = 4) [0..<256]" by code_simp
  then have all: "\<forall>n<256. unat ((word_of_nat n AND 0x0f) OR 0x40 :: 8 word) div 16 = 4" by (simp add: list_all_iff)
  have "unat w < 256" using unsigned_less [of w] by simp
  with all have "unat ((word_of_nat (unat w) AND 0x0f) OR 0x40 :: 8 word) div 16 = 4" by blast
  then show ?thesis by simp
qed

lemma variant_bits: "unat ((w AND 0x3f) OR 0x80 :: 8 word) div 16 \<in> {8, 9, 10, 11}"
proof -
  have "list_all (\<lambda>n. unat ((word_of_nat n AND 0x3f) OR 0x80 :: 8 word) div 16 \<in> {8, 9, 10, 11}) [0..<256]" by code_simp
  then have all: "\<forall>n<256. unat ((word_of_nat n AND 0x3f) OR 0x80 :: 8 word) div 16 \<in> {8, 9, 10, 11}"
    by (simp add: list_all_iff)
  have "unat w < 256" using unsigned_less [of w] by simp
  with all have "unat ((word_of_nat (unat w) AND 0x3f) OR 0x80 :: 8 word) div 16 \<in> {8, 9, 10, 11}" by blast
  then show ?thesis by simp
qed

text \<open>
  \<open>newUID\<close> of sixteen random bytes is a version 4 UUID: five groups of 8, 4, 4, 4 and 12
  hexadecimal digits, the third starting with 4, the fourth with 8, 9, a or b; and it tells
  apart any two inputs that differ in more than those six fixed bits.
\<close>

theorem newUID_version_4:
  assumes "length b = 16" "length c = 16"
  shows "(\<exists>g1 g2 g3 g4 g5. newUID b = g1 @ ''-'' @ g2 @ ''-'' @ g3 @ ''-'' @ g4 @ ''-'' @ g5
      \<and> map length [g1, g2, g3, g4, g5] = [8, 4, 4, 4, 12]
      \<and> set (g1 @ g2 @ g3 @ g4 @ g5) \<subseteq> set ''0123456789abcdef''
      \<and> hd g3 = CHR ''4'' \<and> hd g4 \<in> set ''89ab'')
    \<and> (newUID b = newUID c \<longleftrightarrow> uid_bytes b = uid_bytes c)"
proof
  let ?g = "\<lambda>b i n. concat (map hex_byte (take n (drop i (uid_bytes b))))"
  have len: "length (uid_bytes b) = 16" "length (uid_bytes c) = 16" using assms by (simp_all add: uid_bytes_def)
  have hex: "set (?g b i n) \<subseteq> set ''0123456789abcdef''" for i n
    using hex_byte_simps(2) by fastforce
  have two: "take 2 (drop i (uid_bytes b)) = [uid_bytes b ! i, uid_bytes b ! Suc i]" if "i < 15" for i
    using that len by (simp add: numeral_2_eq_2 Cons_nth_drop_Suc [symmetric])
  have v: "hd (?g b 6 2) = CHR ''4''"
    using version_bits [of "b ! 6"] assms(1) by (simp add: two) (simp add: hex_byte_def uid_bytes_def)
  have w: "hd (?g b 8 2) \<in> set ''89ab''"
    using variant_bits [of "b ! 8"] assms(1) by (simp add: two) (auto simp: hex_byte_def uid_bytes_def)
  have uid: "newUID b = ?g b 0 4 @ ''-'' @ ?g b 4 2 @ ''-'' @ ?g b 6 2 @ ''-'' @ ?g b 8 2 @ ''-'' @ ?g b 10 6"
    by (simp only: newUID_def Let_def)
  have sizes: "map length [?g b 0 4, ?g b 4 2, ?g b 6 2, ?g b 8 2, ?g b 10 6] = [8, 4, 4, 4, 12]"
    using len by simp
  have digits: "set (?g b 0 4 @ ?g b 4 2 @ ?g b 6 2 @ ?g b 8 2 @ ?g b 10 6) \<subseteq> set ''0123456789abcdef''"
    using hex by (simp only: set_append Un_subset_iff)
  show "\<exists>g1 g2 g3 g4 g5. newUID b = g1 @ ''-'' @ g2 @ ''-'' @ g3 @ ''-'' @ g4 @ ''-'' @ g5
      \<and> map length [g1, g2, g3, g4, g5] = [8, 4, 4, 4, 12]
      \<and> set (g1 @ g2 @ g3 @ g4 @ g5) \<subseteq> set ''0123456789abcdef''
      \<and> hd g3 = CHR ''4'' \<and> hd g4 \<in> set ''89ab''"
    by (intro exI conjI) (rule uid sizes digits v w)+
  show "newUID b = newUID c \<longleftrightarrow> uid_bytes b = uid_bytes c"
  proof
    assume "newUID b = newUID c"
    then have "take 4 (uid_bytes b) = take 4 (uid_bytes c)" "take 2 (drop 4 (uid_bytes b)) = take 2 (drop 4 (uid_bytes c))"
      "take 2 (drop 6 (uid_bytes b)) = take 2 (drop 6 (uid_bytes c))" "take 2 (drop 8 (uid_bytes b)) = take 2 (drop 8 (uid_bytes c))"
      "take 6 (drop 10 (uid_bytes b)) = take 6 (drop 10 (uid_bytes c))"
      using len by (simp_all add: newUID_def Let_def append_eq_append_conv hex_bytes_inj)
    moreover have "u = take 4 u @ take 2 (drop 4 u) @ take 2 (drop 6 u) @ take 2 (drop 8 u) @ take 6 (drop 10 u)"
      if "length u = 16" for u :: "8 word list"
    proof -
      have "u = take 4 u @ take 2 (drop 4 u) @ take 2 (drop 2 (drop 4 u)) @ take 2 (drop 2 (drop 2 (drop 4 u)))
          @ drop 2 (drop 2 (drop 2 (drop 4 u)))"
        by (simp only: append_take_drop_id)
      with that show ?thesis by simp
    qed
    ultimately show "uid_bytes b = uid_bytes c" using len by metis
  qed (simp add: newUID_def)
qed

theorem newUID_version_4_witness:
  "\<exists>g1 g2 g3 g4 g5. newUID (replicate 16 0xff) = g1 @ ''-'' @ g2 @ ''-'' @ g3 @ ''-'' @ g4 @ ''-'' @ g5
    \<and> hd g3 = CHR ''4'' \<and> hd g4 \<in> set ''89ab'' \<and> newUID (replicate 16 0) \<noteq> newUID (replicate 16 0xff)"
proof -
  have len: "length (replicate 16 0xff :: 8 word list) = 16" "length (replicate 16 0 :: 8 word list) = 16" by simp_all
  have "uid_bytes (replicate 16 0xff) ! 0 \<noteq> uid_bytes (replicate 16 0) ! 0" by (simp add: uid_bytes_def)
  then have "uid_bytes (replicate 16 0xff) \<noteq> uid_bytes (replicate 16 0)" by metis
  then have ne: "newUID (replicate 16 0) \<noteq> newUID (replicate 16 0xff)"
    using newUID_version_4 [OF len, THEN conjunct2] by metis
  from newUID_version_4 [OF len, THEN conjunct1] show ?thesis
    by (elim exE conjE) (intro exI conjI ne)
qed

end
