(* ===== verification/PgTxn.thy ===== *)
theory PgTxn
  imports PgWatch
begin

text \<open>
  Concurrent transactions of \<open>Apply\<close>, \<open>ApplyStatus\<close> and \<open>Append\<close> (\<open>internal/store/postgres.go\<close>) on
  PostgreSQL: a step relation over any number of clients, with the row lock of the version
  counter (\<open>migrations/00003_transactional_resource_version.sql\<close>), the advisory lock and the
  statement snapshot of \<open>Append\<close>, and transactions given up at any point. The atomic steps of
  theory \<open>PostgresStore\<close> are what it refines (theory \<open>TxnProps\<close>).
\<close>

section \<open>Transactions\<close>

datatype txn =
    Upsert env resource "int option"
  | Create env resource
  | SetStatus env resource bool
  | AppendEvent env event

datatype answer = Stored resource | Recorded event

text \<open>
  The \<open>UPDATE\<close> of \<open>ApplyStatus\<close> computes the new row, and so takes a version, before it locks
  the row. If the row changed since the statement's snapshot, it is computed again from the
  row as it is now, and takes another version.
\<close>

definition update_status :: "pg_engine \<Rightarrow> env \<Rightarrow> resource \<Rightarrow> bool \<Rightarrow> Postgres \<Rightarrow> (go_error + resource) \<times> Postgres" where
  "update_status eng e r again s =
     (case pg_ApplyStatus eng e r (s\<lparr>p_counter := p_counter s + (if again then 1 else 0)\<rparr>) of
        (Inl err, _) \<Rightarrow> (Inl err, s)
      | (Inr out, s') \<Rightarrow> (Inr out, s'))"

text \<open>The same as one step of the store.\<close>

fun atomic :: "pg_engine \<Rightarrow> txn \<Rightarrow> Postgres \<Rightarrow> (go_error + answer) \<times> Postgres" where
  "atomic eng (Upsert e r ifv) s = apfst (map_sum id Stored) (pg_Apply eng e r ifv s)"
| "atomic eng (Create e r) s = apfst (map_sum id Stored) (pg_Apply eng e r None s)"
| "atomic eng (SetStatus e r again) s = apfst (map_sum id Stored) (update_status eng e r again s)"
| "atomic eng (AppendEvent e ev) s = apfst (map_sum id Recorded) (pg_Append eng e ev s)"

text \<open>
  A client: nothing under way; \<open>Get\<close> of \<open>applyImmutable\<close> found nothing; the \<open>UPDATE\<close> of
  \<open>ApplyStatus\<close> found the row in its snapshot, taken after as many commits, and waits for the
  counter; the advisory lock of
  the Run is held; the \<open>INSERT\<close> of \<open>Append\<close> has begun, with the highest number its snapshot
  shows and its row id, and waits for the counter; the statement is done and holds the
  counter's row, with its answer and the tables as the transaction sees them.
\<close>

datatype client =
    Idle
  | Missed env resource
  | Found env resource nat
  | Locked env event
  | Inserting env event int int
  | Pending txn "go_error + answer" Postgres

text \<open>
  \<open>w_db\<close> is what is committed, \<open>w_counter\<close> who holds the row of the counter, \<open>w_runs\<close> who holds
  an advisory lock, \<open>w_log\<close> the transactions in the order they committed, with their answers.
\<close>

record world =
  w_db :: Postgres
  w_counter :: "nat option"
  w_runs :: "int \<times> int \<Rightarrow> nat option"
  w_clients :: "nat \<Rightarrow> client"
  w_log :: "(txn \<times> (go_error + answer)) list"

definition init_world :: world where
  "init_world = \<lparr>w_db = init_postgres, w_counter = None, w_runs = (\<lambda>_. None), w_clients = (\<lambda>_. Idle), w_log = []\<rparr>"

definition lock_key :: "(string \<Rightarrow> int) \<Rightarrow> event \<Rightarrow> int \<times> int" where
  "lock_key hashtext ev = (hashtext (e_Colony ev), hashtext (e_Run ev))"

definition release :: "nat \<Rightarrow> (int \<times> int \<Rightarrow> nat option) \<Rightarrow> int \<times> int \<Rightarrow> nat option" where
  "release i runs = (\<lambda>k. if runs k = Some i then None else runs k)"

definition duplicate_key :: go_error where
  "duplicate_key = engine_err ''duplicate key value violates unique constraint''"

text \<open>
  The \<open>INSERT\<close> of \<open>Append\<close> once it has the counter: \<open>m\<close> is the highest number of the Run in
  the statement's snapshot, which may be older than \<open>s\<close>; \<open>UNIQUE (colony, run, seq)\<close> is
  checked against \<open>s\<close>.
\<close>

definition insert_event :: "pg_engine \<Rightarrow> env \<Rightarrow> event \<Rightarrow> int \<Rightarrow> int \<Rightarrow> Postgres \<Rightarrow> (go_error + event) \<times> Postgres" where
  "insert_event eng e ev m ident s =
     (if \<not> (pe_text_ok eng (e_Colony ev) \<and> pe_text_ok eng (e_Run ev) \<and> pe_text_ok eng (e_Type ev))
      then (Inl (engine_err ''invalid parameter''), s)
      else case pe_jsonb_in eng (jsonbBytes (e_Payload ev)) of
        None \<Rightarrow> (Inl (engine_err ''invalid parameter''), s)
      | Some payload \<Rightarrow>
          (case hived_next_resource_version s of
             None \<Rightarrow> (Inl (engine_err ''bigint out of range''), s)
           | Some (rv, s1) \<Rightarrow>
               (let ts = (case nullableTime (e_TS ev) of None \<Rightarrow> env_now e | Some t \<Rightarrow> t);
                    ev1 = ev\<lparr>e_ResourceVersion := rv, e_Seq := m + 1, e_TS := pe_time eng ts,
                             e_Payload := Some payload\<rparr>
                in if max_int64 < m + 1 then (Inl (engine_err ''bigint out of range''), s)
                   else if \<exists>x\<in>set (run_events (e_Colony ev) (e_Run ev) s). e_Seq x = m + 1
                   then (Inl duplicate_key, s)
                   else (Inr ev1, s1\<lparr>p_events := p_events s1 @ [(ident, ev1)]\<rparr>))))"

text \<open>The transactions that wrote the row of a key.\<close>

fun wrote_row :: "resKey \<Rightarrow> txn \<times> (go_error + answer) \<Rightarrow> bool" where
  "wrote_row k (Upsert e r ifv, Inr a) = (key_of r = k)"
| "wrote_row k (Create e r, Inr a) = (key_of r = k)"
| "wrote_row k (SetStatus e r again, Inr a) = (key_of r = k)"
| "wrote_row k _ = False"

text \<open>
  READ COMMITTED: a statement reads what was committed when it began, a row it wants to change
  as it was committed last. The first thing a writing statement does is to take a version,
  so it waits for the row of the counter and keeps it to the end of its transaction. A
  \<open>bigserial\<close> is not part of a transaction. Any transaction may be given up at any point.
\<close>

inductive txn_step :: "pg_engine \<Rightarrow> (string \<Rightarrow> int) \<Rightarrow> world \<Rightarrow> world \<Rightarrow> bool" for eng hashtext where
  upsert: "w_clients w i = Idle \<Longrightarrow> \<not> IsImmutableKind (r_Kind r) \<Longrightarrow> w_counter w = None \<Longrightarrow>
    pg_applyMutable eng e r ifv (w_db w) = (res, s') \<Longrightarrow>
    txn_step eng hashtext w (w\<lparr>w_counter := Some i,
      w_clients := (w_clients w)(i := Pending (Upsert e r ifv) (map_sum id Stored res) s')\<rparr>)"
| miss: "w_clients w i = Idle \<Longrightarrow> IsImmutableKind (r_Kind r) \<Longrightarrow>
    pg_Get eng (r_Kind r) (r_Colony r) (r_Name r) (w_db w) = Inl err \<Longrightarrow> errors_Is err ErrNotFound \<Longrightarrow>
    txn_step eng hashtext w (w\<lparr>w_clients := (w_clients w)(i := Missed e r)\<rparr>)"
| create: "w_clients w i = Missed e r \<Longrightarrow> w_counter w = None \<Longrightarrow>
    pg_insertImmutable eng e r (w_db w) = (res, s') \<Longrightarrow>
    txn_step eng hashtext w (w\<lparr>w_counter := Some i,
      w_clients := (w_clients w)(i := Pending (Create e r) (map_sum id Stored res) s')\<rparr>)"
| scan: "w_clients w i = Idle \<Longrightarrow> map_of (p_rows (w_db w)) (key_of r) = Some ex \<Longrightarrow> r_DeletedAt ex = None \<Longrightarrow>
    txn_step eng hashtext w (w\<lparr>w_clients := (w_clients w)(i := Found e r (length (w_log w)))\<rparr>)"
| status: "w_clients w i = Found e r n \<Longrightarrow> w_counter w = None \<Longrightarrow>
    again = (\<exists>c\<in>set (drop n (w_log w)). wrote_row (key_of r) c) \<Longrightarrow>
    update_status eng e r again (w_db w) = (res, s') \<Longrightarrow>
    txn_step eng hashtext w (w\<lparr>w_counter := Some i,
      w_clients := (w_clients w)(i := Pending (SetStatus e r again) (map_sum id Stored res) s')\<rparr>)"
| lock: "w_clients w i = Idle \<Longrightarrow> w_runs w (lock_key hashtext ev) = None \<Longrightarrow>
    txn_step eng hashtext w (w\<lparr>w_runs := (w_runs w)(lock_key hashtext ev := Some i),
      w_clients := (w_clients w)(i := Locked e ev)\<rparr>)"
| snapshot: "w_clients w i = Locked e ev \<Longrightarrow> ident = p_event_id (w_db w) + 1 \<Longrightarrow>
    txn_step eng hashtext w (w\<lparr>w_db := (w_db w)\<lparr>p_event_id := ident\<rparr>,
      w_clients := (w_clients w)(i := Inserting e ev (max_seq (run_events (e_Colony ev) (e_Run ev) (w_db w))) ident)\<rparr>)"
| insert: "w_clients w i = Inserting e ev m ident \<Longrightarrow> w_counter w = None \<Longrightarrow>
    insert_event eng e ev m ident (w_db w) = (res, s') \<Longrightarrow>
    txn_step eng hashtext w (w\<lparr>w_counter := Some i,
      w_clients := (w_clients w)(i := Pending (AppendEvent e ev) (map_sum id Recorded res) s')\<rparr>)"
| commit: "w_clients w i = Pending t res s' \<Longrightarrow>
    txn_step eng hashtext w (w\<lparr>w_db := s'\<lparr>p_event_id := p_event_id (w_db w)\<rparr>, w_counter := None,
      w_runs := release i (w_runs w), w_clients := (w_clients w)(i := Idle), w_log := w_log w @ [(t, res)]\<rparr>)"
| abort: "w_clients w i \<noteq> Idle \<Longrightarrow>
    txn_step eng hashtext w (w\<lparr>w_counter := (if w_counter w = Some i then None else w_counter w),
      w_runs := release i (w_runs w), w_clients := (w_clients w)(i := Idle)\<rparr>)"

section \<open>What the ids of events do not matter for\<close>

definition logical :: "Postgres \<Rightarrow> (resKey \<times> resource) list \<times> int \<times> event list" where
  "logical s = (p_rows s, p_counter s, map snd (p_events s))"

lemma logical_run_events: "logical s = logical t \<Longrightarrow> run_events c r s = run_events c r t"
  by (simp add: logical_def run_events_def)

lemma pg_Apply_frame:
  "pg_Apply eng e r ifv (s\<lparr>p_events := es, p_event_id := n\<rparr>) =
    apsnd (\<lambda>s'. s'\<lparr>p_events := es, p_event_id := n\<rparr>) (pg_Apply eng e r ifv s)"
  by (simp add: pg_Apply_def pg_applyImmutable_def pg_insertImmutable_def pg_applyMutable_def pg_Get_def
      hived_next_resource_version_def Let_def split: option.splits sum.splits)

lemma pg_Apply_events [simp]: "p_events (snd (pg_Apply eng e r ifv s)) = p_events s"
  by (simp add: pg_Apply_def pg_applyImmutable_def pg_insertImmutable_def pg_applyMutable_def pg_Get_def
      hived_next_resource_version_def Let_def split: option.splits sum.splits)

lemma pg_Apply_logical:
  assumes "logical s = logical t"
  shows "fst (pg_Apply eng e r ifv s) = fst (pg_Apply eng e r ifv t)
    \<and> logical (snd (pg_Apply eng e r ifv s)) = logical (snd (pg_Apply eng e r ifv t))"
proof -
  have s: "s = t\<lparr>p_events := p_events s, p_event_id := p_event_id s\<rparr>"
    using assms by (cases s; cases t) (simp add: logical_def)
  have "pg_Apply eng e r ifv s = apsnd (\<lambda>s'. s'\<lparr>p_events := p_events s, p_event_id := p_event_id s\<rparr>) (pg_Apply eng e r ifv t)"
    using pg_Apply_frame [where s = t and es = "p_events s" and n = "p_event_id s"] unfolding s [symmetric] by blast
  then show ?thesis using assms by (simp add: logical_def)
qed

lemma update_status_frame:
  "update_status eng e r again (s\<lparr>p_events := es, p_event_id := n\<rparr>) =
    apsnd (\<lambda>s'. s'\<lparr>p_events := es, p_event_id := n\<rparr>) (update_status eng e r again s)"
  by (simp add: update_status_def pg_ApplyStatus_def hived_next_resource_version_def Let_def
      split: option.splits)

lemma update_status_events [simp]: "p_events (snd (update_status eng e r again s)) = p_events s"
  by (simp add: update_status_def pg_ApplyStatus_def hived_next_resource_version_def Let_def split: option.splits)

lemma update_status_logical:
  assumes "logical s = logical t"
  shows "fst (update_status eng e r again s) = fst (update_status eng e r again t)
    \<and> logical (snd (update_status eng e r again s)) = logical (snd (update_status eng e r again t))"
proof -
  have s: "s = t\<lparr>p_events := p_events s, p_event_id := p_event_id s\<rparr>"
    using assms by (cases s; cases t) (simp add: logical_def)
  have "update_status eng e r again s =
      apsnd (\<lambda>s'. s'\<lparr>p_events := p_events s, p_event_id := p_event_id s\<rparr>) (update_status eng e r again t)"
    using update_status_frame [where s = t and es = "p_events s" and n = "p_event_id s"] unfolding s [symmetric] by blast
  then show ?thesis using assms by (simp add: logical_def)
qed

text \<open>The insert of \<open>Append\<close> with a snapshot that is not stale is the atomic one, up to the id.\<close>

lemma le_max_seq: "x \<in> set es \<Longrightarrow> e_Seq x \<le> max_seq es"
proof (cases es)
  case (Cons y ys)
  have "a \<le> foldl max a xs \<and> (\<forall>b\<in>set xs. b \<le> foldl max a xs)" for a :: int and xs
  proof (induction xs arbitrary: a)
    case (Cons b xs)
    from Cons [of "max a b"] show ?case by auto
  qed simp
  moreover assume "x \<in> set es"
  ultimately show ?thesis using Cons by (auto simp: max_seq_def)
qed simp

lemma insert_event_atomic:
  assumes "m = max_seq (run_events (e_Colony ev) (e_Run ev) s)"
  shows "fst (insert_event eng e ev m ident s) = fst (pg_Append eng e ev s)
    \<and> logical (snd (insert_event eng e ev m ident s)) = logical (snd (pg_Append eng e ev s))"
proof -
  have "\<not> (\<exists>x\<in>set (run_events (e_Colony ev) (e_Run ev) s). e_Seq x = m + 1)"
    using le_max_seq assms by fastforce
  moreover have "run_events (e_Colony ev) (e_Run ev) (s\<lparr>p_counter := v\<rparr>) = run_events (e_Colony ev) (e_Run ev) s" for v
    by (simp add: run_events_def)
  ultimately show ?thesis
    using assms by (simp add: insert_event_def pg_Append_def logical_def hived_next_resource_version_def Let_def
        split: option.splits)
qed

lemma pg_Append_logical:
  assumes "logical s = logical t"
  shows "fst (pg_Append eng e ev s) = fst (pg_Append eng e ev t)
    \<and> logical (snd (pg_Append eng e ev s)) = logical (snd (pg_Append eng e ev t))"
proof -
  have r: "run_events c r (s\<lparr>p_counter := v\<rparr>) = run_events c r t" "run_events c r (t\<lparr>p_counter := v\<rparr>) = run_events c r t" for c r v
    using assms by (simp_all add: run_events_def logical_def)
  show ?thesis
    using assms by (simp add: pg_Append_def logical_def hived_next_resource_version_def r logical_run_events [OF assms] Let_def split: option.splits)
qed

lemma atomic_logical:
  assumes "logical s = logical t"
  shows "fst (atomic eng x s) = fst (atomic eng x t)" "logical (snd (atomic eng x s)) = logical (snd (atomic eng x t))"
  using pg_Apply_logical [OF assms] update_status_logical [OF assms] pg_Append_logical [OF assms] by (cases x; simp)+

text \<open>A create that lost its race leaves the tables as the atomic one does, with another answer.\<close>

lemma create_atomic:
  assumes "IsImmutableKind (r_Kind r)" "pg_insertImmutable eng e r s = (res, s')"
  shows "s' = snd (pg_Apply eng e r None s)"
    "res = fst (pg_Apply eng e r None s)
      \<or> map_of (p_rows s) (key_of r) \<noteq> None \<and> (\<exists>err. res = Inl err \<and> err_is err = None)"
proof -
  have "s' = snd (pg_Apply eng e r None s) \<and> (res = fst (pg_Apply eng e r None s)
      \<or> map_of (p_rows s) (key_of r) \<noteq> None \<and> (\<exists>err. res = Inl err \<and> err_is err = None))"
  proof (cases "pg_Get eng (r_Kind r) (r_Colony r) (r_Name r) s")
    case (Inr ex)
    then have "map_of (p_rows s) (key_of r) \<noteq> None"
      by (auto simp: pg_Get_def key_of_def split: if_splits option.splits)
    with Inr assms show ?thesis
      by (auto simp: pg_Apply_def pg_applyImmutable_def engine_err_def elim: pg_insertImmutable_cases)
  next
    case (Inl err)
    show ?thesis
    proof (cases "errors_Is err ErrNotFound")
      case True
      with Inl assms show ?thesis by (simp add: pg_Apply_def pg_applyImmutable_def)
    next
      case False
      with Inl have bad: "\<not> (pe_text_ok eng (r_Kind r) \<and> pe_text_ok eng (r_Colony r) \<and> pe_text_ok eng (r_Name r))"
        "err = engine_err ''invalid parameter''"
        by (auto simp: pg_Get_def split: if_splits option.splits)
      then have "insert_row eng e r ''{}'' = None" by (auto simp: insert_row_eq)
      then have "res = Inl err \<and> s' = s" using assms(2) bad(2) by (simp add: pg_insertImmutable_def)
      with Inl False assms(1) show ?thesis by (simp add: pg_Apply_def pg_applyImmutable_def)
    qed
  qed
  then show "s' = snd (pg_Apply eng e r None s)"
    "res = fst (pg_Apply eng e r None s)
      \<or> map_of (p_rows s) (key_of r) \<noteq> None \<and> (\<exists>err. res = Inl err \<and> err_is err = None)" by blast+
qed

end
