(* ===== verification/TxnProps.thy ===== *)
theory TxnProps
  imports PgTxn Samples
begin

text \<open>
  What concurrent clients of the PostgreSQL store may rely on: the committed transactions are
  one sequence of atomic steps in the order of their commits, no version becomes visible
  late, and concurrent appends to a Run lose and repeat no number.
\<close>

section \<open>Commits in order\<close>

definition replay :: "pg_engine \<Rightarrow> (txn \<times> (go_error + answer)) list \<Rightarrow> Postgres" where
  "replay eng log = foldl (\<lambda>s x. snd (atomic eng (fst x) s)) init_postgres log"

text \<open>The answer of the atomic step, or the error of a create that lost its race.\<close>

definition answered :: "pg_engine \<Rightarrow> Postgres \<Rightarrow> txn \<Rightarrow> go_error + answer \<Rightarrow> bool" where
  "answered eng s x res \<longleftrightarrow> res = fst (atomic eng x s)
     \<or> (\<exists>e r err. x = Create e r \<and> map_of (p_rows s) (key_of r) \<noteq> None \<and> res = Inl err \<and> err_is err = None)"

fun appending :: "client \<Rightarrow> event option" where
  "appending (Locked e ev) = Some ev"
| "appending (Inserting e ev m ident) = Some ev"
| "appending (Pending (AppendEvent e ev) res s) = Some ev"
| "appending _ = None"

definition txn_inv :: "pg_engine \<Rightarrow> (string \<Rightarrow> int) \<Rightarrow> world \<Rightarrow> bool" where
  "txn_inv eng hashtext w \<longleftrightarrow>
     (\<forall>i t res s'. w_clients w i = Pending t res s' \<longrightarrow> w_counter w = Some i
        \<and> logical s' = logical (snd (atomic eng t (w_db w))) \<and> answered eng (w_db w) t res)
     \<and> (\<forall>i e ev m ident. w_clients w i = Inserting e ev m ident \<longrightarrow>
          m = max_seq (run_events (e_Colony ev) (e_Run ev) (w_db w)))
     \<and> (\<forall>i ev. appending (w_clients w i) = Some ev \<longrightarrow> w_runs w (lock_key hashtext ev) = Some i)
     \<and> (\<forall>i e r. w_clients w i = Missed e r \<longrightarrow> IsImmutableKind (r_Kind r))
     \<and> logical (w_db w) = logical (replay eng (w_log w))
     \<and> (\<forall>n<length (w_log w). answered eng (replay eng (take n (w_log w))) (fst (w_log w ! n)) (snd (w_log w ! n)))"

lemma answered_logical: "logical s = logical t \<Longrightarrow> answered eng s x res \<longleftrightarrow> answered eng t x res"
  using atomic_logical(1) [of s t eng x] by (simp add: answered_def logical_def)

lemma replay_snoc: "replay eng (log @ [(t, res)]) = snd (atomic eng t (replay eng log))"
  by (simp add: replay_def)

lemma logical_event_id [simp]: "logical (s\<lparr>p_event_id := n\<rparr>) = logical s"
  by (simp add: logical_def)

lemma run_events_event_id [simp]: "run_events c r (s\<lparr>p_event_id := n\<rparr>) = run_events c r s"
  by (simp add: run_events_def)

lemma atomic_event_id [simp]:
  "logical (snd (atomic eng x (s\<lparr>p_event_id := n\<rparr>))) = logical (snd (atomic eng x s))"
  "answered eng (s\<lparr>p_event_id := n\<rparr>) x res \<longleftrightarrow> answered eng s x res"
  using atomic_logical(2) [of "s\<lparr>p_event_id := n\<rparr>" s] answered_logical [of "s\<lparr>p_event_id := n\<rparr>" s] by simp_all

lemma txn_inv_init: "txn_inv eng hashtext init_world"
  by (simp add: txn_inv_def init_world_def replay_def)

lemma txn_invD:
  assumes "txn_inv eng hashtext w"
  shows "w_clients w i = Pending t res s' \<Longrightarrow> w_counter w = Some i"
    "w_clients w i = Pending t res s' \<Longrightarrow> logical s' = logical (snd (atomic eng t (w_db w)))"
    "w_clients w i = Pending t res s' \<Longrightarrow> answered eng (w_db w) t res"
    "w_clients w i = Inserting e ev m ident \<Longrightarrow> m = max_seq (run_events (e_Colony ev) (e_Run ev) (w_db w))"
    "appending (w_clients w i) = Some ev \<Longrightarrow> w_runs w (lock_key hashtext ev) = Some i"
    "w_clients w i = Missed e' r \<Longrightarrow> IsImmutableKind (r_Kind r)"
    "logical (w_db w) = logical (replay eng (w_log w))"
    "n < length (w_log w) \<Longrightarrow> answered eng (replay eng (take n (w_log w))) (fst (w_log w ! n)) (snd (w_log w ! n))"
  using assms unfolding txn_inv_def by blast+

text \<open>A client takes the counter with what its transaction would leave: the invariant stays.\<close>

lemma txn_inv_pending:
  assumes "txn_inv eng hashtext w" "w_counter w = None"
    and "logical s' = logical (snd (atomic eng t (w_db w)))" "answered eng (w_db w) t res"
    and "\<And>e ev. t = AppendEvent e ev \<Longrightarrow> appending (w_clients w i) = Some ev"
  shows "txn_inv eng hashtext (w\<lparr>w_counter := Some i, w_clients := (w_clients w)(i := Pending t res s')\<rparr>)"
proof -
  note I = txn_invD [OF assms(1)]
  have "w_clients w j \<noteq> Pending t' res' s''" for j t' res' s'' using I(1) assms(2) by fastforce
  moreover have "w_runs w (lock_key hashtext ev) = Some i" if "appending (Pending t res s') = Some ev" for ev
    using that assms(5) I(5) by (cases t) auto
  ultimately show ?thesis
    using I(4-8) assms(3,4) unfolding txn_inv_def by auto
qed

text \<open>Nothing but a commit touches what the others rely on.\<close>

lemma atomic_run_events:
  assumes "\<And>e ev. x = AppendEvent e ev \<Longrightarrow> (c, r) \<noteq> (e_Colony ev, e_Run ev)"
  shows "run_events c r (snd (atomic eng x s)) = run_events c r s"
proof (cases x)
  case (AppendEvent e ev)
  then show ?thesis
    using assms [OF AppendEvent]
    by (auto simp: pg_Append_def run_events_def hived_next_resource_version_def Let_def split: option.splits)
qed (simp_all add: run_events_def)

lemma txn_inv_step:
  assumes "txn_step eng hashtext w w'" "txn_inv eng hashtext w"
  shows "txn_inv eng hashtext w'"
  using assms(1)
proof (cases rule: txn_step.cases)
  note I = txn_invD [OF assms(2)]
  {
    case (upsert i r e ifv res s')
    have "pg_Apply eng e r ifv (w_db w) = (res, s')" using upsert by (simp add: pg_Apply_def)
    then show ?thesis
      unfolding upsert(1) by (intro txn_inv_pending [OF assms(2)]) (use upsert in \<open>auto simp: answered_def\<close>)
  next
    case (miss i r err e)
    then show ?thesis using I unfolding txn_inv_def by auto
  next
    case (create i e r res s')
    note k = I(6) [OF create(2)]
    note c = create_atomic [OF k create(4)]
    have "answered eng (w_db w) (Create e r) (map_sum id Stored res)"
      using c(2) by (auto simp: answered_def)
    then show ?thesis
      unfolding create(1) by (intro txn_inv_pending [OF assms(2)]) (use create c(1) in auto)
  next
    case (scan i r ex e)
    then show ?thesis using I unfolding txn_inv_def by auto
  next
    case (status i e r n again res s')
    then show ?thesis
      unfolding status(1) by (intro txn_inv_pending [OF assms(2)]) (auto simp: answered_def)
  next
    case (lock i ev e)
    have "lock_key hashtext ev' \<noteq> lock_key hashtext ev" if "appending (w_clients w j) = Some ev'" for j ev'
      using I(5) [OF that] lock(3) by auto
    then show ?thesis using I lock unfolding txn_inv_def by (auto split: if_splits)
  next
    case (snapshot i e ev ident)
    have "appending (w_clients w i) = Some ev" using snapshot by simp
    then show ?thesis
      using I snapshot(2,3) unfolding txn_inv_def snapshot(1)
      by (auto simp del: atomic.simps)
  next
    case (insert i e ev m ident res s')
    note a = insert_event_atomic [OF I(4) [OF insert(2)], of eng e ident]
    then show ?thesis
      unfolding insert(1) by (intro txn_inv_pending [OF assms(2)]) (use insert in \<open>auto simp: answered_def\<close>)
  next
    case (commit i t res s')
    have only: "j = i" if "w_clients w j = Pending t' res' s''" for j t' res' s''
      using I(1) [OF that] I(1) [OF commit(2)] by simp
    have same: "run_events (e_Colony ev) (e_Run ev) s' = run_events (e_Colony ev) (e_Run ev) (w_db w)"
      if j: "appending (w_clients w j) = Some ev" "j \<noteq> i" for j ev
    proof -
      have "(e_Colony ev, e_Run ev) \<noteq> (e_Colony ev', e_Run ev')" if "t = AppendEvent e' ev'" for e' ev'
      proof
        assume "(e_Colony ev, e_Run ev) = (e_Colony ev', e_Run ev')"
        moreover have "w_runs w (lock_key hashtext ev') = Some i" using I(5) [of i ev'] commit(2) that by simp
        ultimately show False using I(5) [OF j(1)] j(2) by (simp add: lock_key_def)
      qed
      then show ?thesis
        using atomic_run_events [of t "e_Colony ev" "e_Run ev" eng "w_db w"] logical_run_events [OF I(2) [OF commit(2)]] by simp
    qed
    have waiting: "m = max_seq (run_events (e_Colony ev) (e_Run ev) s')"
      if "w_clients w j = Inserting e ev m ident" "j \<noteq> i" for j e ev m ident
      using I(4) [OF that(1)] same [of j ev] that by simp
    have "logical s' = logical (replay eng (w_log w @ [(t, res)]))"
      using I(2) [OF commit(2)] atomic_logical(2) [OF I(7)] by (simp add: replay_snoc)
    moreover have "answered eng (replay eng (w_log w)) t res"
      using I(3) [OF commit(2)] answered_logical [OF I(7)] by simp
    ultimately show ?thesis
      using I(5-8) only waiting unfolding txn_inv_def commit(1)
      by (auto simp: release_def nth_append less_Suc_eq split: if_splits)
  next
    case (abort i)
    then show ?thesis using I unfolding txn_inv_def release_def by (auto split: if_splits)
  }
qed

lemma txn_inv_reach: "(txn_step eng hashtext)\<^sup>*\<^sup>* init_world w \<Longrightarrow> txn_inv eng hashtext w"
  by (induction rule: rtranclp_induct) (auto intro: txn_inv_init txn_inv_step)

text \<open>
  C1: concurrent clients see one store: whatever Apply, ApplyStatus and Append transactions
  interleave, and whichever are given up, what is committed is what running the committed ones one after the
  other in the order of their commits leaves (but for the ids of events), and each answered
  what it answers there; only a create of an immutable resource that another one overtook
  answers with the duplicate key instead. An ApplyStatus whose row changed while it waited takes
  one version more than it would alone (\<^const>\<open>update_status\<close>).
\<close>

theorem transactions_in_commit_order:
  assumes "(txn_step eng hashtext)\<^sup>*\<^sup>* init_world w"
  shows "p_rows (w_db w) = p_rows (replay eng (w_log w)) \<and> p_counter (w_db w) = p_counter (replay eng (w_log w))
    \<and> map snd (p_events (w_db w)) = map snd (p_events (replay eng (w_log w)))
    \<and> (\<forall>n<length (w_log w). answered eng (replay eng (take n (w_log w))) (fst (w_log w ! n)) (snd (w_log w ! n)))"
  using txn_inv_reach [OF assms] unfolding txn_inv_def logical_def by blast

section \<open>Versions and numbers\<close>

lemma deleted_ignored [simp]:
  "api_version_of (r\<lparr>r_DeletedAt := d\<rparr>) = api_version_of r" "key_of (r\<lparr>r_DeletedAt := d\<rparr>) = key_of r"
  by (simp_all add: api_version_of_def key_of_def)

lemma insert_row_deleted [simp]: "insert_row eng e (r\<lparr>r_DeletedAt := d\<rparr>) st = insert_row eng e r st"
  by (simp add: insert_row_eq cong: if_cong option.case_cong)

lemma pg_Apply_deleted: "pg_Apply eng e (r\<lparr>r_DeletedAt := d\<rparr>) ifv s = pg_Apply eng e r ifv s"
  by (simp add: pg_Apply_def pg_applyImmutable_def pg_insertImmutable_def pg_applyMutable_def
      cong: option.case_cong sum.case_cong if_cong)

lemma update_status_wr:
  assumes "p_counter s + 3 \<le> max_int64"
  shows "(pg_wr eng)\<^sup>*\<^sup>* s (snd (update_status eng e r again s))"
    "p_counter (snd (update_status eng e r again s)) \<le> p_counter s + 2"
proof -
  let ?s = "s\<lparr>p_counter := p_counter s + (if again then 1 else 0)\<rparr>"
  have "(pg_wr eng)\<^sup>*\<^sup>* s ?s" using pg_wr.skipped [of s eng] assms by (cases again) auto
  moreover have "pg_wr eng ?s (snd (pg_ApplyStatus eng e r ?s))"
    using pg_wr.resource [of "OpStatus e r" ?s eng] assms by (simp add: op_step_def pg_ResourceStore_def)
  ultimately have path: "(pg_wr eng)\<^sup>*\<^sup>* s (snd (pg_ApplyStatus eng e r ?s))"
    by (rule rtranclp.rtrancl_into_rtrancl)
  have "p_counter (snd (pg_ApplyStatus eng e r ?s)) \<le> p_counter ?s + 1"
    by (cases "pg_ApplyStatus eng e r ?s") (auto elim: pg_ApplyStatus_cases)
  with path show "(pg_wr eng)\<^sup>*\<^sup>* s (snd (update_status eng e r again s))"
    "p_counter (snd (update_status eng e r again s)) \<le> p_counter s + 2"
    by (auto simp: update_status_def split: prod.splits sum.splits)
qed

lemma atomic_wr:
  assumes "pg_all_inv eng s" "p_counter s + 3 \<le> max_int64"
  shows "(pg_wr eng)\<^sup>*\<^sup>* s (snd (atomic eng x s))" "p_counter (snd (atomic eng x s)) \<le> p_counter s + 2"
proof -
  have i: "pg_inv eng s" "pg_ev_inv s" using assms(1) by (auto simp: pg_all_inv_def)
  have r: "p_counter s + 2 \<le> max_int64" using assms(2) by simp
  have ap: "pg_wr eng s (snd (pg_Apply eng e r ifv s)) \<and> p_counter (snd (pg_Apply eng e r ifv s)) \<le> p_counter s + 2" for e r ifv
    using pg_wr.resource [of "OpApply e (r\<lparr>r_DeletedAt := None\<rparr>) ifv", OF _ r]
      pg.op_step_inv [OF i(1), of "OpApply e (r\<lparr>r_DeletedAt := None\<rparr>) ifv", OF _ r]
    by (simp add: op_step_def pg_ResourceStore_def pg_Apply_deleted)
  have ev: "p_counter (snd (pg_Append eng e ev s)) \<le> p_counter s + 2" for e ev
    using pg_Append_cases [OF i(2), of eng e ev "fst (pg_Append eng e ev s)" "snd (pg_Append eng e ev s)"] by fastforce
  show "(pg_wr eng)\<^sup>*\<^sup>* s (snd (atomic eng x s))" "p_counter (snd (atomic eng x s)) \<le> p_counter s + 2"
    using ap ev pg_wr.event update_status_wr [OF assms(2)] by (cases x; simp add: r_into_rtranclp)+
qed

lemma pg_wr_path:
  assumes "(pg_wr eng)\<^sup>*\<^sup>* s s'" "pg_all_inv eng s"
  shows "pg_all_inv eng s' \<and> p_counter s \<le> p_counter s'
    \<and> (\<forall>k r. pg_live s' k = Some r \<and> r_ResourceVersion r \<le> p_counter s \<longrightarrow>
        (\<exists>ex. pg_live s k = Some ex \<and> r_ResourceVersion ex = r_ResourceVersion r))"
  using assms
proof (induction rule: rtranclp_induct)
  case base
  then show ?case by auto
next
  case (step y z)
  then have y: "pg_all_inv eng y" "p_counter s \<le> p_counter y"
    "\<And>k r. pg_live y k = Some r \<Longrightarrow> r_ResourceVersion r \<le> p_counter s \<Longrightarrow>
      \<exists>ex. pg_live s k = Some ex \<and> r_ResourceVersion ex = r_ResourceVersion r" by blast+
  note z = pg_wr_effect [OF y(1) step.hyps(2)]
  have "\<exists>ex. pg_live s k = Some ex \<and> r_ResourceVersion ex = r_ResourceVersion r"
    if r: "pg_live z k = Some r" "r_ResourceVersion r \<le> p_counter s" for k r
  proof -
    obtain ex where "pg_live y k = Some ex" "r_ResourceVersion ex = r_ResourceVersion r"
      using z(4) [OF r(1)] r(2) y(2) by auto
    with y(3) [of k ex] r(2) show ?thesis by auto
  qed
  with z(1,2) y(2) show ?case by auto
qed

lemma replay_path:
  assumes "3 * int (length (log @ new)) \<le> max_int64"
  shows "pg_all_inv eng (replay eng log)" "(pg_wr eng)\<^sup>*\<^sup>* (replay eng log) (replay eng (log @ new))"
proof -
  have ok: "pg_all_inv eng (replay eng l) \<and> p_counter (replay eng l) \<le> 3 * int (length l)"
    if "3 * int (length l) \<le> max_int64" for l
    using that
  proof (induction l rule: rev_induct)
    case Nil
    then show ?case by (simp add: replay_def pg_all_inv_init) (simp add: init_postgres_def)
  next
    case (snoc x l)
    then have l: "pg_all_inv eng (replay eng l)" "p_counter (replay eng l) + 3 \<le> max_int64"
      "p_counter (replay eng l) \<le> 3 * int (length l)" by auto
    note x = atomic_wr [OF l(1,2), of "fst x"]
    from x(2) pg_wr_path [OF x(1) l(1)] l(3) show ?case by (cases x) (simp add: replay_snoc)
  qed
  then show "pg_all_inv eng (replay eng log)" using assms by simp
  show "(pg_wr eng)\<^sup>*\<^sup>* (replay eng log) (replay eng (log @ new))"
    using assms
  proof (induction new rule: rev_induct)
    case (snoc x new)
    then have "pg_all_inv eng (replay eng (log @ new))" "p_counter (replay eng (log @ new)) + 3 \<le> max_int64"
      using ok [of "log @ new"] by auto
    from atomic_wr(1) [OF this, of "fst x"]
    have "(pg_wr eng)\<^sup>*\<^sup>* (replay eng (log @ new)) (replay eng ((log @ new) @ [x]))"
      by (cases x) (simp only: replay_snoc fst_conv)
    with snoc show ?case by simp
  qed simp
qed

lemma log_grows: "(txn_step eng hashtext)\<^sup>*\<^sup>* w w' \<Longrightarrow> \<exists>new. w_log w' = w_log w @ new"
proof (induction rule: rtranclp_induct)
  case (step y z)
  have "\<exists>new. w_log z = w_log y @ new" using step.hyps(2) by (cases rule: txn_step.cases) auto
  with step.IH show ?case by auto
qed simp

lemma pg_wr_path_events:
  assumes "(pg_wr eng)\<^sup>*\<^sup>* s s'" "pg_all_inv eng s"
  shows "\<exists>new. p_events s' = p_events s @ new \<and> (\<forall>p\<in>set new. p_counter s < e_ResourceVersion (snd p))"
  using assms
proof (induction rule: rtranclp_induct)
  case (step y z)
  then obtain new where new: "p_events y = p_events s @ new" "\<forall>p\<in>set new. p_counter s < e_ResourceVersion (snd p)" by blast
  have y: "pg_all_inv eng y" "p_counter s \<le> p_counter y" using pg_wr_path [OF step.hyps(1) step.prems] by auto
  with pg_wr_effect(3) [OF y(1) step.hyps(2)] new show ?case by fastforce
qed simp

text \<open>
  C3: versions commit in order, so a cursor misses nothing: when a reader has seen the counter
  at some value, nothing with a version up to it becomes visible later, neither a resource
  nor an event, however transactions interleave and however long one takes to commit.
\<close>

theorem no_late_commit:
  assumes "(txn_step eng hashtext)\<^sup>*\<^sup>* init_world w" "(txn_step eng hashtext)\<^sup>*\<^sup>* w w'"
    and "3 * int (length (w_log w')) \<le> max_int64"
  shows "p_counter (w_db w) \<le> p_counter (w_db w')
    \<and> (\<forall>k r. map_of (p_rows (w_db w')) k = Some r \<and> r_ResourceVersion r \<le> p_counter (w_db w) \<longrightarrow>
        (\<exists>ex. map_of (p_rows (w_db w)) k = Some ex \<and> r_ResourceVersion ex = r_ResourceVersion r))
    \<and> (\<forall>ev. ev \<in> snd ` set (p_events (w_db w')) \<and> e_ResourceVersion ev \<le> p_counter (w_db w) \<longrightarrow>
        ev \<in> snd ` set (p_events (w_db w)))"
proof -
  obtain new where log: "w_log w' = w_log w @ new" using log_grows [OF assms(2)] by blast
  let ?s = "replay eng (w_log w)" and ?s' = "replay eng (w_log w')"
  have path: "pg_all_inv eng ?s" "(pg_wr eng)\<^sup>*\<^sup>* ?s ?s'"
    using replay_path [of "w_log w" new eng] assms(3) unfolding log by auto
  have w: "logical (w_db w) = logical ?s" by (rule txn_invD(7) [OF txn_inv_reach [OF assms(1)]])
  have w': "logical (w_db w') = logical ?s'"
    by (rule txn_invD(7) [OF txn_inv_reach [OF rtranclp_trans [OF assms(1,2)]]])
  have ev: "snd ` set (p_events (w_db w)) = snd ` set (p_events ?s)" "snd ` set (p_events (w_db w')) = snd ` set (p_events ?s')"
    using w w' unfolding logical_def by (metis list.set_map prod.inject)+
  show ?thesis
    using pg_wr_path [OF path(2,1)] pg_wr_path_events [OF path(2,1)] w w' unfolding ev
    by (fastforce simp: logical_def pg_live_def)
qed

text \<open>
  C16: concurrent appends lose nothing: the committed events of every Run are numbered from one
  without gaps, the event of every Append that succeeded is among them as it was answered,
  and no Append ever fails on the unique number of another.
\<close>

theorem concurrent_events_numbered:
  assumes "(txn_step eng hashtext)\<^sup>*\<^sup>* init_world w" "3 * int (length (w_log w)) \<le> max_int64"
  shows "map e_Seq (run_events c r (w_db w)) = [1..int (length (run_events c r (w_db w)))]
    \<and> (\<forall>e ev res. (AppendEvent e ev, res) \<in> set (w_log w) \<longrightarrow> res \<noteq> Inl duplicate_key
        \<and> (\<forall>out. res = Inr (Recorded out) \<longrightarrow> out \<in> set (run_events (e_Colony ev) (e_Run ev) (w_db w))))"
proof -
  note I = txn_invD [OF txn_inv_reach [OF assms(1)]]
  have runs: "run_events c r (w_db w) = run_events c r (replay eng (w_log w))" for c r
    by (rule logical_run_events [OF I(7)])
  have "pg_ev_inv (replay eng (w_log w))"
    using replay_path(1) [of "w_log w" "[]" eng] assms(2) by (simp add: pg_all_inv_def)
  then have "map e_Seq (run_events c r (w_db w)) = [1..int (length (run_events c r (w_db w)))]"
    unfolding runs pg_ev_inv_def by blast
  moreover have "res \<noteq> Inl duplicate_key
      \<and> (\<forall>out. res = Inr (Recorded out) \<longrightarrow> out \<in> set (run_events (e_Colony ev) (e_Run ev) (w_db w)))"
    if log: "(AppendEvent e ev, res) \<in> set (w_log w)" for e ev res
  proof -
    obtain l1 l2 where l: "w_log w = (l1 @ [(AppendEvent e ev, res)]) @ l2" using split_list [OF log] by auto
    let ?s = "replay eng l1"
    have res: "res = map_sum id Recorded (fst (pg_Append eng e ev ?s))"
      using I(8) [of "length l1"] l by (simp add: answered_def)
    have inv: "pg_ev_inv ?s" using replay_path(1) [of l1 "(AppendEvent e ev, res) # l2" eng] assms(2) l by (simp add: pg_all_inv_def)
    have path: "pg_all_inv eng (snd (pg_Append eng e ev ?s))"
      "(pg_wr eng)\<^sup>*\<^sup>* (snd (pg_Append eng e ev ?s)) (replay eng (w_log w))"
      using replay_path [of "l1 @ [(AppendEvent e ev, res)]" l2 eng] assms(2) l by (simp_all add: replay_snoc)
    have "res \<noteq> Inl duplicate_key"
      unfolding res by (auto simp: pg_Append_def duplicate_key_def engine_err_def Let_def split: option.splits if_splits)
    moreover have "out \<in> set (run_events (e_Colony ev) (e_Run ev) (w_db w))" if "res = Inr (Recorded out)" for out
    proof -
      have a: "pg_Append eng e ev ?s = (Inr out, snd (pg_Append eng e ev ?s))"
        using that res by (cases "pg_Append eng e ev ?s"; cases "fst (pg_Append eng e ev ?s)") auto
      from inv a have "(p_event_id ?s + 1, out) \<in> set (p_events (snd (pg_Append eng e ev ?s)))"
        "e_Colony out = e_Colony ev" "e_Run out = e_Run ev" by (auto elim: pg_Append_cases)
      moreover obtain new where "p_events (replay eng (w_log w)) = p_events (snd (pg_Append eng e ev ?s)) @ new"
        using pg_wr_path_events [OF path(2,1)] by blast
      ultimately show ?thesis unfolding runs by (force simp: run_events_def)
    qed
    ultimately show ?thesis by blast
  qed
  ultimately show ?thesis by blast
qed

section \<open>Two clients\<close>

text \<open>
  Client 0 begins an Append and its snapshot; client 1 applies an Agent and commits; then
  client 0 inserts and commits.
\<close>

definition appended_event :: event where
  "appended_event = event_a\<lparr>e_ResourceVersion := 2, e_Seq := 1, e_TS := 7\<rparr>"

definition applied_agent :: resource where
  "applied_agent = agent_a\<lparr>r_APIVersion := DefaultAPIVersion, r_UID := ''u1'', r_Generation := 1, r_ResourceVersion := 1,
     r_Status := Some ''{}'', r_CreatedAt := 7, r_UpdatedAt := 7\<rparr>"

definition db_1 :: Postgres where
  "db_1 = \<lparr>p_rows = [((''Agent'', ''c'', ''a''), applied_agent)], p_counter = 1, p_events = [], p_event_id = 1\<rparr>"

definition db_2 :: Postgres where
  "db_2 = db_1\<lparr>p_counter := 2, p_events := [(1, appended_event)]\<rparr>"

definition log_2 :: "(txn \<times> (go_error + answer)) list" where
  "log_2 = [(Upsert env_a agent_a None, Inr (Stored applied_agent)), (AppendEvent env_a event_a, Inr (Recorded appended_event))]"

definition world_2 :: world where
  "world_2 = init_world\<lparr>w_db := db_2, w_log := log_2\<rparr>"

lemma sample_upsert:
  "pg_applyMutable plain_engine env_a agent_a None (init_postgres\<lparr>p_event_id := 1\<rparr>) = (Inr applied_agent, db_1)"
  by (simp add: pg_applyMutable_def db_1_def applied_agent_def sample_defs init_postgres_def insert_row_eq jsonbBytes_def
      blen_def bytes_of_def api_version_of_def pageTokenSep_def hived_next_resource_version_def
      DefaultAPIVersion_def key_of_def Let_def)

lemma sample_insert_event:
  "insert_event plain_engine env_a event_a 0 1 db_1 = (Inr appended_event, db_2)"
  by (simp add: insert_event_def db_2_def db_1_def appended_event_def sample_defs jsonbBytes_def blen_def bytes_of_def
      pageTokenSep_def hived_next_resource_version_def run_events_def nullableTime_def Let_def)

lemma sample_steps: "(txn_step plain_engine (\<lambda>_. 0))\<^sup>*\<^sup>* init_world world_2"
proof -
  let ?k = "lock_key (\<lambda>_. 0) event_a" and ?R = "txn_step plain_engine (\<lambda>_. 0)"
  let ?w1 = "init_world\<lparr>w_runs := (w_runs init_world)(?k := Some 0),
    w_clients := (w_clients init_world)(0 := Locked env_a event_a)\<rparr>"
  let ?w2 = "?w1\<lparr>w_db := (w_db ?w1)\<lparr>p_event_id := 1\<rparr>, w_clients := (w_clients ?w1)(0 := Inserting env_a event_a 0 1)\<rparr>"
  let ?w3 = "?w2\<lparr>w_counter := Some 1,
    w_clients := (w_clients ?w2)(1 := Pending (Upsert env_a agent_a None) (map_sum id Stored (Inr applied_agent)) db_1)\<rparr>"
  let ?w4 = "?w3\<lparr>w_db := db_1\<lparr>p_event_id := p_event_id (w_db ?w3)\<rparr>, w_counter := None, w_runs := release 1 (w_runs ?w3),
    w_clients := (w_clients ?w3)(1 := Idle),
    w_log := w_log ?w3 @ [(Upsert env_a agent_a None, map_sum id Stored (Inr applied_agent))]\<rparr>"
  let ?w5 = "?w4\<lparr>w_counter := Some 0,
    w_clients := (w_clients ?w4)(0 := Pending (AppendEvent env_a event_a) (map_sum id Recorded (Inr appended_event)) db_2)\<rparr>"
  let ?w6 = "?w5\<lparr>w_db := db_2\<lparr>p_event_id := p_event_id (w_db ?w5)\<rparr>, w_counter := None, w_runs := release 0 (w_runs ?w5),
    w_clients := (w_clients ?w5)(0 := Idle),
    w_log := w_log ?w5 @ [(AppendEvent env_a event_a, map_sum id Recorded (Inr appended_event))]\<rparr>"
  have s1: "?R init_world ?w1" by (rule txn_step.lock) (simp_all add: init_world_def)
  have s2: "?R ?w1 ?w2"
    using txn_step.snapshot [of ?w1 0 env_a event_a 1]
    by (simp add: init_world_def init_postgres_def run_events_def max_seq_def)
  have s3: "?R ?w2 ?w3"
    by (rule txn_step.upsert) (use sample_upsert in \<open>simp_all add: init_world_def sample_defs IsImmutableKind_def ImmutableKinds_def\<close>)
  have s4: "?R ?w3 ?w4" by (rule txn_step.commit) simp
  have s5: "?R ?w4 ?w5"
    by (rule txn_step.insert [of _ _ _ _ 0 1]) (use sample_insert_event in \<open>simp_all add: init_world_def db_1_def\<close>)
  have s6: "?R ?w5 ?w6" by (rule txn_step.commit) simp
  have last: "?w6 = world_2"
    by (auto simp: world_2_def init_world_def log_2_def db_2_def db_1_def release_def fun_eq_iff)
  note R = rtranclp.rtrancl_into_rtrancl [where r = ?R]
  show ?thesis
    unfolding last [symmetric]
    by (rule R [OF R [OF R [OF R [OF R [OF R [OF rtranclp.rtrancl_refl [where r = ?R] s1] s2] s3] s4] s5] s6])
qed

theorem transactions_in_commit_order_witness:
  "\<exists>w. (txn_step plain_engine (\<lambda>_. 0))\<^sup>*\<^sup>* init_world w \<and> length (w_log w) = 2 \<and> p_counter (w_db w) = 2
    \<and> p_rows (w_db w) = p_rows (replay plain_engine (w_log w))"
  using transactions_in_commit_order [OF sample_steps] sample_steps
  by (intro exI [of _ world_2]) (simp add: world_2_def log_2_def db_2_def)

theorem no_late_commit_witness:
  "\<exists>w. (txn_step plain_engine (\<lambda>_. 0))\<^sup>*\<^sup>* init_world w \<and> p_counter (w_db init_world) < p_counter (w_db w)
    \<and> (\<exists>r. map_of (p_rows (w_db w)) (''Agent'', ''c'', ''a'') = Some r \<and> p_counter (w_db init_world) < r_ResourceVersion r)"
proof -
  have room: "3 * int (length (w_log world_2)) \<le> max_int64" by (simp add: world_2_def log_2_def)
  have "map_of (p_rows (w_db world_2)) (''Agent'', ''c'', ''a'') = Some applied_agent"
    "p_counter (w_db world_2) = 2" "p_counter (w_db init_world) = 0" "map_of (p_rows (w_db init_world)) k = None" for k
    by (simp_all add: world_2_def db_2_def db_1_def init_world_def init_postgres_def)
  with no_late_commit [OF rtranclp.rtrancl_refl sample_steps room] sample_steps show ?thesis
    by (intro exI [of _ world_2]) force
qed

theorem concurrent_events_numbered_witness:
  "\<exists>w. (txn_step plain_engine (\<lambda>_. 0))\<^sup>*\<^sup>* init_world w \<and> map e_Seq (run_events ''c'' ''r'' (w_db w)) = [1]
    \<and> appended_event \<in> set (run_events ''c'' ''r'' (w_db w))"
proof -
  have room: "3 * int (length (w_log world_2)) \<le> max_int64" by (simp add: world_2_def log_2_def)
  have "(AppendEvent env_a event_a, Inr (Recorded appended_event)) \<in> set (w_log world_2)"
    "e_Colony event_a = ''c''" "e_Run event_a = ''r''" "length (run_events ''c'' ''r'' (w_db world_2)) = 1"
    by (simp_all add: world_2_def log_2_def event_a_def db_2_def run_events_def appended_event_def)
  with concurrent_events_numbered [OF sample_steps room, of "''c''" "''r''"] sample_steps show ?thesis
    by (intro exI [of _ world_2]) force
qed

section \<open>A create that is overtaken\<close>

text \<open>
  Two clients apply the same new AgentVersion: both find nothing, one creates it, and the other
  one's \<open>INSERT\<close> then fails on the key, although applying the same document again succeeds.
\<close>

lemma overtaken_create:
  "\<exists>s row. pg_insertImmutable plain_engine env_a version_a s = (Inl duplicate_key, s)
    \<and> fst (pg_Apply plain_engine env_a version_a None s) = Inr row"
proof -
  let ?s = "snd (pg_insertImmutable plain_engine env_b version_a init_postgres)"
  have doc: "jsonEqual (Some ''{}'') (Some ''{}'')" by code_simp
  have "pg_insertImmutable plain_engine env_a version_a ?s = (Inl duplicate_key, ?s)"
    "\<exists>row. fst (pg_Apply plain_engine env_a version_a None ?s) = Inr row"
    by (simp_all add: pg_insertImmutable_def pg_Apply_def pg_applyImmutable_def pg_Get_def duplicate_key_def sample_defs
        init_postgres_def insert_row_eq jsonbBytes_def blen_def bytes_of_def api_version_of_def pageTokenSep_def
        hived_next_resource_version_def DefaultAPIVersion_def key_of_def IsImmutableKind_def ImmutableKinds_def
        doc Let_def del: jsonEqual_refl_iff)
  then show ?thesis by blast
qed

end
