(* ===== verification/WatchProps.thy ===== *)
theory WatchProps
  imports Samples
begin

text \<open>
  The properties of the event logs and of the four watch goroutines, from the empty store
  and against any interleaving of writes.
\<close>

section \<open>The event log\<close>

definition pg_events_after :: "pg_engine \<Rightarrow> (env \<times> event) list \<Rightarrow> Postgres" where
  "pg_events_after eng evs = append_run (pg_EventStore eng) evs init_postgres"

definition mem_events_after :: "(env \<times> event) list \<Rightarrow> MemoryStore" where
  "mem_events_after evs = append_run mem_EventStore evs NewMemoryStore"

lemma append_run_append: "append_run E (evs @ evs') s = append_run E evs' (append_run E evs s)"
  by (induction E evs s rule: append_run.induct) auto

lemma pg_append_run_counter:
  "pg_ev_inv s \<Longrightarrow> p_counter (append_run (pg_EventStore eng) evs s) \<le> p_counter s + int (length evs)
    \<and> pg_ev_inv (append_run (pg_EventStore eng) evs s)"
proof (induction evs arbitrary: s)
  case Nil
  then show ?case by simp
next
  case (Cons p evs)
  obtain e ev where p: "p = (e, ev)" by (cases p)
  obtain res s' where a: "pg_Append eng e ev s = (res, s')" by fastforce
  have "p_counter s' \<le> p_counter s + 1" using Cons.prems a by (cases rule: pg_Append_cases) auto
  with Cons.IH [OF pg_Append_inv [OF Cons.prems a]] p a show ?case by (simp add: pg_EventStore_def)
qed

text \<open>
  C23: the PostgreSQL event log only grows: whatever is appended, by whatever Runs and with
  whatever failures in between, the events of a Run stay in place, and they are numbered
  from one without gaps.
\<close>

theorem postgres_event_log_grows:
  assumes "int (length (evs @ evs')) \<le> max_int64"
  shows "(\<exists>more. run_events c r (pg_events_after eng (evs @ evs')) = run_events c r (pg_events_after eng evs) @ more)
    \<and> map e_Seq (run_events c r (pg_events_after eng evs)) = [1..int (length (run_events c r (pg_events_after eng evs)))]"
proof -
  let ?s = "pg_events_after eng evs"
  have s: "pg_ev_inv ?s" "p_counter ?s \<le> int (length evs)"
    using pg_append_run_counter [OF pg_ev_inv_init, of eng evs] by (simp_all add: pg_events_after_def init_postgres_def)
  have "p_counter ?s + int (length evs') \<le> max_int64" using s(2) assms by simp
  from pg_events.append_run_grows [OF s(1) _ this] pg_events.numbered [OF s(1)] show ?thesis
    by (simp add: pg_events_after_def append_run_append)
qed

theorem postgres_event_log_grows_witness:
  "\<exists>more. run_events ''c'' ''r'' (pg_events_after plain_engine ([(env_a, event_a)] @ [(env_b, event_a)]))
     = run_events ''c'' ''r'' (pg_events_after plain_engine [(env_a, event_a)]) @ more"
  using postgres_event_log_grows [of "[(env_a, event_a)]" "[(env_b, event_a)]" "''c''" "''r''" plain_engine] by simp

text \<open>
  C24: a reader that pages through a Run with \<open>since\<close> set to the last sequence number it has,
  with any limit, gets exactly the Run's events, in order and once each.
\<close>

theorem postgres_events_read_all:
  assumes "pe_text_ok eng c" "pe_text_ok eng r"
    and "length (run_events c r (pg_events_after eng evs)) < n"
  shows "follow_events (\<lambda>since. pg_ListEvents eng c r since limit (pg_events_after eng evs)) n 0
    = Some (run_events c r (pg_events_after eng evs))"
proof -
  have "pg_ev_inv (pg_events_after eng evs)"
    using pg_append_run_counter [OF pg_ev_inv_init] by (simp add: pg_events_after_def)
  from pg_events.follow_all_events [OF this, where eng = eng] assms show ?thesis
    by (simp add: pg_EventStore_def)
qed

lemma pg_one_event: "length (run_events ''c'' ''r'' (pg_events_after plain_engine [(env_a, event_a)])) = 1"
  by (simp add: pg_events_after_def pg_EventStore_def pg_Append_def sample_defs pageTokenSep_def jsonbBytes_def
      blen_def bytes_of_def init_postgres_def hived_next_resource_version_def run_events_def max_seq_def
      nullableTime_def Let_def)

theorem postgres_events_read_all_witness:
  "follow_events (\<lambda>since. pg_ListEvents plain_engine ''c'' ''r'' since 1 (pg_events_after plain_engine [(env_a, event_a)])) 2 0
    = Some (run_events ''c'' ''r'' (pg_events_after plain_engine [(env_a, event_a)]))"
  by (rule postgres_events_read_all) (simp_all add: pg_one_event, simp_all add: plain_engine_def pageTokenSep_def)

text \<open>
  C25: the in-memory event log, when no colony holds a slash: it only grows, its Runs are
  numbered from one without gaps, and following \<open>ListEvents\<close> reads a Run completely.
\<close>

theorem memory_event_log:
  assumes "\<forall>p\<in>set (evs @ evs'). slash_free (snd p)" "int (length (evs @ evs')) \<le> max_int64"
    and "length (mem_run_events (mem_events_after evs) c r) < n"
  shows "(\<exists>more. mem_run_events (mem_events_after (evs @ evs')) c r = mem_run_events (mem_events_after evs) c r @ more)
    \<and> map e_Seq (mem_run_events (mem_events_after evs) c r) = [1..int (length (mem_run_events (mem_events_after evs) c r))]
    \<and> follow_events (\<lambda>since. mem_ListEvents c r since limit (mem_events_after evs)) n 0
      = Some (mem_run_events (mem_events_after evs) c r)"
proof -
  have grow: "mem_ev_inv m \<Longrightarrow> \<forall>p\<in>set es. slash_free (snd p) \<Longrightarrow> m_seq m + int (length es) \<le> max_int64 \<Longrightarrow>
      mem_ev_inv (append_run mem_EventStore es m) \<and> m_seq (append_run mem_EventStore es m) = m_seq m + int (length es)"
    for m es
  proof (induction es arbitrary: m)
    case Nil
    then show ?case by simp
  next
    case (Cons p es)
    obtain e ev where p: "p = (e, ev)" by (cases p)
    obtain res m' where a: "mem_Append e ev m = (res, m')" by fastforce
    have lt: "m_seq m < max_int64" using Cons.prems(3) by simp
    from mem_Append_result [OF Cons.prems(1) lt a] have "m_seq m' = m_seq m + 1" by metis
    moreover have "mem_ev_inv m'" using mem_Append_inv [OF Cons.prems(1) lt _ a] Cons.prems(2) p by simp
    ultimately show ?case using Cons.IH [of m'] Cons.prems(2,3) p a by (simp add: mem_EventStore_def)
  qed
  let ?m = "mem_events_after evs"
  have m: "mem_ev_inv ?m" "m_seq ?m = int (length evs)"
    using grow [OF mem_ev_inv_init, of evs] assms(1,2) by (simp_all add: mem_events_after_def NewMemoryStore_def)
  have "\<forall>p\<in>set evs'. slash_free (snd p)" "m_seq ?m + int (length evs') \<le> max_int64"
    using assms(1,2) m(2) by auto
  from mem_events.append_run_grows [OF m(1) this, of c r] mem_events.numbered [OF m(1), of c r]
    mem_events.follow_all_events [OF m(1) TrueI assms(3), of limit] show ?thesis
    by (simp add: mem_events_after_def append_run_append) (simp add: mem_EventStore_def)
qed

lemma mem_one_event: "length (mem_run_events (mem_events_after [(env_a, event_a)]) ''c'' ''r'') = 1"
  by (simp add: mem_events_after_def mem_EventStore_def mem_Append_def sample_defs NewMemoryStore_def
      mem_nextSeq_def mem_run_events_def Let_def)

theorem memory_event_log_witness:
  "follow_events (\<lambda>since. mem_ListEvents ''c'' ''r'' since 1 (mem_events_after [(env_a, event_a)])) 2 0
    = Some (mem_run_events (mem_events_after [(env_a, event_a)]) ''c'' ''r'')"
  using memory_event_log [of "[(env_a, event_a)]" "[]" "''c''" "''r''" 2 1] mem_one_event
  by (simp add: slash_free_def event_a_def)

text \<open>
  Without that condition the in-memory numbering breaks: its counter key
  \<open>colony + "/" + run\<close> is the same for Run \<open>c\<close> of colony \<open>a/b\<close> and Run \<open>b/c\<close> of colony \<open>a\<close>,
  and the first event of the second Run gets sequence number 2.
\<close>

theorem memory_event_key_collision:
  "map e_Seq (mem_run_events (mem_events_after
      [(env_a, event_a\<lparr>e_Colony := ''a/b'', e_Run := ''c''\<rparr>), (env_b, event_a\<lparr>e_Colony := ''a'', e_Run := ''b/c''\<rparr>)])
      ''a'' ''b/c'') = [2]"
  by (simp add: mem_events_after_def mem_EventStore_def mem_Append_def sample_defs NewMemoryStore_def
      mem_nextSeq_def mem_run_events_def event_key_def Let_def)

section \<open>Watches\<close>

lemma pg_watch_delivers:
  assumes "(watch_step (pg_wr eng) (pg_Watch eng kind opts))\<^sup>*\<^sup>* (init_postgres, watch_start since) (s, w)"
    and "w_pending w = []" "\<not> w_done w" "p_counter s - w_cursor w \<le> int n"
    and "pg_Get eng kind c name s = Inr r" "lo_Colony opts = '''' \<or> c = lo_Colony opts"
    and "pe_text_ok eng (lo_Colony opts)" "since < r_ResourceVersion r"
  shows "\<exists>e\<in>set (w_sent (watch_rounds (pg_Watch eng kind opts) s n w)).
    we_Type e \<noteq> WatchBookmark \<and> we_ResourceVersion e = r_ResourceVersion r
    \<and> key_of (we_Object e) = (kind, c, name)"
proof -
  have i: "pg_inv eng s"
    using pg_watch.watch_okD(1) [OF pg_watch.watch_ok_reach [OF assms(1) pg_watch.watch_ok_start [OF pg_all_inv_init]]]
    by (simp add: pg_all_inv_def)
  have "pg_live s (kind, c, name) = Some r" using assms(5) pg_Get_live [OF i] by simp
  then have cur: "((kind, c, name), r_ResourceVersion r) \<in> pg_current kind (lo_Colony opts) s"
    using assms(6) by (auto simp: pg_current_def in_scope_def)
  have "pe_text_ok eng kind" using assms(5) by (auto simp: pg_Get_def split: if_splits)
  with cur assms(7) have "((kind, c, name), r_ResourceVersion r)
    \<in> (if pe_text_ok eng kind \<and> pe_text_ok eng (lo_Colony opts) then pg_current kind (lo_Colony opts) s else {})"
    by simp
  from pg_watch.watch_catches_up [OF pg_all_inv_init assms(1-4) this assms(8)]
  show ?thesis
    by (fastforce simp: delivered_def event_view_def List.map_filter_def split: if_splits)
qed

text \<open>
  C8: a PostgreSQL watch misses nothing: in any interleaving of the watch with other
  clients' writes and events, once the watch is idle, as many undisturbed polls as versions
  are left deliver every readable resource in its scope at its current version.
\<close>

theorem postgres_watch_catches_up:
  assumes "(watch_step (pg_wr eng) (pg_Watch eng kind opts))\<^sup>*\<^sup>* (init_postgres, watch_start since) (s, w)"
    and "w_pending w = []" "\<not> w_done w" "p_counter s - w_cursor w \<le> int n"
    and "pg_Get eng kind c name s = Inr r" "lo_Colony opts = '''' \<or> c = lo_Colony opts"
    and "pe_text_ok eng (lo_Colony opts)" "since < r_ResourceVersion r"
  shows "\<exists>e\<in>set (w_sent (watch_rounds (pg_Watch eng kind opts) s n w)).
    we_Type e \<noteq> WatchBookmark \<and> we_ResourceVersion e = r_ResourceVersion r
    \<and> key_of (we_Object e) = (kind, c, name)"
  by (rule pg_watch_delivers [OF assms])

theorem postgres_watch_catches_up_witness:
  "\<exists>e\<in>set (w_sent (watch_rounds (pg_Watch plain_engine ''Agent'' empty_list_options)
      (pg_after plain_engine writes_1) 1 (watch_start 0))).
    we_Type e \<noteq> WatchBookmark \<and> we_ResourceVersion e = 1 \<and> key_of (we_Object e) = (''Agent'', ''c'', ''a'')"
proof -
  have "pg_wr plain_engine init_postgres (pg_after plain_engine writes_1)"
    using pg_wr.resource [of "OpApply env_a agent_a None" init_postgres plain_engine]
    by (simp add: pg_after_def writes_1_def init_postgres_def sample_defs)
  then have st: "(watch_step (pg_wr plain_engine) (pg_Watch plain_engine ''Agent'' empty_list_options))\<^sup>*\<^sup>*
      (init_postgres, watch_start 0) (pg_after plain_engine writes_1, watch_start 0)"
    by (intro r_into_rtranclp watch_step.wrote)
  have g: "pg_Get plain_engine ''Agent'' ''c'' ''a'' (pg_after plain_engine writes_1) = Inr (agent_a
   \<lparr>r_APIVersion := DefaultAPIVersion, r_UID := ''u1'', r_Generation := 1, r_ResourceVersion := 1,
    r_Status := Some ''{}'', r_CreatedAt := 7, r_UpdatedAt := 7\<rparr>)"
    unfolding pg_writes_1 pg_Get_def by (simp add: sample_defs pageTokenSep_def)
  show ?thesis
    using postgres_watch_catches_up [OF st _ _ _ g, of 1]
    by (simp add: pg_writes_1 empty_list_options_def) (simp add: plain_engine_def)
qed

text \<open>
  What a PostgreSQL watch sends is in strictly increasing order of version (so no
  version twice), past \<open>since\<close> and up to its cursor, and of the watched kind and colony.
\<close>

theorem postgres_watch_ordered:
  assumes "(watch_step (pg_wr eng) (pg_Watch eng kind opts))\<^sup>*\<^sup>* (init_postgres, watch_start since) (s, w)"
  shows "sorted_wrt (<) (map fst (delivered event_view (w_sent w)))
    \<and> (\<forall>p\<in>set (delivered event_view (w_sent w)). since < fst p \<and> fst p \<le> w_cursor w
        \<and> in_scope kind (lo_Colony opts) (snd p))"
  using pg_watch.watch_complete(1,2) [OF pg_all_inv_init assms] by fastforce

theorem postgres_watch_ordered_witness:
  "sorted_wrt (<) (map fst (delivered event_view (w_sent
      (watch_round (pg_Watch plain_engine ''Agent'' empty_list_options) init_postgres (watch_start 0)))))"
proof -
  have "(watch_step (pg_wr plain_engine) (pg_Watch plain_engine ''Agent'' empty_list_options))\<^sup>*\<^sup>*
      (init_postgres, watch_start 0)
      (init_postgres, watch_round (pg_Watch plain_engine ''Agent'' empty_list_options) init_postgres (watch_start 0))"
    by (rule watch_round_steps(1)) simp_all
  from postgres_watch_ordered [OF this] show ?thesis by blast
qed

text \<open>
  C9: the in-memory watch is exact: in every interleaving, the versions it has sent are
  precisely those its kind and colony were ever given between \<open>since\<close> and its cursor, in
  order and once each.
\<close>

theorem memory_watch_exact:
  assumes "(watch_step mem_wr (mem_Watch kind opts))\<^sup>*\<^sup>* (NewMemoryStore, watch_start since) (m, w)"
  shows "map fst (delivered event_view (w_sent w)) =
    filter (\<lambda>v. since < v \<and> v \<le> w_cursor w) (mem_versions kind (lo_Colony opts) m)"
  by (rule mem_watch.watch_exact [OF mem_all_inv_init assms])

lemma mem_wr_writes_1: "mem_wr NewMemoryStore (mem_after writes_1)"
  using mem_wr.resource [of "OpApply env_a agent_a None" NewMemoryStore]
  by (simp add: mem_after_def writes_1_def NewMemoryStore_def sample_defs)

lemma mem_watch_sample:
  "(watch_step mem_wr (mem_Watch ''Agent'' empty_list_options))\<^sup>*\<^sup>* (NewMemoryStore, watch_start 0)
     (mem_after writes_1, watch_round (mem_Watch ''Agent'' empty_list_options) (mem_after writes_1) (watch_start 0))"
  by (rule converse_rtranclp_into_rtranclp [OF watch_step.wrote [where wr = mem_wr, OF mem_wr_writes_1]
      watch_round_steps(1)]) simp_all

theorem memory_watch_exact_witness:
  "map fst (delivered event_view (w_sent
      (watch_round (mem_Watch ''Agent'' empty_list_options) (mem_after writes_1) (watch_start 0)))) = [1]"
proof -
  let ?w = "watch_round (mem_Watch ''Agent'' empty_list_options) (mem_after writes_1) (watch_start 0)"
  have "w_cursor ?w = 1"
    by (simp add: watch_round_def mem_Watch_def mem_watch_due_def mem_writes_1 empty_list_options_def)
  with memory_watch_exact [OF mem_watch_sample] show ?thesis
    by (simp add: mem_versions_def mem_writes_1 in_scope_def le_key_def empty_list_options_def)
qed

text \<open>
  C34: in a session of either store's watch, whatever writes happen meanwhile, \<open>ADDED\<close> is sent
  at most once for a UID, and \<open>MODIFIED\<close> only for a UID sent earlier in the session.
\<close>

theorem watch_added_once:
  shows "((watch_step mem_wr (mem_Watch kind opts))\<^sup>*\<^sup>* (m0, watch_start since) (m, w) \<longrightarrow>
      distinct (added_uids (w_sent w)) \<and> modified_after (w_sent w))
    \<and> ((watch_step (pg_wr eng) (pg_Watch eng kind opts))\<^sup>*\<^sup>* (s0, watch_start since) (s, w) \<longrightarrow>
      distinct (added_uids (w_sent w)) \<and> modified_after (w_sent w))"
  using session_ok_reach [of mem_wr "mem_Watch kind opts" m0 since "(m, w)"]
    session_ok_reach [of "pg_wr eng" "pg_Watch eng kind opts" s0 since "(s, w)"]
  by (simp add: session_ok_def mem_Watch_def pg_Watch_def)

theorem watch_added_once_witness:
  "distinct (added_uids (w_sent (watch_round (mem_Watch ''Agent'' empty_list_options) (mem_after writes_1) (watch_start 0))))"
  using watch_added_once [THEN conjunct1, THEN mp, OF mem_watch_sample] by blast

lemma map_eq_same_elements:
  assumes "map f xs = map f ys" "distinct (map f ys)" "set ys \<subseteq> set xs"
  shows "xs = ys"
proof (rule nth_equalityI)
  show l: "length xs = length ys" using assms(1) by (rule map_eq_imp_length_eq)
  fix i assume i: "i < length xs"
  then have "ys ! i \<in> set xs" using l assms(3) by auto
  then obtain j where j: "j < length xs" "xs ! j = ys ! i" by (auto simp: in_set_conv_nth)
  have "f (ys ! j) = f (ys ! i)"
    using assms(1) j l by (metis nth_map)
  then have "j = i"
    using assms(2) i j(1) l by (auto simp: distinct_conv_nth)
  with j(2) show "xs ! i = ys ! i" by simp
qed

lemma pg_events_sent:
  assumes "(watch_step (pg_wr eng) (pg_WatchEvents eng colony run))\<^sup>*\<^sup>* (init_postgres, watch_start since) (s, w)"
    and "pe_text_ok eng colony" "pe_text_ok eng run"
  shows "w_sent w = filter (\<lambda>e. since < e_ResourceVersion e \<and> e_ResourceVersion e \<le> w_cursor w) (run_events colony run s)"
proof (rule map_eq_same_elements [where f = e_ResourceVersion])
  let ?ys = "filter (\<lambda>e. since < e_ResourceVersion e \<and> e_ResourceVersion e \<le> w_cursor w) (run_events colony run s)"
  have d: "delivered run_event_view (w_sent w) = map (\<lambda>e. (e_ResourceVersion e, e)) (w_sent w)"
    by (simp add: delivered_def List.map_filter_def run_event_view_def)
  have ev: "pg_ev_inv s"
    using pg_watch_events.watch_okD(1) [OF pg_watch_events.watch_ok_reach [OF assms(1) pg_watch_events.watch_ok_start [OF pg_all_inv_init]]]
    by (simp add: pg_all_inv_def)
  show "map e_ResourceVersion (w_sent w) = map e_ResourceVersion ?ys"
    using pg_watch_events.watch_exact [OF pg_all_inv_init assms(1)] assms(2,3)
    by (simp add: d comp_def pg_run_versions_def filter_map)
  have "sorted_wrt (<) (map e_ResourceVersion ?ys)"
    by (rule sorted_wrt_map_filter [OF run_events_versions_sorted [OF ev]])
  then show "distinct (map e_ResourceVersion ?ys)" by (simp add: strict_sorted_iff)
  show "set ?ys \<subseteq> set (w_sent w)"
  proof
    fix e assume e: "e \<in> set ?ys"
    then have "(e, e_ResourceVersion e) \<in> (if pe_text_ok eng colony \<and> pe_text_ok eng run
        then pg_run_current colony run s else {})"
      using assms(2,3) by (simp add: pg_run_current_def)
    from pg_watch_events.watch_complete(3) [OF pg_all_inv_init assms(1) this] e
    show "e \<in> set (w_sent w)" unfolding d by auto
  qed
qed

text \<open>
  \<open>WatchEvents\<close> on PostgreSQL delivers a Run's log exactly: whatever is appended meanwhile,
  what it has sent is the events of the Run between \<open>since\<close> and its cursor, in order.
\<close>

theorem postgres_watch_events_exact:
  assumes "(watch_step (pg_wr eng) (pg_WatchEvents eng colony run))\<^sup>*\<^sup>* (init_postgres, watch_start since) (s, w)"
    and "pe_text_ok eng colony" "pe_text_ok eng run"
  shows "w_sent w = filter (\<lambda>e. since < e_ResourceVersion e \<and> e_ResourceVersion e \<le> w_cursor w) (run_events colony run s)"
  by (rule pg_events_sent [OF assms])

theorem postgres_watch_events_exact_witness:
  "w_sent (watch_round (pg_WatchEvents plain_engine ''c'' ''r'') (pg_events_after plain_engine [(env_a, event_a)]) (watch_start 0))
    = run_events ''c'' ''r'' (pg_events_after plain_engine [(env_a, event_a)])"
proof -
  let ?s = "pg_events_after plain_engine [(env_a, event_a)]"
  let ?w = "watch_round (pg_WatchEvents plain_engine ''c'' ''r'') ?s (watch_start 0)"
  have "pg_wr plain_engine init_postgres ?s"
    using pg_wr.event [of plain_engine init_postgres env_a event_a] by (simp add: pg_events_after_def pg_EventStore_def)
  then have "(watch_step (pg_wr plain_engine) (pg_WatchEvents plain_engine ''c'' ''r''))\<^sup>*\<^sup>* (init_postgres, watch_start 0) (?s, ?w)"
    by (rule converse_rtranclp_into_rtranclp [OF watch_step.wrote [where wr = "pg_wr plain_engine"] watch_round_steps(1)]) simp_all
  note ex = postgres_watch_events_exact [OF this]
  have "run_events ''c'' ''r'' ?s = [event_a\<lparr>e_Seq := 1, e_ResourceVersion := 1, e_TS := 7\<rparr>]"
    by (simp add: pg_events_after_def pg_EventStore_def pg_Append_def sample_defs pageTokenSep_def jsonbBytes_def
      blen_def bytes_of_def init_postgres_def hived_next_resource_version_def run_events_def max_seq_def
      nullableTime_def Let_def)
  moreover from this have "w_cursor ?w = 1"
    by (simp add: watch_round_def pg_WatchEvents_def pg_events_due_def poll_limit_def)
      (simp add: plain_engine_def pageTokenSep_def)
  ultimately show ?thesis using ex by (simp add: plain_engine_def pageTokenSep_def)
qed

end
