(* ===== verification/TxnWatch.thy ===== *)
theory TxnWatch
  imports TxnProps WatchProps
begin

text \<open>
  Watches of concurrent clients: the polls of \<open>Watch\<close> and \<open>WatchEvents\<close> read what is committed
  while transactions of theory \<open>PgTxn\<close> go on. Every run of such a watch is a run of the same
  watch over atomic writes, so it misses nothing.
\<close>

text \<open>A poll is a statement of its own and reads what is committed.\<close>

definition over_world :: "(Postgres, 'x, 'o) feed \<Rightarrow> (world, 'x, 'o) feed" where
  "over_world F = \<lparr>fd_poll = (\<lambda>w. fd_poll F (w_db w)), fd_emit = fd_emit F, fd_mark = fd_mark F\<rparr>"

definition id_blind :: "(Postgres, 'x, 'o) feed \<Rightarrow> bool" where
  "id_blind F \<longleftrightarrow> (\<forall>s t. logical s = logical t \<longrightarrow> fd_poll F s = fd_poll F t)"

lemma over_world_simps [simp]:
  "fd_poll (over_world F) w = fd_poll F (w_db w)" "fd_emit (over_world F) = fd_emit F" "fd_mark (over_world F) = fd_mark F"
  by (simp_all add: over_world_def)

lemma watch_send_over [simp]: "watch_send (over_world F) = watch_send F"
  by (simp add: watch_send_def fun_eq_iff)

lemma watch_flush_over [simp]: "watch_flush (over_world F) due x = watch_flush F due x"
  by (induction F due x rule: watch_flush.induct) simp_all

lemma watch_rounds_over:
  assumes "id_blind F" "logical (w_db v) = logical s"
  shows "watch_rounds (over_world F) v n x = watch_rounds F s n x"
proof -
  have "fd_poll F (w_db v) = fd_poll F s" using assms unfolding id_blind_def by blast
  then have "watch_round (over_world F) v x = watch_round F s x" for x
    by (simp add: watch_round_def)
  then show ?thesis by (induction n arbitrary: x) simp_all
qed

lemma polls_id_blind: "id_blind (pg_Watch eng kind opts)" "id_blind (pg_WatchEvents eng colony run)"
proof -
  have "pg_watch_due eng kind opts s = pg_watch_due eng kind opts t" if "p_rows s = p_rows t" for s t
    by (rule ext) (simp only: pg_watch_due_def that)
  then show "id_blind (pg_Watch eng kind opts)"
    unfolding id_blind_def pg_Watch_def logical_def feed.simps by blast
  have "pg_events_due eng colony run s = pg_events_due eng colony run t" if "logical s = logical t" for s t
    by (rule ext) (simp only: pg_events_due_def logical_run_events [OF that])
  then show "id_blind (pg_WatchEvents eng colony run)"
    unfolding id_blind_def pg_WatchEvents_def feed.simps by blast
qed

section \<open>The simulation\<close>

lemma watch_simulated:
  assumes "(watch_step (txn_step eng hashtext) (over_world F))\<^sup>*\<^sup>* (init_world, x0) c" "id_blind F"
    and "3 * int (length (w_log (fst c))) \<le> max_int64"
  shows "(txn_step eng hashtext)\<^sup>*\<^sup>* init_world (fst c)
    \<and> (watch_step (pg_wr eng) F)\<^sup>*\<^sup>* (init_postgres, x0) (replay eng (w_log (fst c)), snd c)"
  using assms(1,3)
proof (induction rule: rtranclp_induct)
  case base
  then show ?case by (simp add: replay_def init_world_def)
next
  case (step y z)
  obtain v x where y: "y = (v, x)" by (cases y)
  have "\<exists>new. w_log (fst z) = w_log v @ new"
    using step.hyps(2) unfolding y by (cases rule: watch_step.cases) (auto dest: log_grows [OF r_into_rtranclp])
  then obtain new where new: "w_log (fst z) = w_log v @ new" by blast
  with step.prems have "3 * int (length (w_log v)) \<le> max_int64" by simp
  with step.IH have IH: "(txn_step eng hashtext)\<^sup>*\<^sup>* init_world v"
    "(watch_step (pg_wr eng) F)\<^sup>*\<^sup>* (init_postgres, x0) (replay eng (w_log v), x)" by (simp_all add: y)
  have poll: "fd_poll F (w_db v) = fd_poll F (replay eng (w_log v))"
    using assms(2) txn_invD(7) [OF txn_inv_reach [OF IH(1)]] unfolding id_blind_def by blast
  have wr_path: "(watch_step (pg_wr eng) F)\<^sup>*\<^sup>* (s, x) (s', x)" if "(pg_wr eng)\<^sup>*\<^sup>* s s'" for s s'
    using that by (induction rule: rtranclp_induct) (auto intro: rtranclp.rtrancl_into_rtrancl watch_step.wrote)
  have "(txn_step eng hashtext)\<^sup>*\<^sup>* v (fst z)
    \<and> (watch_step (pg_wr eng) F)\<^sup>*\<^sup>* (replay eng (w_log v), x) (replay eng (w_log (fst z)), snd z)"
    using step.hyps(2) unfolding y
  proof (cases rule: watch_step.cases)
    case (wrote v')
    have "3 * int (length (w_log v @ new)) \<le> max_int64" using step.prems new by simp
    from wr_path [OF replay_path(2) [OF this]] wrote new show ?thesis by auto
  next
    case tick
    then show ?thesis
      using watch_step.tick [of x "pg_wr eng" F "replay eng (w_log v)"] by (simp add: poll r_into_rtranclp)
  next
    case (send u xx rest)
    then show ?thesis
      using watch_step.send [of x u xx rest "pg_wr eng" F "replay eng (w_log v)"] by (simp add: r_into_rtranclp)
  next
    case (bookmark ev)
    then show ?thesis
      using watch_step.bookmark [of x F ev "pg_wr eng" "replay eng (w_log v)"] by (simp add: r_into_rtranclp)
  next
    case cancel
    then show ?thesis
      using watch_step.cancel [of "pg_wr eng" F "replay eng (w_log v)" x] by (simp add: r_into_rtranclp)
  qed
  with IH show ?case by (auto intro: rtranclp_trans)
qed

section \<open>Watches over concurrent transactions\<close>

text \<open>
  C4: watches miss nothing of what concurrent transactions commit: a watch on resources that
  is idle delivers, with as many polls as versions are left, every resource then readable in
  its scope at its current version; and a watch on the events of a Run has sent exactly the
  committed events between \<open>since\<close> and its cursor, in order. No transaction that is slow to
  commit is skipped.
\<close>

theorem watches_see_every_commit:
  assumes "(watch_step (txn_step eng hashtext) (over_world (pg_Watch eng kind opts)))\<^sup>*\<^sup>* (init_world, watch_start since) (v, x)"
    and "(watch_step (txn_step eng hashtext) (over_world (pg_WatchEvents eng colony run)))\<^sup>*\<^sup>* (init_world, watch_start from_v) (v, y)"
    and "3 * int (length (w_log v)) \<le> max_int64" "pe_text_ok eng (lo_Colony opts)" "pe_text_ok eng colony" "pe_text_ok eng run"
    and "w_pending x = []" "\<not> w_done x" "p_counter (w_db v) - w_cursor x \<le> int n"
  shows "(pg_Get eng kind c name (w_db v) = Inr r \<and> (lo_Colony opts = '''' \<or> c = lo_Colony opts) \<and> since < r_ResourceVersion r \<longrightarrow>
      (\<exists>e\<in>set (w_sent (watch_rounds (over_world (pg_Watch eng kind opts)) v n x)). we_Type e \<noteq> WatchBookmark
        \<and> we_ResourceVersion e = r_ResourceVersion r \<and> key_of (we_Object e) = (kind, c, name)))
    \<and> w_sent y = filter (\<lambda>e. from_v < e_ResourceVersion e \<and> e_ResourceVersion e \<le> w_cursor y) (run_events colony run (w_db v))"
proof -
  have sim: "(txn_step eng hashtext)\<^sup>*\<^sup>* init_world v"
    "(watch_step (pg_wr eng) (pg_Watch eng kind opts))\<^sup>*\<^sup>* (init_postgres, watch_start since) (replay eng (w_log v), x)"
    "(watch_step (pg_wr eng) (pg_WatchEvents eng colony run))\<^sup>*\<^sup>* (init_postgres, watch_start from_v) (replay eng (w_log v), y)"
    using watch_simulated [OF assms(1) polls_id_blind(1)] watch_simulated [OF assms(2) polls_id_blind(2)] assms(3) by simp_all
  have same: "logical (w_db v) = logical (replay eng (w_log v))" by (rule txn_invD(7) [OF txn_inv_reach [OF sim(1)]])
  then have db: "p_counter (w_db v) = p_counter (replay eng (w_log v))"
    "pg_Get eng kind c name (w_db v) = pg_Get eng kind c name (replay eng (w_log v))"
    by (simp_all add: logical_def pg_Get_def)
  show ?thesis
    using pg_watch_delivers [OF sim(2) assms(7,8) assms(9) [unfolded db(1)], of c name r] pg_events_sent [OF sim(3)] assms(4-6)
    unfolding db(2) watch_rounds_over [OF polls_id_blind(1) same] logical_run_events [OF same] by blast
qed

lemma world_path: "(txn_step eng hashtext)\<^sup>*\<^sup>* v v' \<Longrightarrow> (watch_step (txn_step eng hashtext) F)\<^sup>*\<^sup>* (v, x) (v', x)"
  by (induction rule: rtranclp_induct) (auto intro: rtranclp.rtrancl_into_rtrancl watch_step.wrote)

theorem watches_see_every_commit_witness:
  "(\<exists>e\<in>set (w_sent (watch_rounds (over_world (pg_Watch plain_engine ''Agent'' empty_list_options)) world_2 2 (watch_start 0))).
      we_ResourceVersion e = 1 \<and> key_of (we_Object e) = (''Agent'', ''c'', ''a''))
    \<and> w_sent (watch_round (over_world (pg_WatchEvents plain_engine ''c'' ''r'')) world_2 (watch_start 0)) = [appended_event]"
proof -
  let ?W = "over_world (pg_Watch plain_engine ''Agent'' empty_list_options)"
    and ?E = "over_world (pg_WatchEvents plain_engine ''c'' ''r'')" and ?R = "txn_step plain_engine (\<lambda>_. 0)"
  let ?y = "watch_round ?E world_2 (watch_start 0)"
  note p = world_path [OF sample_steps, where F = ?W and x = "watch_start 0"]
  have q: "(watch_step ?R ?E)\<^sup>*\<^sup>* (init_world, watch_start 0) (world_2, ?y)"
    by (rule rtranclp_trans [OF world_path [OF sample_steps] watch_round_steps(1)]) simp_all
  have get: "pg_Get plain_engine ''Agent'' ''c'' ''a'' (w_db world_2) = Inr applied_agent"
    by (simp add: pg_Get_def world_2_def db_2_def db_1_def applied_agent_def sample_defs pageTokenSep_def)
  have run: "run_events ''c'' ''r'' (w_db world_2) = [appended_event]" "e_ResourceVersion appended_event = 2"
    by (simp_all add: world_2_def db_2_def run_events_def appended_event_def sample_defs)
  have cursor: "w_cursor ?y = 2"
    using run by (simp add: watch_round_def pg_WatchEvents_def pg_events_due_def poll_limit_def)
      (simp add: plain_engine_def pageTokenSep_def)
  have v: "r_ResourceVersion applied_agent = 1" by (simp add: applied_agent_def)
  have "p_counter (w_db world_2) = 2" "length (w_log world_2) = 2"
    by (simp_all add: world_2_def log_2_def db_2_def)
  then show ?thesis
    using watches_see_every_commit [OF p q, of 2 "''c''" "''a''" applied_agent] get run cursor v
    by (simp add: plain_engine_def pageTokenSep_def empty_list_options_def) blast
qed

end
