(* ===== verification/TxnStatus.thy ===== *)
theory TxnStatus
  imports TxnProps
begin

text \<open>
  \<open>Apply\<close> and \<open>ApplyStatus\<close> of concurrent clients: the one leaves the status, the other everything
  but the status as it was committed last.
\<close>

lemma stored_answer: "Inr (Stored out) = map_sum id Stored x \<Longrightarrow> x = Inr out"
  by (cases x) auto

lemma reached_db:
  assumes "(txn_step eng hashtext)\<^sup>*\<^sup>* init_world w" "3 * int (length (w_log w)) \<le> max_int64"
  shows "pg_inv eng (w_db w)"
proof -
  have "pg_all_inv eng (replay eng (w_log w))" using replay_path(1) [of "w_log w" "[]" eng] assms(2) by simp
  moreover have "logical (w_db w) = logical (replay eng (w_log w))" by (rule txn_invD(7) [OF txn_inv_reach [OF assms(1)]])
  ultimately show ?thesis by (simp add: pg_all_inv_def pg_inv_def logical_def)
qed

lemma update_status_Inr:
  assumes "update_status eng e r again s = (Inr out, s')"
  obtains ex st where "map_of (p_rows s) (key_of r) = Some ex" "pe_jsonb_in eng (jsonbBytes (r_Status r)) = Some st"
    "out = ex\<lparr>r_Status := Some st, r_ResourceVersion := p_counter s + (if again then 2 else 1),
       r_UpdatedAt := pe_time eng (env_now e)\<rparr>"
  using assms by (auto simp: update_status_def split: prod.splits sum.splits elim!: pg_ApplyStatus_cases)

lemma pg_Apply_keeps_status:
  assumes "pg_inv eng s" "pg_Apply eng e r v s = (Inr out, s')" "map_of (p_rows s) (key_of r) = Some ex"
  shows "r_Status out = r_Status ex \<and> r_UID out = r_UID ex \<and> r_CreatedAt out = r_CreatedAt ex
    \<and> r_ResourceVersion ex \<le> r_ResourceVersion out"
proof -
  have "r_ResourceVersion ex \<le> p_counter s"
    using pg_inv_row [OF assms(1,3)] by (simp add: pg_row_ok_def)
  with assms(2,1) show ?thesis
    by (cases rule: pg_Apply_split) (use assms(3) in \<open>auto elim: pg_applyMutable_cases\<close>)
qed

text \<open>
  C17: spec and status never overwrite each other: whatever was committed since an \<open>ApplyStatus\<close>
  looked, what it is about to commit is the row as committed last with the new status, a new
  version and time, and nothing else; and what an \<open>Apply\<close> over a row is about to commit has the
  status, UID and creation time committed last. Neither takes the version back.
\<close>

theorem spec_and_status_apart:
  assumes "(txn_step eng hashtext)\<^sup>*\<^sup>* init_world w" "3 * int (length (w_log w)) \<le> max_int64"
    and "w_clients w i = Pending t (Inr (Stored out)) s'"
  shows "(\<forall>e r again. t = SetStatus e r again \<longrightarrow>
      (\<exists>ex. map_of (p_rows (w_db w)) (key_of r) = Some ex \<and> r_ResourceVersion ex < r_ResourceVersion out
        \<and> out = ex\<lparr>r_Status := pe_jsonb_in eng (jsonbBytes (r_Status r)), r_ResourceVersion := r_ResourceVersion out,
                  r_UpdatedAt := pe_time eng (env_now e)\<rparr>))
    \<and> (\<forall>e r ifv ex. t = Upsert e r ifv \<and> map_of (p_rows (w_db w)) (key_of r) = Some ex \<longrightarrow>
        r_Status out = r_Status ex \<and> r_UID out = r_UID ex \<and> r_CreatedAt out = r_CreatedAt ex
        \<and> r_ResourceVersion ex \<le> r_ResourceVersion out)"
proof (intro conjI allI impI)
  note inv = reached_db [OF assms(1,2)]
  have res: "answered eng (w_db w) t (Inr (Stored out))"
    using txn_invD(3) [OF txn_inv_reach [OF assms(1)] assms(3)] .
  {
    fix e r again assume t: "t = SetStatus e r again"
    then have "fst (update_status eng e r again (w_db w)) = Inr out"
      using res by (auto simp: answered_def dest: stored_answer)
    then obtain s where "update_status eng e r again (w_db w) = (Inr out, s)" by (metis prod.collapse)
    then show "\<exists>ex. map_of (p_rows (w_db w)) (key_of r) = Some ex \<and> r_ResourceVersion ex < r_ResourceVersion out
        \<and> out = ex\<lparr>r_Status := pe_jsonb_in eng (jsonbBytes (r_Status r)), r_ResourceVersion := r_ResourceVersion out,
                  r_UpdatedAt := pe_time eng (env_now e)\<rparr>"
    proof (rule update_status_Inr)
      fix ex st assume ex: "map_of (p_rows (w_db w)) (key_of r) = Some ex" "pe_jsonb_in eng (jsonbBytes (r_Status r)) = Some st"
        "out = ex\<lparr>r_Status := Some st, r_ResourceVersion := p_counter (w_db w) + (if again then 2 else 1),
           r_UpdatedAt := pe_time eng (env_now e)\<rparr>"
      have "r_ResourceVersion ex \<le> p_counter (w_db w)"
        using pg_inv_row [OF inv ex(1)] by (simp add: pg_row_ok_def)
      with ex show ?thesis by auto
    qed
  next
    fix e r ifv ex assume "t = Upsert e r ifv \<and> map_of (p_rows (w_db w)) (key_of r) = Some ex"
    then have t: "t = Upsert e r ifv" "map_of (p_rows (w_db w)) (key_of r) = Some ex" by simp_all
    then have "fst (pg_Apply eng e r ifv (w_db w)) = Inr out"
      using res by (auto simp: answered_def dest: stored_answer)
    then obtain s where "pg_Apply eng e r ifv (w_db w) = (Inr out, s)" by (metis prod.collapse)
    from pg_Apply_keeps_status [OF inv this t(2)]
    show "r_Status out = r_Status ex" "r_UID out = r_UID ex" "r_CreatedAt out = r_CreatedAt ex"
      "r_ResourceVersion ex \<le> r_ResourceVersion out" by simp_all
  }
qed

section \<open>Three transactions\<close>

text \<open>
  Client 0 looks for the Agent it sets the status of, client 1 changes its spec and commits, then
  client 0 writes.
\<close>

definition quiet :: "Postgres \<Rightarrow> (nat \<Rightarrow> client) \<Rightarrow> (txn \<times> (go_error + answer)) list \<Rightarrow> world" where
  "quiet s cs log = \<lparr>w_db = s, w_counter = None, w_runs = (\<lambda>_. None), w_clients = cs, w_log = log\<rparr>"

lemma quiet_upsert:
  assumes "cs i = Idle" "\<not> IsImmutableKind (r_Kind r)" "pg_applyMutable eng e r ifv s = (res, s')"
    and "p_event_id s' = p_event_id s"
  shows "(txn_step eng hashtext)\<^sup>*\<^sup>* (quiet s cs log) (quiet s' cs (log @ [(Upsert e r ifv, map_sum id Stored res)]))"
proof -
  let ?w = "quiet s cs log" and ?p = "Pending (Upsert e r ifv) (map_sum id Stored res) s'"
  let ?w1 = "?w\<lparr>w_counter := Some i, w_clients := (w_clients ?w)(i := ?p)\<rparr>"
  let ?w2 = "?w1\<lparr>w_db := s'\<lparr>p_event_id := p_event_id (w_db ?w1)\<rparr>, w_counter := None, w_runs := release i (w_runs ?w1),
    w_clients := (w_clients ?w1)(i := Idle), w_log := w_log ?w1 @ [(Upsert e r ifv, map_sum id Stored res)]\<rparr>"
  have "txn_step eng hashtext ?w ?w1" using assms(1-3) by (intro txn_step.upsert) (simp_all add: quiet_def)
  moreover have "txn_step eng hashtext ?w1 ?w2" by (rule txn_step.commit) simp
  moreover have "?w2 = quiet s' cs (log @ [(Upsert e r ifv, map_sum id Stored res)])"
    using assms(1,4) by (auto simp: quiet_def release_def fun_eq_iff)
  ultimately show ?thesis by (metis converse_rtranclp_into_rtranclp r_into_rtranclp)
qed

definition changed_agent :: resource where
  "changed_agent = applied_agent\<lparr>r_Spec := r_Spec agent_a2, r_Generation := 2, r_ResourceVersion := 3, r_UpdatedAt := 9\<rparr>"

definition ready_agent :: resource where
  "ready_agent = agent_a\<lparr>r_Status := Some ''{\"d\":true}''\<rparr>"

definition db_agent :: "resource \<Rightarrow> Postgres" where
  "db_agent r = \<lparr>p_rows = [((''Agent'', ''c'', ''a''), r)], p_counter = r_ResourceVersion r, p_events = [], p_event_id = 0\<rparr>"

lemma sample_applied: "pg_applyMutable plain_engine env_a agent_a None init_postgres = (Inr applied_agent, db_agent applied_agent)"
  by (simp add: pg_applyMutable_def db_agent_def applied_agent_def sample_defs init_postgres_def insert_row_eq jsonbBytes_def
      blen_def bytes_of_def api_version_of_def pageTokenSep_def hived_next_resource_version_def
      DefaultAPIVersion_def key_of_def Let_def)

lemma sample_changed:
  "pg_applyMutable plain_engine env_b agent_a2 None (db_agent applied_agent) = (Inr changed_agent, db_agent changed_agent)"
  by (simp add: pg_applyMutable_def db_agent_def applied_agent_def changed_agent_def sample_defs insert_row_eq jsonbBytes_def
      blen_def bytes_of_def api_version_of_def pageTokenSep_def hived_next_resource_version_def
      DefaultAPIVersion_def key_of_def row_changed_def spec_distinct_def update_row_def Let_def)

lemma sample_status:
  "update_status plain_engine env_b ready_agent True (db_agent changed_agent) =
    (Inr (changed_agent\<lparr>r_Status := r_Status ready_agent, r_ResourceVersion := 5, r_UpdatedAt := 9\<rparr>),
     db_agent (changed_agent\<lparr>r_Status := r_Status ready_agent, r_ResourceVersion := 5, r_UpdatedAt := 9\<rparr>))"
  by (simp add: update_status_def pg_ApplyStatus_def db_agent_def ready_agent_def applied_agent_def changed_agent_def sample_defs
      jsonbBytes_def blen_def bytes_of_def pageTokenSep_def hived_next_resource_version_def key_of_def Let_def)

theorem spec_and_status_apart_witness:
  "\<exists>w i e s' out. (txn_step plain_engine (\<lambda>_. 0))\<^sup>*\<^sup>* init_world w
    \<and> w_clients w i = Pending (SetStatus e ready_agent True) (Inr (Stored out)) s'
    \<and> r_Spec out = r_Spec agent_a2 \<and> r_Status out = r_Status ready_agent \<and> r_ResourceVersion out = 5"
proof -
  let ?R = "txn_step plain_engine (\<lambda>_. 0)" and ?idle = "\<lambda>_::nat. Idle" and ?found = "(\<lambda>_::nat. Idle)(0 := Found env_b ready_agent 1)"
  let ?l1 = "[(Upsert env_a agent_a None, Inr (Stored applied_agent))]"
  let ?l2 = "?l1 @ [(Upsert env_b agent_a2 None, Inr (Stored changed_agent))]"
  let ?out = "changed_agent\<lparr>r_Status := r_Status ready_agent, r_ResourceVersion := 5, r_UpdatedAt := 9\<rparr>"
  let ?w3 = "quiet (db_agent changed_agent) ?found ?l2"
  let ?w4 = "?w3\<lparr>w_counter := Some 0,
    w_clients := (w_clients ?w3)(0 := Pending (SetStatus env_b ready_agent True) (map_sum id Stored (Inr ?out)) (db_agent ?out))\<rparr>"
  have mut: "\<not> IsImmutableKind (r_Kind agent_a)" "\<not> IsImmutableKind (r_Kind agent_a2)"
    by (simp_all add: sample_defs IsImmutableKind_def ImmutableKinds_def)
  have "init_world = quiet init_postgres ?idle []" by (simp add: init_world_def quiet_def)
  moreover have "?R\<^sup>*\<^sup>* (quiet init_postgres ?idle []) (quiet (db_agent applied_agent) ?idle ?l1)"
    using quiet_upsert [where cs = ?idle and i = 1 and log = "[]" and hashtext = "\<lambda>_. 0", OF _ mut(1) sample_applied] by (simp add: db_agent_def init_postgres_def)
  moreover have "?R (quiet (db_agent applied_agent) ?idle ?l1) (quiet (db_agent applied_agent) ?found ?l1)"
    using txn_step.scan [of "quiet (db_agent applied_agent) ?idle ?l1" 0 ready_agent applied_agent plain_engine "\<lambda>_. 0" env_b]
    by (simp add: quiet_def db_agent_def ready_agent_def applied_agent_def sample_defs key_of_def)
  moreover have "?R\<^sup>*\<^sup>* (quiet (db_agent applied_agent) ?found ?l1) ?w3"
    using quiet_upsert [where cs = ?found and i = 1 and log = ?l1 and hashtext = "\<lambda>_. 0", OF _ mut(2) sample_changed] by (simp add: db_agent_def)
  moreover have "?R ?w3 ?w4"
    by (rule txn_step.status [of _ _ _ _ 1]) (use sample_status in \<open>simp_all add: quiet_def ready_agent_def sample_defs key_of_def\<close>)
  ultimately have path: "?R\<^sup>*\<^sup>* init_world ?w4" by simp
  have "3 * int (length (w_log ?w4)) \<le> max_int64" "w_clients ?w4 0 = Pending (SetStatus env_b ready_agent True) (Inr (Stored ?out)) (db_agent ?out)"
    by (simp_all add: quiet_def)
  from spec_and_status_apart [OF path this] path this(2) show ?thesis
    by (intro exI [of _ ?w4] exI [of _ 0] exI [of _ env_b] exI [of _ "db_agent ?out"] exI [of _ ?out])
      (simp add: changed_agent_def)
qed

end
