(* ===== verification/Migrations.thy ===== *)
theory Migrations
  imports KeeperMain PostgresStore
begin

text \<open>
  The migrations of \<open>internal/store/migrations\<close> on the database they change, and what goose
  (theory \<open>KeeperMain\<close>) does with them: each file is one transaction, run in order, and its
  number is recorded. A database at the last version is what the store of theory
  \<open>PostgresStore\<close> works on.
\<close>

section \<open>Databases\<close>

text \<open>
  \<open>db_version\<close> is the number of migrations applied. The sequence \<open>hived_resource_version\<close> is its
  \<open>last_value\<close> and \<open>is_called\<close>; the tables are \<^const>\<open>None\<close> where they do not exist.
\<close>

record database =
  db_version :: nat
  db_sequence :: "(int \<times> bool) option"
  db_resources :: "(resKey \<times> resource) list option"
  db_events :: "((int \<times> event) list \<times> int) option"
  db_counter :: "int option"

definition empty_database :: database where
  "empty_database = \<lparr>db_version = 0, db_sequence = None, db_resources = None, db_events = None, db_counter = None\<rparr>"

section \<open>The files\<close>

text \<open>The statements of a file, \<^const>\<open>None\<close> when one of them fails.\<close>

definition up_1 :: "database \<Rightarrow> database option" where
  "up_1 db =
     (if db_sequence db \<noteq> None \<or> db_resources db \<noteq> None then None
      else Some (db\<lparr>db_sequence := Some (1, False), db_resources := Some []\<rparr>))"

definition down_1 :: "database \<Rightarrow> database option" where
  "down_1 db =
     (if db_resources db = None \<or> db_sequence db = None then None
      else Some (db\<lparr>db_resources := None, db_sequence := None\<rparr>))"

definition up_2 :: "database \<Rightarrow> database option" where
  "up_2 db = (if db_events db \<noteq> None then None else Some (db\<lparr>db_events := Some ([], 0)\<rparr>))"

definition down_2 :: "database \<Rightarrow> database option" where
  "down_2 db = (if db_events db = None then None else Some (db\<lparr>db_events := None\<rparr>))"

definition up_3 :: "database \<Rightarrow> database option" where
  "up_3 db =
     (if db_counter db \<noteq> None then None
      else case db_sequence db of
        None \<Rightarrow> None
      | Some (last_value, is_called) \<Rightarrow>
          Some (db\<lparr>db_counter := Some (if is_called then last_value else last_value - 1), db_sequence := None\<rparr>))"

definition down_3 :: "database \<Rightarrow> database option" where
  "down_3 db =
     (if db_sequence db \<noteq> None then None
      else case db_counter db of
        None \<Rightarrow> None
      | Some value \<Rightarrow> Some (db\<lparr>db_sequence := Some (max value 1, True), db_counter := None\<rparr>))"

definition migrations :: "((database \<Rightarrow> database option) \<times> (database \<Rightarrow> database option)) list" where
  "migrations = [(up_1, down_1), (up_2, down_2), (up_3, down_3)]"

section \<open>goose\<close>

text \<open>One file up or down, with its entry in goose's own table.\<close>

definition up_one :: "database \<Rightarrow> database option" where
  "up_one db =
     (if db_version db < length migrations
      then map_option (\<lambda>d. d\<lparr>db_version := db_version db + 1\<rparr>) (fst (migrations ! db_version db) db)
      else None)"

definition down_one :: "database \<Rightarrow> database option" where
  "down_one db =
     (if 0 < db_version db \<and> db_version db \<le> length migrations
      then map_option (\<lambda>d. d\<lparr>db_version := db_version db - 1\<rparr>) (snd (migrations ! (db_version db - 1)) db)
      else None)"

text \<open>
  What is documented of goose: \<open>Up\<close> runs the files not applied yet in order, each in a
  transaction, and stops at the first that fails; without an error all are applied. \<open>Down\<close> rolls
  back the last one. \<open>Status\<close> reads.
\<close>

inductive ups :: "database \<Rightarrow> database \<Rightarrow> bool" where
  finished: "ups db db"
| applied: "up_one db = Some d \<Longrightarrow> ups d db' \<Longrightarrow> ups db db'"

definition goose_runs :: "(goose_op \<Rightarrow> database \<Rightarrow> string option \<times> database) \<Rightarrow> bool" where
  "goose_runs G \<longleftrightarrow>
     (\<forall>db err db'. G GooseUp db = (err, db') \<longrightarrow> ups db db' \<and> (err = None \<longrightarrow> length migrations \<le> db_version db'))
     \<and> (\<forall>db err db'. G GooseDown db = (err, db') \<longrightarrow> (if err = None then down_one db = Some db' else db' = db))
     \<and> (\<forall>db. snd (G GooseStatus db) = db)"

section \<open>What a database holds\<close>

text \<open>The relations of each version.\<close>

definition schema_ok :: "database \<Rightarrow> bool" where
  "schema_ok db \<longleftrightarrow> db_version db \<le> 3
     \<and> (db_resources db \<noteq> None \<longleftrightarrow> 1 \<le> db_version db) \<and> (db_events db \<noteq> None \<longleftrightarrow> 2 \<le> db_version db)
     \<and> (db_sequence db \<noteq> None \<longleftrightarrow> db_version db = 1 \<or> db_version db = 2) \<and> (db_counter db \<noteq> None \<longleftrightarrow> db_version db = 3)"

text \<open>The last version handed out, by the sequence or by the counter.\<close>

definition allocated :: "database \<Rightarrow> int" where
  "allocated db =
     (case db_counter db of
        Some v \<Rightarrow> v
      | None \<Rightarrow> (case db_sequence db of Some (l, called) \<Rightarrow> if called then l else l - 1 | None \<Rightarrow> 0))"

definition rows_of :: "database \<Rightarrow> (resKey \<times> resource) list" where
  "rows_of db = (case db_resources db of Some rs \<Rightarrow> rs | None \<Rightarrow> [])"

definition events_of :: "database \<Rightarrow> (int \<times> event) list \<times> int" where
  "events_of db = (case db_events db of Some es \<Rightarrow> es | None \<Rightarrow> ([], 0))"

definition as_store :: "database \<Rightarrow> Postgres option" where
  "as_store db =
     (case (db_resources db, db_events db, db_counter db) of
        (Some rs, Some (es, i), Some v) \<Rightarrow> Some \<lparr>p_rows = rs, p_counter = v, p_events = es, p_event_id = i\<rparr>
      | _ \<Rightarrow> None)"

lemmas migration_defs = up_1_def down_1_def up_2_def down_2_def up_3_def down_3_def migrations_def

lemma schema_versions:
  assumes "schema_ok db"
  obtains (v0) "db_version db = 0" "db_resources db = None" "db_events db = None" "db_sequence db = None" "db_counter db = None"
  | (v1) rs q where "db_version db = 1" "db_resources db = Some rs" "db_events db = None"
    "db_sequence db = Some q" "db_counter db = None"
  | (v2) rs es q where "db_version db = 2" "db_resources db = Some rs" "db_events db = Some es"
    "db_sequence db = Some q" "db_counter db = None"
  | (v3) rs es v where "db_version db = 3" "db_resources db = Some rs" "db_events db = Some es"
    "db_sequence db = None" "db_counter db = Some v"
proof -
  consider "db_version db = 0" | "db_version db = 1" | "db_version db = 2" | "db_version db = 3"
    using assms by (fastforce simp: schema_ok_def)
  then show thesis
  proof cases
    case 1
    with assms show thesis by (intro v0) (simp_all add: schema_ok_def del: not_None_eq)
  next
    case 2
    with assms show thesis
      by (intro v1 [of "the (db_resources db)" "the (db_sequence db)"]) (simp_all add: schema_ok_def del: not_None_eq)
  next
    case 3
    with assms show thesis
      by (intro v2 [of "the (db_resources db)" "the (db_events db)" "the (db_sequence db)"]) (simp_all add: schema_ok_def del: not_None_eq)
  next
    case 4
    with assms show thesis
      by (intro v3 [of "the (db_resources db)" "the (db_events db)" "the (db_counter db)"]) (simp_all add: schema_ok_def del: not_None_eq)
  qed
qed

text \<open>A file never fails on a database of its version, and keeps the rows.\<close>

lemma up_one_ok:
  assumes "schema_ok db" "db_version db < 3"
  shows "\<exists>d. up_one db = Some d \<and> schema_ok d \<and> db_version d = db_version db + 1
    \<and> rows_of d = rows_of db \<and> events_of d = events_of db \<and> allocated d = allocated db"
  using assms(1)
  by (cases rule: schema_versions)
    (use assms(2) in \<open>auto simp: up_one_def migration_defs schema_ok_def rows_of_def events_of_def allocated_def\<close>)

lemma down_one_ok:
  assumes "schema_ok db" "0 < db_version db"
  shows "\<exists>d. down_one db = Some d \<and> schema_ok d \<and> db_version d = db_version db - 1
    \<and> (2 \<le> db_version d \<longrightarrow> rows_of d = rows_of db \<and> events_of d = events_of db \<and> allocated d = max (allocated db) 1)"
  using assms(1)
  by (cases rule: schema_versions)
    (use assms(2) in \<open>auto simp: down_one_def migration_defs schema_ok_def rows_of_def events_of_def allocated_def\<close>)

lemma ups_ok:
  assumes "ups db db'" "schema_ok db"
  shows "schema_ok db' \<and> rows_of db' = rows_of db \<and> events_of db' = events_of db \<and> allocated db' = allocated db"
  using assms
proof (induction rule: ups.induct)
  case (applied db d db')
  then have "db_version db < 3" by (auto simp: up_one_def migrations_def split: if_splits)
  with up_one_ok [OF applied.prems] applied show ?case by auto
qed simp

lemma migrated_store:
  assumes "schema_ok db" "db_version db = 3"
  shows "as_store db = Some \<lparr>p_rows = rows_of db, p_counter = allocated db, p_events = fst (events_of db),
    p_event_id = snd (events_of db)\<rparr>"
  using assms by (cases rule: schema_versions) (auto simp: as_store_def rows_of_def events_of_def allocated_def split: prod.splits)

lemma Migrate_goose:
  assumes "goose_runs G" "Migrate dialect G direction db = (None, db')"
  shows "direction = ''up'' \<Longrightarrow> ups db db' \<and> length migrations \<le> db_version db'"
    and "direction = ''down'' \<Longrightarrow> down_one db = Some db'"
  using assms by (fastforce simp: Migrate_def goose_runs_def apfst_def map_prod_def split: option.splits prod.splits)+

lemma ups_all:
  assumes "ups db db'" "schema_ok db" "length migrations \<le> db_version db'"
  shows "schema_ok db'" "db_version db' = 3" "rows_of db' = rows_of db" "events_of db' = events_of db" "allocated db' = allocated db"
proof -
  note ok = ups_ok [OF assms(1,2)]
  then show "schema_ok db'" "rows_of db' = rows_of db" "events_of db' = events_of db" "allocated db' = allocated db" by simp_all
  from ok assms(3) show "db_version db' = 3" by (simp add: schema_ok_def migrations_def)
qed

lemma ups_last: "ups d d' \<Longrightarrow> length migrations \<le> db_version d \<Longrightarrow> d' = d"
  by (erule ups.cases) (simp_all add: up_one_def)

section \<open>What serve serves\<close>

text \<open>
  C30: on a database at any version, \<open>hived-keeper serve\<close> with automatic migration listens only
  when the store finds all its relations, with the resources and events that were there before
  and the counter at the last version handed out, so no version is given twice and cursors
  clients hold stay valid; on an empty database it starts from the store's initial state.
\<close>

theorem serve_on_migrated:
  assumes "goose_runs (ps_Goose ps)" "schema_ok db" "FromEnv env = Inr cfg" "cf_AutoMigrate cfg"
    and "keeper_main b env ps [prog, ''serve''] db = (err, out, acts, db')" "ListenAPI (cf_ListenAddr cfg) \<in> set acts"
  shows "\<exists>s. as_store db' = Some s \<and> p_rows s = rows_of db \<and> p_events s = fst (events_of db)
    \<and> p_counter s = allocated db \<and> (db = empty_database \<longrightarrow> s = init_postgres)"
proof -
  have "auto_migrate ps cfg db = (None, db')"
    using assms(3-6) by (auto simp: keeper_main_def runServe_def Let_def split: prod.splits option.splits)
  then have "Migrate (ps_Dialect ps) (ps_Goose ps) ''up'' db = (None, db')"
    by (cases "Migrate (ps_Dialect ps) (ps_Goose ps) ''up'' db") (auto simp: auto_migrate_def split: option.splits)
  from Migrate_goose(1) [OF assms(1) this] have "ups db db'" "length migrations \<le> db_version db'" by simp_all
  note up = ups_all [OF this(1) assms(2) this(2)]
  have "as_store db' = Some \<lparr>p_rows = rows_of db, p_counter = allocated db, p_events = fst (events_of db),
    p_event_id = snd (events_of db)\<rparr>" using migrated_store [OF up(1,2)] up(3-5) by simp
  then show ?thesis
    by (auto simp: empty_database_def init_postgres_def rows_of_def events_of_def allocated_def)
qed

text \<open>goose on files that never fail.\<close>

fun goose_up :: "nat \<Rightarrow> database \<Rightarrow> database" where
  "goose_up 0 db = db"
| "goose_up (Suc n) db = (case up_one db of None \<Rightarrow> db | Some d \<Rightarrow> goose_up n d)"

definition sample_goose :: "goose_op \<Rightarrow> database \<Rightarrow> string option \<times> database" where
  "sample_goose op db =
     (case op of
        GooseUp \<Rightarrow> (let d = goose_up 3 db in (if length migrations \<le> db_version d then None else Some ''failed'', d))
      | GooseDown \<Rightarrow> (case down_one db of None \<Rightarrow> (Some ''failed'', db) | Some d \<Rightarrow> (None, d))
      | GooseStatus \<Rightarrow> (None, db))"

lemma sample_goose_runs: "goose_runs sample_goose"
proof -
  have "ups db (goose_up n db)" for n db
    by (induction n db rule: goose_up.induct) (auto intro: ups.intros split: option.splits)
  then show ?thesis
    by (auto simp: goose_runs_def sample_goose_def Let_def split: option.splits if_splits)
qed

definition migrating_process :: "database process" where
  "migrating_process = \<lparr>ps_SqlOpen = (\<lambda>_. None), ps_Dialect = None, ps_Goose = sample_goose, ps_Pool = (\<lambda>_. None), ps_End = Signalled\<rparr>"

theorem serve_on_migrated_witness:
  "\<exists>err out acts db'. keeper_main dev_build (\<lambda>_. '''') migrating_process [''hived-keeper'', ''serve''] empty_database = (err, out, acts, db')
    \<and> ListenAPI '':8080'' \<in> set acts \<and> as_store db' = Some init_postgres"
proof -
  let ?run = "keeper_main dev_build (\<lambda>_. '''') migrating_process [''hived-keeper'', ''serve''] empty_database"
  obtain cfg where cfg: "FromEnv (\<lambda>_. '''') = Inr cfg" "cf_AutoMigrate cfg" "cf_ListenAddr cfg = '':8080''"
    by (simp add: FromEnv_def getenv_def Let_def)
  obtain d where up: "sample_goose GooseUp empty_database = (None, d)"
    by (simp add: sample_goose_def up_one_def migration_defs empty_database_def numeral_3_eq_3 Let_def)
  then have run: "?run = (None, '''', [Migrated, ListenAPI (cf_ListenAddr cfg), ListenMetrics (cf_MetricsAddr cfg), ShutDown], d)"
    using cfg(1,2)
    by (simp add: keeper_main_def runServe_def auto_migrate_def Migrate_def serve_until_def migrating_process_def Let_def)
  have ok: "goose_runs (ps_Goose migrating_process)" "schema_ok empty_database"
    using sample_goose_runs by (simp_all add: migrating_process_def schema_ok_def empty_database_def)
  from serve_on_migrated [OF ok cfg(1,2) run] run cfg(3) show ?thesis by auto
qed

section \<open>Down and up again\<close>

text \<open>
  C31: rolling the last migration back and applying it again gives the same database, with every
  resource and event and the counter where it was (an unused counter comes back at one); in
  between the sequence goes on from the last version of the counter.
\<close>

theorem migrate_down_up:
  assumes "goose_runs (ps_Goose ps)" "schema_ok db" "db_version db = 3"
    and "keeper_main b env ps [prog, ''migrate'', ''down''] db = (None, out, acts, db1)"
    and "keeper_main b env ps [prog, ''migrate'', ''up''] db1 = (None, out', acts', db2)"
  shows "db2 = db\<lparr>db_counter := Some (max (allocated db) 1)\<rparr>
    \<and> db_version db1 = 2 \<and> rows_of db1 = rows_of db \<and> events_of db1 = events_of db \<and> allocated db1 = max (allocated db) 1"
proof -
  have "Migrate (ps_Dialect ps) (ps_Goose ps) ''down'' db = (None, db1)"
    "Migrate (ps_Dialect ps) (ps_Goose ps) ''up'' db1 = (None, db2)"
    using assms(4,5) by (auto simp: keeper_main_def runMigrate_def split: prod.splits sum.splits option.splits)
  from Migrate_goose [OF assms(1) this(1)] Migrate_goose [OF assms(1) this(2)]
  have d: "down_one db = Some db1" and u: "ups db1 db2" "length migrations \<le> db_version db2" by simp_all
  from assms(2) d have db1: "db1 = db\<lparr>db_version := 2, db_sequence := Some (max (allocated db) 1, True), db_counter := None\<rparr>"
    "up_one db1 = Some (db\<lparr>db_counter := Some (max (allocated db) 1)\<rparr>)"
    by (cases rule: schema_versions; use assms(3) in \<open>auto simp: down_one_def up_one_def migration_defs allocated_def numeral_2_eq_2\<close>)+
  have "db2 = db\<lparr>db_counter := Some (max (allocated db) 1)\<rparr>"
    using u(1)
  proof cases
    case finished
    then show ?thesis using u(2) db1(1) by (simp add: migrations_def)
  next
    case (applied d)
    then have "d = db\<lparr>db_counter := Some (max (allocated db) 1)\<rparr>" using db1(2) by simp
    then show ?thesis using ups_last [OF applied(2)] assms(3) by (simp add: migrations_def)
  qed
  then show ?thesis using db1(1) by (simp add: rows_of_def events_of_def allocated_def)
qed

definition used_database :: database where
  "used_database = \<lparr>db_version = 3, db_sequence = None, db_resources = Some [], db_events = Some ([], 0), db_counter = Some 7\<rparr>"

theorem migrate_down_up_witness:
  "\<exists>db1. keeper_main dev_build (\<lambda>_. '''') migrating_process [''hived-keeper'', ''migrate'', ''down''] used_database = (None, '''', [], db1)
    \<and> keeper_main dev_build (\<lambda>_. '''') migrating_process [''hived-keeper'', ''migrate'', ''up''] db1 = (None, '''', [], used_database)
    \<and> allocated db1 = 7"
proof -
  let ?db1 = "used_database\<lparr>db_version := 2, db_sequence := Some (7, True), db_counter := None\<rparr>"
  have down: "keeper_main dev_build (\<lambda>_. '''') migrating_process [''hived-keeper'', ''migrate'', ''down''] used_database = (None, '''', [], ?db1)"
    and up: "keeper_main dev_build (\<lambda>_. '''') migrating_process [''hived-keeper'', ''migrate'', ''up''] ?db1 = (None, '''', [], used_database)"
    by (simp_all add: keeper_main_def runMigrate_def FromEnv_def getenv_def Migrate_def migrating_process_def sample_goose_def
        up_one_def down_one_def migration_defs used_database_def numeral_3_eq_3 numeral_2_eq_2 Let_def)
  have ok: "goose_runs (ps_Goose migrating_process)" "schema_ok used_database" "db_version used_database = 3"
    using sample_goose_runs by (simp_all add: migrating_process_def schema_ok_def used_database_def)
  from migrate_down_up [OF ok down up] down up show ?thesis
    by (intro exI [of _ ?db1]) (simp add: used_database_def allocated_def)
qed

end
