(* ===== verification/JsonText.thy ===== *)
theory JsonText
  imports CliJson
begin

text \<open>
  Strings in JSON texts (theories \<open>GoJson\<close> and \<open>CliJson\<close>): UTF-8 characters, what a Unicode escape
  reads as, that the HTML escapes of \<open>Marshal\<close> do not change what a string means, and that
  quoting and unquoting a well-formed string gives it back.
\<close>

section \<open>UTF-8 characters\<close>

abbreviation continuation :: "nat \<Rightarrow> bool" where
  "continuation x \<equiv> 0x80 \<le> x \<and> x \<le> 0xBF"

definition second_ok :: "nat \<Rightarrow> nat \<Rightarrow> bool" where
  "second_ok b x \<longleftrightarrow> continuation x \<and> (b = 0xE0 \<longrightarrow> 0xA0 \<le> x) \<and> (b = 0xED \<longrightarrow> x \<le> 0x9F) \<and> (b = 0xF0 \<longrightarrow> 0x90 \<le> x)
    \<and> (b = 0xF4 \<longrightarrow> x \<le> 0x8F)"

definition rune_size :: "nat \<Rightarrow> nat" where
  "rune_size b = (if b < 0x80 then 1 else if 0xC2 \<le> b \<and> b \<le> 0xDF then 2 else if 0xE0 \<le> b \<and> b \<le> 0xEF then 3
    else if 0xF0 \<le> b \<and> b \<le> 0xF4 then 4 else 0)"

lemma utf8_len_Cons:
  "utf8_len (b # bs) =
    (if rune_size b \<le> Suc (length bs) \<and> (1 < rune_size b \<longrightarrow> second_ok b (bs ! 0)) \<and> (2 < rune_size b \<longrightarrow> continuation (bs ! 1))
        \<and> (3 < rune_size b \<longrightarrow> continuation (bs ! 2)) then rune_size b else 0)"
proof -
  consider "b < 0x80" | "0x80 \<le> b" "b < 0xC2" | "0xC2 \<le> b" "b \<le> 0xDF" | "0xE0 \<le> b" "b \<le> 0xEF" | "0xF0 \<le> b" "b \<le> 0xF4" | "0xF4 < b" by linarith
  then show ?thesis by cases (auto simp: rune_size_def second_ok_def Let_def Suc_le_eq)
qed

declare utf8_len.simps(2) [simp del]

abbreviation cont_char :: "char \<Rightarrow> bool" where
  "cont_char c \<equiv> continuation (of_char c)"

abbreviation char_len :: "string \<Rightarrow> nat" where
  "char_len s \<equiv> utf8_len (map of_char s)"

lemma rune_size_le: "rune_size b \<le> 4"
  by (simp add: rune_size_def)

lemma second_ok_cont: "second_ok b x \<Longrightarrow> continuation x"
  by (simp add: second_ok_def)

lemma char_len_split:
  assumes "char_len (c # cs) \<noteq> 0"
  obtains p r where "cs = p @ r" "char_len (c # cs) = Suc (length p)" "list_all cont_char p"
proof -
  let ?w = "rune_size (of_char c)" and ?w' = "char_len (c # cs)"
  have "?w' = (if ?w \<le> Suc (length cs) \<and> (1 < ?w \<longrightarrow> second_ok (of_char c) (map of_char cs ! 0))
      \<and> (2 < ?w \<longrightarrow> continuation (map of_char cs ! 1)) \<and> (3 < ?w \<longrightarrow> continuation (map of_char cs ! 2)) then ?w else 0)" (is "_ = (if ?P then _ else _)")
    by (simp only: list.map utf8_len_Cons length_map)
  then have w: "?w' = ?w" ?P using assms by presburger+
  have "cont_char (cs ! i)" if "i < ?w - 1" for i
  proof -
    from that rune_size_le [of "of_char c"] have "i = 0 \<or> i = 1 \<or> i = 2" by linarith
    moreover have "i < length cs" using that conjunct1 [OF w(2)] by linarith
    ultimately show ?thesis using w(2) that second_ok_cont [of "of_char c" "of_char (cs ! 0)"] by auto
  qed
  then have "cs = take (?w - 1) cs @ drop (?w - 1) cs" "?w' = Suc (length (take (?w - 1) cs))"
    "list_all cont_char (take (?w - 1) cs)"
    using assms w(1) conjunct1 [OF w(2)] by (simp_all add: list_all_length min_absorb2)
  then show thesis by (rule that)
qed

lemma rune_takeWhile:
  fixes C :: "'a \<Rightarrow> bool"
  assumes "n \<le> (4::nat)" "\<And>x. \<not> C x \<Longrightarrow> \<not> ok x"
  shows "(n \<le> Suc (length zs) \<and> (1 < n \<longrightarrow> ok (zs ! 0)) \<and> (2 < n \<longrightarrow> C (zs ! 1)) \<and> (3 < n \<longrightarrow> C (zs ! 2))) \<longleftrightarrow>
    (n \<le> Suc (length (takeWhile C zs)) \<and> (1 < n \<longrightarrow> ok (takeWhile C zs ! 0)) \<and> (2 < n \<longrightarrow> C (takeWhile C zs ! 1))
      \<and> (3 < n \<longrightarrow> C (takeWhile C zs ! 2)))"
proof -
  let ?m = "length (takeWhile C zs)"
  have m: "?m \<le> length zs" "?m < length zs \<longrightarrow> \<not> C (zs ! ?m)" "\<forall>j<?m. takeWhile C zs ! j = zs ! j \<and> C (zs ! j)"
    using nth_mem [of _ "takeWhile C zs"] set_takeWhileD [of _ C zs] nth_length_takeWhile [of C zs]
    by (simp_all add: length_takeWhile_le takeWhile_nth)
  have same: "n \<le> Suc ?m \<Longrightarrow> i < n - 1 \<Longrightarrow> takeWhile C zs ! i = zs ! i" for i
    by (rule m(3) [THEN spec, THEN mp, THEN conjunct1]) linarith
  have "n \<le> Suc ?m" if *: "n \<le> Suc (length zs)" "1 < n \<longrightarrow> ok (zs ! 0)" "2 < n \<longrightarrow> C (zs ! 1)" "3 < n \<longrightarrow> C (zs ! 2)"
  proof (rule ccontr)
    assume "\<not> n \<le> Suc ?m"
    then have lt: "Suc ?m < n" "?m < length zs" "?m = 0 \<or> ?m = 1 \<or> ?m = 2" using *(1) assms(1) by linarith+
    then have "C (zs ! ?m)" using *(2-4) assms(2) [of "zs ! 0"] by (elim disjE) auto
    with m(2) lt(2) show False by simp
  qed
  then show ?thesis using m(1) same [of 0] same [of 1] same [of 2] by (intro iffI conjI impI; elim conjE) simp_all
qed

lemma char_len_cong:
  assumes "takeWhile cont_char xs = takeWhile cont_char ys"
  shows "char_len (c # xs) = char_len (c # ys)"
proof -
  let ?n = "rune_size (of_char c)"
  have *: "takeWhile continuation (map of_char zs) = map of_char (takeWhile cont_char zs)" for zs :: string
    by (simp add: takeWhile_map comp_def)
  have eq: "char_len (c # zs) = utf8_len (of_char c # map of_char (takeWhile cont_char zs))" for zs
    unfolding * [symmetric] by (simp only: list.map utf8_len_Cons)
      (subst rune_takeWhile [where C = continuation, OF rune_size_le], use second_ok_cont in blast, rule refl)
  show ?thesis using eq [of xs] eq [of ys] assms by simp
qed

lemma unquote_pos: "n > 0 \<Longrightarrow> unquote n (c # cs) = map_option (Cons c) (unquote (n - 1) cs)"
  by (subst unquote.simps) (simp only: if_True)

lemma unquote_neg:
  assumes "n < 0" shows "unquote n (c # cs) = unquote (n + 1) cs"
proof -
  have "\<not> n > 0" using assms by simp
  then show ?thesis using assms by (subst unquote.simps) (simp only: if_False if_True)
qed

declare unquote.simps(2) [simp del]

lemma unquote_copy: "unquote (int (length p)) (p @ r) = map_option ((@) p) (unquote 0 r)"
  by (induction p) (simp_all add: unquote_pos option.map_comp comp_def option.map_ident)

lemma unquote_skip: "unquote (- int (length p)) (p @ r) = unquote 0 r"
  by (induction p) (simp_all add: unquote_neg)

lemma unquote_plain:
  assumes "0x20 \<le> (of_char c :: nat)" "c \<noteq> CHR 0x5C"
  shows "unquote 0 (c # cs) = (if char_len (c # cs) = 0 then map_option ((@) rune_error) (unquote 0 cs)
      else map_option (Cons c) (unquote (int (char_len (c # cs)) - 1) cs))"
  using assms by (subst unquote.simps) (simp only: less_irrefl if_False Let_def linorder_not_less [symmetric])

lemma unquote_control: "(of_char c :: nat) < 0x20 \<Longrightarrow> unquote 0 (c # cs) = None"
  by (subst unquote.simps) (simp only: less_irrefl if_False if_True)

definition short_escape :: "char \<Rightarrow> char option" where
  "short_escape = map_of (zip [CHR 0x22, CHR 0x5C, CHR ''/'', CHR ''b'', CHR ''f'', CHR ''n'', CHR ''r'', CHR ''t'']
     [CHR 0x22, CHR 0x5C, CHR ''/'', CHR 0x08, CHR 0x0C, CHR 0x0A, CHR 0x0D, CHR 0x09])"

lemma unquote_backslash:
  "unquote 0 [CHR 0x5C] = None"
  "e \<noteq> CHR ''u'' \<Longrightarrow> unquote 0 (CHR 0x5C # e # rest) =
     (case short_escape e of None \<Rightarrow> None | Some d \<Rightarrow> map_option (Cons d) (unquote 0 rest))"
proof -
  have c: "\<not> (of_char (CHR 0x5C) :: nat) < 0x20" by simp
  show "unquote 0 [CHR 0x5C] = None"
    by (subst unquote.simps) (use c in \<open>simp only: less_irrefl if_False if_True list.case simp_thms\<close>)
  assume "e \<noteq> CHR ''u''"
  moreover have "unquote (- 1) (e # rest) = unquote 0 rest" by (simp add: unquote_neg)
  ultimately show "unquote 0 (CHR 0x5C # e # rest) =
     (case short_escape e of None \<Rightarrow> None | Some d \<Rightarrow> map_option (Cons d) (unquote 0 rest))"
    by (subst unquote.simps) (use c in \<open>simp only: less_irrefl if_False if_True list.case simp_thms short_escape_def\<close>)
qed

lemma unquote_u:
  "unquote 0 (CHR 0x5C # CHR ''u'' # rest) =
     (case getu4 rest of
        None \<Rightarrow> None
      | Some r \<Rightarrow>
          if is_surrogate r then
            (case (if take 2 (drop 4 rest) = [CHR 0x5C, CHR ''u''] then getu4 (drop 6 rest) else None) of
               Some r2 \<Rightarrow>
                 if r < 0xDC00 \<and> 0xDC00 \<le> r2 \<and> r2 < 0xE000 then
                   map_option ((@) (utf8_encode ((r - 0xD800) * 1024 + (r2 - 0xDC00) + 0x10000))) (unquote 0 (drop 10 rest))
                 else map_option ((@) rune_error) (unquote 0 (drop 4 rest))
             | None \<Rightarrow> map_option ((@) rune_error) (unquote 0 (drop 4 rest)))
          else map_option ((@) (utf8_encode r)) (unquote 0 (drop 4 rest)))"
proof -
  have c: "\<not> (of_char (CHR 0x5C) :: nat) < 0x20" by simp
  have skip: "unquote (- int (Suc n)) (CHR ''u'' # rest) = unquote 0 (drop n rest)" if "n \<le> length rest" for n
    using that unquote_skip [of "CHR ''u'' # take n rest" "drop n rest"] by (simp add: min_absorb2)
  have four: "4 \<le> length r" if "getu4 r = Some v" for r v using that by (cases r rule: getu4.cases) auto
  have s4: "unquote (- 5) (CHR ''u'' # rest) = unquote 0 (drop 4 rest)" if "getu4 rest = Some v" for v
    using skip [of 4] four [OF that] by simp
  have s10: "unquote (- 11) (CHR ''u'' # rest) = unquote 0 (drop 10 rest)" if "getu4 (drop 6 rest) = Some v" for v
    using skip [of 10] four [OF that] by simp
  show ?thesis
    by (subst unquote.simps) (use c in \<open>simp only: less_irrefl if_False if_True list.case simp_thms\<close>,
      auto split: option.splits if_splits simp: s4 s10)
qed

section \<open>Unicode short_escape\<close>

lemma hex_val_digit: "n < 16 \<Longrightarrow> hex_val (hex_digit n) = Some n"
proof -
  have "list_all (\<lambda>n. hex_val (hex_digit n) = Some n) [0..<16]" by code_simp
  then show "n < 16 \<Longrightarrow> hex_val (hex_digit n) = Some n" by (simp add: list_all_iff)
qed

lemma getu4_Some: "getu4 q = Some r \<Longrightarrow> \<exists>a b c d t. q = a # b # c # d # t \<and> (\<forall>t'. getu4 (a # b # c # d # t') = Some r)
    \<and> (\<forall>x\<in>{a, b, c, d}. hex_val x \<noteq> None)"
  by (cases q rule: getu4.cases) (auto split: option.splits)

lemma getu4_digits:
  assumes "n < 65536"
  shows "getu4 (hex_digit (n div 4096 mod 16) # hex_digit (n div 256 mod 16) # hex_digit (n div 16 mod 16) # hex_digit (n mod 16) # t) = Some n"
proof -
  have dig: "getu4 (hex_digit w # hex_digit x # hex_digit y # hex_digit z # t) = Some (((w * 16 + x) * 16 + y) * 16 + z)"
    if "w < 16" "x < 16" "y < 16" "z < 16" for w x y z
    using that by (simp add: hex_val_digit)
  have eq: "n div 16 div 16 = n div 256" "n div 256 div 16 = n div 4096" "n div 4096 mod 16 = n div 4096"
    using assms by (simp_all add: div_mult2_eq [symmetric])
  have "n div 16 * 16 + n mod 16 = n" "n div 256 * 16 + n div 16 mod 16 = n div 16" "n div 4096 * 16 + n div 256 mod 16 = n div 256"
    using div_mult_mod_eq [of n 16] div_mult_mod_eq [of "n div 16" 16] div_mult_mod_eq [of "n div 256" 16] by (simp_all only: eq)
  then have "((n div 4096 mod 16 * 16 + n div 256 mod 16) * 16 + n div 16 mod 16) * 16 + n mod 16 = n"
    by (simp only: eq)
  then show ?thesis using dig [of "n div 4096 mod 16" "n div 256 mod 16" "n div 16 mod 16" "n mod 16"] by (simp only:)
qed

definition low_half :: "string \<Rightarrow> nat option" where
  "low_half s = (case (if take 2 s = [CHR 0x5C, CHR ''u''] then getu4 (drop 2 s) else None) of
      Some r \<Rightarrow> if 0xDC00 \<le> r \<and> r < 0xE000 then Some r else None | None \<Rightarrow> None)"

lemma unquote_u4:
  assumes "getu4 (a # b # c # d # rest) = Some r"
  shows "unquote 0 (CHR 0x5C # CHR ''u'' # a # b # c # d # rest) =
     (case (if is_surrogate r \<and> r < 0xDC00 then low_half rest else None) of
        Some r2 \<Rightarrow> map_option ((@) (utf8_encode ((r - 0xD800) * 1024 + (r2 - 0xDC00) + 0x10000))) (unquote 0 (drop 6 rest))
      | None \<Rightarrow> map_option ((@) (if is_surrogate r then rune_error else utf8_encode r)) (unquote 0 rest))"
  using assms unfolding unquote_u low_half_def by (simp split: option.split)

lemma unquote_escape_u:
  assumes "n < 65536" "\<not> is_surrogate n"
  shows "unquote 0 (escape_u n @ rest) = map_option ((@) (utf8_encode n)) (unquote 0 rest)"
  using unquote_u4 [OF getu4_digits [OF assms(1)]] assms(2) by (simp add: escape_u_def)

lemma utf8_encode_ascii: "(of_char c :: nat) < 0x80 \<Longrightarrow> utf8_encode (of_char c) = [c]"
  by (simp add: utf8_encode_def)

lemma utf8_encode_separators: "utf8_encode 0x2028 = [CHR 0xE2, CHR 0x80, CHR 0xA8]" "utf8_encode 0x2029 = [CHR 0xE2, CHR 0x80, CHR 0xA9]"
  by (simp_all add: utf8_encode_def char_of_eq_iff)

section \<open>HTML short_escape\<close>

lemma html_skip: "html_from (length p) (p @ s) = html_from 0 s"
  by (induction p) simp_all

lemma html_from_cases:
  obtains (sep) r u where "c # cs = utf8_encode u @ r" "u = 0x2028 \<or> u = 0x2029" "html_from 0 (c # cs) = escape_u u @ html_from 0 r"
  | (markup) "c \<in> set ''<>&''" "html_from 0 (c # cs) = escape_u (of_char c) @ html_from 0 cs"
  | (plain) "c \<notin> set ''<>&''" "html_from 0 (c # cs) = c # html_from 0 cs"
proof -
  consider "take 3 (c # cs) = [CHR 0xE2, CHR 0x80, CHR 0xA8]" | "take 3 (c # cs) = [CHR 0xE2, CHR 0x80, CHR 0xA9]"
    | "take 3 (c # cs) \<noteq> [CHR 0xE2, CHR 0x80, CHR 0xA8]" "take 3 (c # cs) \<noteq> [CHR 0xE2, CHR 0x80, CHR 0xA9]" by blast
  then show thesis
  proof cases
    case 1
    then have cs: "cs = [CHR 0x80, CHR 0xA8] @ drop 2 cs" by (cases cs; cases "tl cs"; auto)
    then have "html_from 2 cs = html_from 0 (drop 2 cs)" by (metis html_skip length_Cons list.size(3) numeral_2_eq_2)
    with 1 have "html_from 0 (c # cs) = escape_u 0x2028 @ html_from 0 (drop 2 cs)" by simp
    moreover have "c # cs = utf8_encode 0x2028 @ drop 2 cs" using 1 cs by (simp add: utf8_encode_separators)
    ultimately show thesis by (intro sep) blast+
  next
    case 2
    then have cs: "cs = [CHR 0x80, CHR 0xA9] @ drop 2 cs" by (cases cs; cases "tl cs"; auto)
    then have "html_from 2 cs = html_from 0 (drop 2 cs)" by (metis html_skip length_Cons list.size(3) numeral_2_eq_2)
    with 2 have "html_from 0 (c # cs) = escape_u 0x2029 @ html_from 0 (drop 2 cs)" by simp
    moreover have "c # cs = utf8_encode 0x2029 @ drop 2 cs" using 2 cs by (simp add: utf8_encode_separators)
    ultimately show thesis by (intro sep) blast+
  next
    case 3
    then show thesis by (cases "c \<in> set ''<>&''") (auto intro: markup plain)
  qed
qed

declare html_from.simps(2) [simp del]
declare getu4.simps(1) [simp del]

lemma html_cont: "cont_char c \<Longrightarrow> html_from 0 (c # cs) = c # html_from 0 cs"
  by (cases c cs rule: html_from_cases) (auto simp: utf8_encode_separators)

lemma html_conts: "list_all cont_char p \<Longrightarrow> html_from 0 (p @ r) = p @ html_from 0 r"
  by (induction p) (simp_all add: html_cont)

lemma takeWhile_html: "takeWhile cont_char (html_from 0 cs) = takeWhile cont_char cs"
proof (induction cs)
  case (Cons c cs)
  show ?case
  proof (cases "cont_char c")
    case True
    then show ?thesis using Cons html_cont by (simp)
  next
    case False
    then show ?thesis by (cases c cs rule: html_from_cases) (auto simp: escape_u_def utf8_encode_separators)
  qed
qed simp

lemma html_ascii: "(of_char c :: nat) < 0x80 \<Longrightarrow> c \<notin> set ''<>&'' \<Longrightarrow> html_from 0 (c # cs) = c # html_from 0 cs"
  by (cases c cs rule: html_from_cases) (auto simp: utf8_encode_separators)

lemma hex_val_ascii: "hex_val x \<noteq> None \<Longrightarrow> (of_char x :: nat) < 0x80 \<and> x \<notin> set ''<>&''"
  by (auto simp: hex_val_def Let_def split: if_splits)

lemma short_escape_ascii: "short_escape e \<noteq> None \<Longrightarrow> (of_char e :: nat) < 0x80 \<and> e \<notin> set ''<>&'' \<and> e \<noteq> CHR ''u''"
  by (auto simp: short_escape_def split: if_splits)

lemma append_fun: "(@) (c # p) = (\<lambda>x. c # p @ x)"
  by (simp add: fun_eq_iff)

lemma unquote_run:
  assumes "0x20 \<le> (of_char c :: nat)" "c \<noteq> CHR 0x5C" "char_len (c # p @ r) = Suc (length p)"
  shows "unquote 0 (c # p @ r) = map_option ((@) (c # p)) (unquote 0 r)"
proof -
  have "unquote 0 (c # p @ r) = map_option (Cons c) (unquote (int (length p)) (p @ r))"
    by (subst unquote_plain [OF assms(1,2)]) (simp only: assms(3), simp)
  then show ?thesis by (simp only: unquote_copy) (simp add: option.map_comp comp_def append_fun)
qed

lemma unquote_bad:
  assumes "0x20 \<le> (of_char c :: nat)" "c \<noteq> CHR 0x5C" "char_len (c # cs) = 0"
  shows "unquote 0 (c # cs) = map_option ((@) rune_error) (unquote 0 cs)"
  by (subst unquote_plain [OF assms(1,2)]) (simp only: assms(3) if_True simp_thms)

lemma unquote_ascii:
  assumes "0x20 \<le> (of_char c :: nat)" "(of_char c :: nat) < 0x80" "c \<noteq> CHR 0x5C"
  shows "unquote 0 (c # cs) = map_option (Cons c) (unquote 0 cs)"
  using unquote_run [of c "[]" cs] assms by (simp add: utf8_len_Cons rune_size_def append_fun)

lemma unquote_separator:
  assumes "u = 0x2028 \<or> u = 0x2029"
  shows "unquote 0 (utf8_encode u @ r) = map_option ((@) (utf8_encode u)) (unquote 0 r)"
  using assms unquote_run [of "CHR 0xE2" "[CHR 0x80, CHR 0xA8]" r] unquote_run [of "CHR 0xE2" "[CHR 0x80, CHR 0xA9]" r]
  by (auto simp: utf8_encode_separators utf8_len_Cons rune_size_def second_ok_def)

lemma char_len_html: "char_len (c # html_from 0 cs) = char_len (c # cs)"
  by (rule char_len_cong) (rule takeWhile_html)

lemma getu4_tail: "getu4 (a # b # c # d # t) = getu4 (a # b # c # d # t')"
  by (simp add: getu4.simps)

lemma low_half_simps:
  "low_half [] = None"
  "c \<noteq> CHR 0x5C \<Longrightarrow> low_half (c # cs) = None"
  "e \<noteq> CHR ''u'' \<Longrightarrow> low_half (CHR 0x5C # e # cs) = None"
  "getu4 cs = getu4 ds \<Longrightarrow> low_half (CHR 0x5C # CHR ''u'' # cs) = low_half (CHR 0x5C # CHR ''u'' # ds)"
  by (simp_all add: low_half_def)

lemma low_half_escape_u: "n < 0xDC00 \<Longrightarrow> low_half (escape_u n @ r) = None"
proof -
  assume n: "n < 0xDC00"
  have "take 2 (escape_u n @ r) = [CHR 0x5C, CHR ''u'']"
    "drop 2 (escape_u n @ r) = hex_digit (n div 4096 mod 16) # hex_digit (n div 256 mod 16) # hex_digit (n div 16 mod 16) # hex_digit (n mod 16) # r"
    by (simp_all add: escape_u_def)
  moreover have "n < 65536" using n by simp
  ultimately show ?thesis using n by (simp only: low_half_def getu4_digits) simp
qed

lemma html_hex4:
  assumes "getu4 (a # b # c # d # t) \<noteq> None"
  shows "html_from 0 (a # b # c # d # t) = a # b # c # d # html_from 0 t"
  using assms hex_val_ascii [of a] hex_val_ascii [of b] hex_val_ascii [of c] hex_val_ascii [of d]
  by (auto split: option.splits simp: html_ascii getu4.simps)

lemma html_backslash: "html_from 0 (CHR 0x5C # cs) = CHR 0x5C # html_from 0 cs" "html_from 0 (CHR ''u'' # cs) = CHR ''u'' # html_from 0 cs"
  by (simp_all add: html_ascii)

lemma unquote_cases:
  assumes "unquote 0 s \<noteq> None"
  obtains (empty) "s = []"
  | (escape) e t d where "s = CHR 0x5C # e # t" "short_escape e = Some d" "unquote 0 s = map_option (Cons d) (unquote 0 t)"
  | (unicode) a b c d t r where "s = CHR 0x5C # CHR ''u'' # a # b # c # d # t" "\<And>t'. getu4 (a # b # c # d # t') = Some r"
  | (char) c t where "s = c # t" "c \<noteq> CHR 0x5C"
proof (cases s)
  case (Cons c cs)
  show thesis
  proof (cases "c = CHR 0x5C")
    case True
    then obtain e t where cs: "cs = e # t" using assms Cons unquote_backslash(1) by (cases cs) auto
    show thesis
    proof (cases "e = CHR ''u''")
      case True
      then have "getu4 t \<noteq> None" using assms Cons cs \<open>c = CHR 0x5C\<close> unquote_u [of t] by (cases "getu4 t") simp_all
      then obtain r where "getu4 t = Some r" by blast
      then show thesis using unicode [of _ _ _ _ _ r] getu4_Some [of t r] Cons cs True \<open>c = CHR 0x5C\<close> by blast
    next
      case False
      then show thesis using escape [of e t] assms Cons cs True unquote_backslash(2) [OF False, of t]
        by (auto split: option.splits)
    qed
  next
    case False
    then show thesis using char Cons by blast
  qed
qed (rule empty)

lemma low_half_html:
  assumes "unquote 0 s \<noteq> None"
  shows "low_half (html_from 0 s) = low_half s"
  using assms
proof (cases rule: unquote_cases)
  case (escape e t d)
  then show ?thesis using short_escape_ascii [of e] by (simp add: html_backslash html_ascii low_half_simps)
next
  case (unicode a b c d t r)
  then show ?thesis by (simp add: html_backslash html_hex4 low_half_simps(4))
next
  case (char c t)
  then show ?thesis
    by (cases c t rule: html_from_cases) (auto simp: low_half_simps low_half_escape_u utf8_encode_separators)
qed simp

lemma drop_html_pair:
  assumes "low_half s \<noteq> None"
  obtains a b c d t where "s = CHR 0x5C # CHR ''u'' # a # b # c # d # t" "getu4 (a # b # c # d # t) \<noteq> None"
proof -
  have "take 2 s = [CHR 0x5C, CHR ''u'']" "getu4 (drop 2 s) \<noteq> None" using assms by (auto simp: low_half_def split: if_splits option.splits)
  then obtain u where u: "s = CHR 0x5C # CHR ''u'' # u" "getu4 u \<noteq> None" by (metis append_Cons append_Nil append_take_drop_id)
  then show thesis using that getu4_Some [of u] by fastforce
qed

lemma unquote_html: "unquote 0 s \<noteq> None \<Longrightarrow> unquote 0 (html_from 0 s) = unquote 0 s"
proof (induction s rule: measure_induct_rule [of length])
  case (less s)
  from less.prems show ?case
  proof (cases rule: unquote_cases)
    case (escape e t d)
    then show ?thesis using less.IH [of t] less.prems short_escape_ascii [of e] unquote_backslash(2) [of e]
      by (auto simp: html_backslash html_ascii)
  next
    case (unicode a b c d t r)
    note u = unquote_u4 [OF unicode(2)]
    have html: "html_from 0 s = CHR 0x5C # CHR ''u'' # a # b # c # d # html_from 0 t"
      using unicode by (simp add: html_backslash html_hex4)
    show ?thesis
    proof (cases "is_surrogate r \<and> r < 0xDC00 \<and> low_half t \<noteq> None")
      case True
      then obtain a' b' c' d' t' where t: "t = CHR 0x5C # CHR ''u'' # a' # b' # c' # d' # t'" "getu4 (a' # b' # c' # d' # t') \<noteq> None"
        using drop_html_pair by blast
      then have "html_from 0 t = CHR 0x5C # CHR ''u'' # a' # b' # c' # d' # html_from 0 t'"
        by (simp add: html_backslash html_hex4)
      moreover from this t have "low_half (html_from 0 t) = low_half t"
        by (simp add: low_half_simps(4) [OF getu4_tail])
      ultimately show ?thesis
        using less.IH [of t'] less.prems True t(1) unicode(1) html u by (auto)
    next
      case False
      then have "unquote 0 t \<noteq> None" using less.prems unicode(1) u by (auto split: if_splits option.splits)
      with False show ?thesis using less.IH [of t] low_half_html [of t] unicode(1) html u
        by (auto)
    qed
  next
    case (char c t)
    then have c: "0x20 \<le> (of_char c :: nat)" using unquote_control [of c t] less.prems by (cases "(of_char c :: nat) < 0x20") auto
    show ?thesis
    proof (cases c t rule: html_from_cases)
      case (sep r u)
      then have "u < 65536" "\<not> is_surrogate u" by (auto simp: is_surrogate_def)
      moreover have "unquote 0 r \<noteq> None" "length r < length s"
        using less.prems char(1) sep(1) unquote_separator [OF sep(2), of r] sep(2) by (auto simp: utf8_encode_separators)
      ultimately show ?thesis using sep unquote_escape_u [of u "html_from 0 r"] unquote_separator [OF sep(2), of r] less.IH [of r] char(1)
        by simp
    next
      case markup
      then have a: "(of_char c :: nat) < 0x80" by auto
      then have "of_char c < (65536::nat)" "\<not> is_surrogate (of_char c)" by (auto simp: is_surrogate_def)
      moreover have "unquote 0 t \<noteq> None" using less.prems char(1) unquote_ascii [OF c a char(2), of t] by auto
      ultimately show ?thesis using markup unquote_escape_u [of "of_char c" "html_from 0 t"] less.IH [of t] char(1)
          unquote_ascii [OF c a char(2), of t] utf8_encode_ascii [OF a]
        by (simp add: append_fun)
    next
      case plain
      show ?thesis
      proof (cases "char_len (c # t) = 0")
        case True
        then show ?thesis using unquote_bad [OF c char(2)] char_len_html [of c t] less.IH [of t] less.prems plain char(1) by simp
      next
        case False
        then obtain p r where p: "t = p @ r" "char_len (c # t) = Suc (length p)" "list_all cont_char p" by (rule char_len_split)
        have h: "html_from 0 t = p @ html_from 0 r" using p(1,3) by (simp add: html_conts)
        have "char_len (c # p @ html_from 0 r) = Suc (length p)" using char_len_html [of c t] p(2) unfolding h by simp
        from unquote_run [OF c char(2) this] unquote_run [OF c char(2), of p r] show ?thesis
          using p h less.IH [of r] less.prems plain char(1) by simp
      qed
    qed
  qed simp
qed

section \<open>Quoting\<close>

text \<open>Well-formed UTF-8, one character after the other.\<close>

inductive utf8_text :: "string \<Rightarrow> bool" where
  empty: "utf8_text []"
| rune: "char_len (c # p @ r) = Suc (length p) \<Longrightarrow> utf8_text r \<Longrightarrow> utf8_text (c # p @ r)"

lemma char_len_append:
  assumes "char_len (c # p @ r) = Suc (length p)"
  shows "char_len (c # p @ t) = Suc (length p)"
proof -
  let ?w = "rune_size (of_char c)"
  have nth: "map of_char (p @ x) ! i = (of_char (p ! i) :: nat)" if "i < length p" for i x
    by (simp add: nth_append that)
  have iff: "char_len (c # p @ x) = Suc (length p) \<longleftrightarrow> ?w = Suc (length p) \<and> (0 < length p \<longrightarrow> second_ok (of_char c) (of_char (p ! 0)))
      \<and> (1 < length p \<longrightarrow> cont_char (p ! 1)) \<and> (2 < length p \<longrightarrow> cont_char (p ! 2))" for x
  proof (cases "?w = Suc (length p)")
    case True
    then show ?thesis using nth [of 0 x] nth [of 1 x] nth [of 2 x]
      unfolding list.map(2) [of of_char c "p @ x"] utf8_len_Cons length_map by (cases "length p"; simp)
  qed (simp add: utf8_len_Cons)
  show ?thesis using assms unfolding iff .
qed

lemma utf8_text_ascii: "(of_char c :: nat) < 0x80 \<Longrightarrow> utf8_text r \<Longrightarrow> utf8_text (c # r)"
  using utf8_text.rune [of c "[]" r] by (simp add: utf8_len_Cons rune_size_def)

lemma utf8_text_encode:
  assumes "x < 0x110000" "\<not> is_surrogate x" "utf8_text r"
  shows "utf8_text (utf8_encode x @ r)"
proof -
  have code: "of_char (char_of n :: char) = n" if "n < 256" for n :: nat using that by simp
  have less_imp_le_63: "n < 64 \<Longrightarrow> n \<le> 63" for n :: nat by simp
  have digits: "n div m = n div (m * k) * k + n div m mod k" for n m k :: nat
    using div_mult_mod_eq [of "n div m" k] by (simp only: div_mult2_eq)
  consider "x < 0x80" | "0x80 \<le> x" "x < 0x800" | "0x800 \<le> x" "x < 0x10000" | "0x10000 \<le> x" by linarith
  then show ?thesis
  proof cases
    case 1
    then show ?thesis using utf8_text_ascii [of "char_of x" r] assms(3) by (simp add: utf8_encode_def)
  next
    case 2
    then have "0xC2 \<le> 0xC0 + x div 64" "0xC0 + x div 64 \<le> 0xDF" "x mod 64 < 64" by auto
    then have "char_len (char_of (0xC0 + x div 64) # [char_of (0x80 + x mod 64)] @ r) = Suc (length [char_of (0x80 + x mod 64) :: char])"
      using code by (simp add: utf8_len_Cons rune_size_def second_ok_def)
    from utf8_text.rune [OF this assms(3)] 2 show ?thesis by (simp add: utf8_encode_def)
  next
    case 3
    let ?a = "x div 4096" and ?b = "x div 64 mod 64"
    have "x div 64 = ?a * 64 + ?b" using digits [of x 64 64] by simp
    then have x: "x = ?a * 4096 + ?b * 64 + x mod 64" "?b < 64" "x mod 64 < 64"
      using div_mult_mod_eq [of x 64] by (simp_all only: mod_less_divisor zero_less_numeral)
    have "?a \<le> 15" "?a = 0 \<longrightarrow> 32 \<le> ?b" "?a = 13 \<longrightarrow> ?b \<le> 31"
      using x 3 assms(2) unfolding is_surrogate_def by linarith+
    then have "char_len (char_of (0xE0 + ?a) # [char_of (0x80 + ?b), char_of (0x80 + x mod 64)] @ r)
        = Suc (length [char_of (0x80 + ?b) :: char, char_of (0x80 + x mod 64)])"
      using code less_imp_le_63 [OF x(2)] less_imp_le_63 [OF x(3)] by (simp add: utf8_len_Cons rune_size_def second_ok_def)
    from utf8_text.rune [OF this assms(3)] 3 show ?thesis by (simp add: utf8_encode_def)
  next
    case 4
    let ?a = "x div 262144" and ?b = "x div 4096 mod 64" and ?c = "x div 64 mod 64"
    have "x div 64 = x div 4096 * 64 + ?c" "x div 4096 = ?a * 64 + ?b"
      using digits [of x 64 64] digits [of x 4096 64] by simp_all
    then have x: "x = ?a * 262144 + ?b * 4096 + ?c * 64 + x mod 64" "?b < 64" "?c < 64" "x mod 64 < 64"
      using div_mult_mod_eq [of x 64] by (simp_all only: mod_less_divisor zero_less_numeral)
    have "?a \<le> 4" "?a = 0 \<longrightarrow> 16 \<le> ?b" "?a = 4 \<longrightarrow> ?b \<le> 15"
      using x 4 assms(1) by linarith+
    then have "char_len (char_of (0xF0 + ?a) # [char_of (0x80 + ?b), char_of (0x80 + ?c), char_of (0x80 + x mod 64)] @ r)
        = Suc (length [char_of (0x80 + ?b) :: char, char_of (0x80 + ?c), char_of (0x80 + x mod 64)])"
      using code less_imp_le_63 [OF x(2)] less_imp_le_63 [OF x(3)] less_imp_le_63 [OF x(4)]
      by (simp add: utf8_len_Cons rune_size_def second_ok_def)
    from utf8_text.rune [OF this assms(3)] 4 show ?thesis by (simp add: utf8_encode_def)
  qed
qed

lemma hex_val_bound: "hex_val c = Some n \<Longrightarrow> n < 16"
  by (auto simp: hex_val_def Let_def split: if_splits)

lemma getu4_bound: "getu4 q = Some n \<Longrightarrow> n < 65536"
  by (cases q rule: getu4.cases) (auto simp: getu4.simps split: option.splits dest!: hex_val_bound)

lemma short_escape_values: "short_escape e = Some d \<Longrightarrow> (of_char d :: nat) < 0x80"
  by (auto simp: short_escape_def split: if_splits)

lemma utf8_text_unquote: "unquote 0 s = Some k \<Longrightarrow> utf8_text k"
proof (induction s arbitrary: k rule: measure_induct_rule [of length])
  case (less s)
  then have "unquote 0 s \<noteq> None" by simp
  then show ?case
  proof (cases rule: unquote_cases)
    case empty
    then show ?thesis using less.prems by (simp add: utf8_text.empty)
  next
    case (escape e t d)
    then obtain u where "unquote 0 t = Some u" "k = d # u" using less.prems by auto
    then show ?thesis using less.IH [of t u] escape(1) short_escape_values [OF escape(2)] utf8_text_ascii by simp
  next
    case (unicode a b c d t r)
    have r: "r < 65536" using getu4_bound [OF unicode(2)] .
    have err: "utf8_text (rune_error @ u)" if "utf8_text u" for u
      using utf8_text_encode [of "0xFFFD" u] that by (simp add: rune_error_def is_surrogate_def)
    have low: "r2 < 65536 \<and> 0xDC00 \<le> r2 \<and> r2 < 0xE000" if "low_half t = Some r2" for r2
      using that getu4_bound by (auto simp: low_half_def split: option.splits if_splits)
    have pair: "(r - 0xD800) * 1024 + (r2 - 0xDC00) + 0x10000 < 0x110000 \<and> \<not> is_surrogate ((r - 0xD800) * 1024 + (r2 - 0xDC00) + 0x10000)"
      if "low_half t = Some r2" "is_surrogate r" "r < 0xDC00" for r2
      using low [OF that(1)] that(2,3) by (simp add: is_surrogate_def) linarith
    show ?thesis using less.prems less.IH [of "drop 6 t"] less.IH [of t] unicode(1) unquote_u4 [OF unicode(2), of t] r err pair
        utf8_text_encode
      by (auto split: if_splits option.splits)
  next
    case (char c t)
    then have c: "0x20 \<le> (of_char c :: nat)" using unquote_control [of c t] less.prems by (cases "(of_char c :: nat) < 0x20") auto
    show ?thesis
    proof (cases "char_len (c # t) = 0")
      case True
      then show ?thesis using unquote_bad [OF c char(2)] less char(1) utf8_text_encode [of "0xFFFD"] 
        by (auto simp: rune_error_def is_surrogate_def)
    next
      case False
      then obtain p r where p: "t = p @ r" "char_len (c # t) = Suc (length p)" by (rule char_len_split)
      then obtain z where z: "unquote 0 r = Some z" "k = c # p @ z"
        using unquote_run [OF c char(2), of p r] less.prems char(1) by auto
      have "utf8_text z" using less.IH [of r z] z(1) p(1) char(1) by simp
      then show ?thesis using z(2) utf8_text.rune [OF char_len_append [of c p r z]] p by simp
    qed
  qed
qed

section \<open>Quoting a string\<close>

text \<open>No quotation mark ends the text, which does not end within an escape.\<close>

fun no_quote :: "bool \<Rightarrow> string \<Rightarrow> bool" where
  "no_quote e [] = (\<not> e)"
| "no_quote e (c # cs) = (if e then no_quote False cs else c \<noteq> CHR 0x22 \<and> no_quote (c = CHR 0x5C) cs)"

lemma hex_digit_plain: "hex_digit (n mod 16) \<noteq> CHR 0x22 \<and> hex_digit (n mod 16) \<noteq> CHR 0x5C"
proof -
  have "list_all (\<lambda>n. hex_digit n \<noteq> CHR 0x22 \<and> hex_digit n \<noteq> CHR 0x5C) [0..<16]" by code_simp
  then show ?thesis by (simp add: list_all_iff)
qed

lemma no_quote_escape_u: "no_quote e (escape_u n @ t) = no_quote False t"
  using hex_digit_plain [of "n div 4096"] hex_digit_plain [of "n div 256"] hex_digit_plain [of "n div 16"] hex_digit_plain [of n]
  by (simp add: escape_u_def)

lemma no_quote_conts: "list_all cont_char p \<Longrightarrow> no_quote False (p @ t) = no_quote False t"
proof (induction p)
  case (Cons a p)
  then have "a \<noteq> CHR 0x5C" "a \<noteq> CHR 0x22" by auto
  then show ?case using Cons by simp
qed simp

lemma no_quote_html: "no_quote e (html_from 0 s) = no_quote e s"
proof (induction s arbitrary: e rule: measure_induct_rule [of length])
  case (less s)
  show ?case
  proof (cases s)
    case (Cons c cs)
    show ?thesis
    proof (cases c cs rule: html_from_cases)
      case (sep r u)
      then have "length r < length s" using Cons by (auto simp: utf8_encode_separators)
      then show ?thesis using sep less.IH [of r False] Cons by (cases e) (auto simp: no_quote_escape_u utf8_encode_separators)
    next
      case markup
      then show ?thesis using less.IH [of cs False] Cons by (auto simp: no_quote_escape_u)
    next
      case plain
      then show ?thesis using less.IH [of cs] Cons by simp
    qed
  qed simp
qed

lemma quote_pos: "n > 0 \<Longrightarrow> quote_from n (c # cs) = c # quote_from (n - 1) cs"
  by (subst quote_from.simps) (simp only: if_True)

lemma quote_neg:
  assumes "n < 0" shows "quote_from n (c # cs) = quote_from (n + 1) cs"
proof -
  have "\<not> n > 0" using assms by simp
  then show ?thesis using assms by (subst quote_from.simps) (simp only: if_False if_True)
qed

lemma quote_zero: "quote_from 0 (c # cs) =
   (if c = CHR 0x22 \<or> c = CHR 0x5C then CHR 0x5C # c # quote_from 0 cs
    else if c = CHR 0x08 then CHR 0x5C # CHR ''b'' # quote_from 0 cs
    else if c = CHR 0x0C then CHR 0x5C # CHR ''f'' # quote_from 0 cs
    else if c = CHR 0x0A then CHR 0x5C # CHR ''n'' # quote_from 0 cs
    else if c = CHR 0x0D then CHR 0x5C # CHR ''r'' # quote_from 0 cs
    else if c = CHR 0x09 then CHR 0x5C # CHR ''t'' # quote_from 0 cs
    else if c < CHR 0x20 \<or> c \<in> set ''<>&'' then escape_u (of_char c) @ quote_from 0 cs
    else if take 3 (c # cs) = utf8_encode 0x2028 then escape_u 0x2028 @ quote_from (- 2) cs
    else if take 3 (c # cs) = utf8_encode 0x2029 then escape_u 0x2029 @ quote_from (- 2) cs
    else if char_len (c # cs) = 0 then escape_u 0xFFFD @ quote_from 0 cs
    else c # quote_from (int (char_len (c # cs)) - 1) cs)"
  by (subst quote_from.simps) (simp only: less_irrefl if_False Let_def utf8_encode_separators)

declare quote_from.simps(2) [simp del]

lemma quote_copy: "quote_from (int (length p)) (p @ r) = p @ quote_from 0 r"
  by (induction p) (simp_all add: quote_pos)

lemma quote_skip: "quote_from (- int (length p)) (p @ r) = quote_from 0 r"
  by (induction p) (simp_all add: quote_neg)

lemma quote_separators:
  "quote_from 0 (CHR 0xE2 # CHR 0x80 # CHR 0xA8 # r) = escape_u 0x2028 @ quote_from 0 r"
  "quote_from 0 (CHR 0xE2 # CHR 0x80 # CHR 0xA9 # r) = escape_u 0x2029 @ quote_from 0 r"
  using quote_skip [of "[CHR 0x80, CHR 0xA8]" r] quote_skip [of "[CHR 0x80, CHR 0xA9]" r]
  by (simp_all add: quote_zero utf8_encode_separators less_char_def)

lemma rune_conts:
  assumes "char_len (c # p @ r) = Suc (length p)" shows "list_all cont_char p"
proof -
  from assms have "char_len (c # p @ r) \<noteq> 0" by simp
  then obtain p' r' where "p @ r = p' @ r'" "char_len (c # p @ r) = Suc (length p')" "list_all cont_char p'" by (rule char_len_split)
  with assms show ?thesis by (metis append_eq_append_conv nat.inject)
qed

lemma rune_ascii:
  assumes "char_len (c # p @ r) = Suc (length p)" "(of_char c :: nat) < 0x80" shows "p = []"
  using assms by (simp add: utf8_len_Cons rune_size_def split: if_splits)

lemma three_bytes:
  assumes "char_len (c # p @ r) = Suc (length p)" "take 3 (c # p @ r) = [CHR 0xE2, x, y]"
  shows "c # p = [CHR 0xE2, x, y]"
proof -
  have "length p = 2" "c = CHR 0xE2" using assms by (auto simp: utf8_len_Cons rune_size_def split: if_splits)
  then show ?thesis using assms(2) by (auto simp: numeral_eq_Suc length_Suc_conv)
qed

text \<open>What the quoting of one character does.\<close>

lemma quote_rune:
  assumes "char_len (c # p @ r) = Suc (length p)"
  obtains q where "quote_from 0 (c # p @ r) = q @ quote_from 0 r"
    "\<And>t. unquote 0 (q @ t) = map_option ((@) (c # p)) (unquote 0 t)" "\<And>t. no_quote False (q @ t) = no_quote False t"
proof -
  define e where "e = (if c = CHR 0x22 \<or> c = CHR 0x5C then Some c else map_of (zip [CHR 0x08, CHR 0x0C, CHR 0x0A, CHR 0x0D, CHR 0x09] ''bfnrt'') c)"
  consider (short) x where "e = Some x" | (u) "e = None" "c < CHR 0x20 \<or> c \<in> set ''<>&''"
    | (sep) v where "c # p = utf8_encode v" "v = 0x2028 \<or> v = 0x2029"
    | (plain) "e = None" "\<not> (c < CHR 0x20 \<or> c \<in> set ''<>&'')" "c # p \<noteq> utf8_encode 0x2028" "c # p \<noteq> utf8_encode 0x2029"
    by (cases e) blast+
  then show thesis
  proof cases
    case (short x)
    then have c: "(of_char c :: nat) < 0x80" "short_escape x = Some c" "x \<noteq> CHR ''u''" "x \<noteq> CHR 0x22 \<or> x = CHR 0x22"
      by (auto simp: e_def short_escape_def split: if_splits)
    then have p: "p = []" using rune_ascii assms by blast
    have "quote_from 0 (c # r) = [CHR 0x5C, x] @ quote_from 0 r"
      using short by (auto simp: e_def quote_zero split: if_splits)
    then show thesis using that [of "[CHR 0x5C, x]"] c p unquote_backslash(2) [OF c(3)] by (simp add: append_fun)
  next
    case u
    then have c: "(of_char c :: nat) < 0x80" by (auto simp: less_char_def)
    then have p: "p = []" using rune_ascii assms by blast
    have "quote_from 0 (c # r) = escape_u (of_char c) @ quote_from 0 r"
      using u by (auto simp: e_def quote_zero split: if_splits)
    then show thesis using that [of "escape_u (of_char c)"] c p unquote_escape_u [of "of_char c"] utf8_encode_ascii [OF c]
      by (simp add: append_fun no_quote_escape_u is_surrogate_def)
  next
    case (sep v)
    then have "quote_from 0 (c # p @ r) = escape_u v @ quote_from 0 r"
      using quote_separators [of r] by (auto simp: utf8_encode_separators)
    then show thesis using that [of "escape_u v"] sep unquote_escape_u [of v] by (auto simp: no_quote_escape_u is_surrogate_def)
  next
    case plain
    have no: "take 3 (c # p @ r) \<noteq> utf8_encode 0x2028" "take 3 (c # p @ r) \<noteq> utf8_encode 0x2029"
      using plain(3,4) three_bytes [OF assms, of "CHR 0x80" "CHR 0xA8"] three_bytes [OF assms, of "CHR 0x80" "CHR 0xA9"]
      by (auto simp: utf8_encode_separators)
    have "quote_from 0 (c # p @ r) = c # quote_from (int (char_len (c # p @ r)) - 1) (p @ r)"
      using plain(1,2) assms no by (auto simp: e_def quote_zero split: if_splits)
    then have "quote_from 0 (c # p @ r) = (c # p) @ quote_from 0 r" using quote_copy [of p r] assms by simp
    moreover have "unquote 0 ((c # p) @ t) = map_option ((@) (c # p)) (unquote 0 t)" for t
      using unquote_run [of c p t] char_len_append [OF assms, of t] plain(1,2) by (auto simp: e_def less_char_def split: if_splits)
    moreover have "no_quote False ((c # p) @ t) = no_quote False t" for t
      using no_quote_conts [OF rune_conts [OF assms], of t] plain(1) by (auto simp: e_def split: if_splits)
    ultimately show thesis by (rule that)
  qed
qed

lemma unquote_quote: "utf8_text k \<Longrightarrow> unquote 0 (quote_from 0 k) = Some k \<and> no_quote False (quote_from 0 k)"
proof (induction rule: utf8_text.induct)
  case (rune c p r)
  from quote_rune [OF rune.hyps(1)] obtain q where "quote_from 0 (c # p @ r) = q @ quote_from 0 r"
    "\<And>t. unquote 0 (q @ t) = map_option ((@) (c # p)) (unquote 0 t)" "\<And>t. no_quote False (q @ t) = no_quote False t" by blast
  with rune.IH show ?case by simp
qed simp

end
