(* ===== verification/JsonTokens.thy ===== *)
theory JsonTokens
  imports JsonText
begin

text \<open>
  From texts to tokens: the raw tokens of theory \<open>CliJson\<close> and the tokens of \<open>GoJson\<close> are the same
  but for numbers, the text of each token alone lexes to it, and texts put together lex to the
  tokens put together where no two words meet.
\<close>

section \<open>Tokens and their texts\<close>

definition is_word :: "token \<Rightarrow> bool" where
  "is_word t \<longleftrightarrow> (case t of TNum _ \<Rightarrow> True | TLit _ \<Rightarrow> True | _ \<Rightarrow> False)"

text \<open>What \<open>Unmarshal\<close> into \<open>any\<close> makes of a raw token.\<close>

definition reread :: "rtok \<Rightarrow> token option" where
  "reread x = (case fst x of TNum _ \<Rightarrow> map_option TNum (parse_number (snd x)) | t \<Rightarrow> Some t)"

definition token_text :: "rtok \<Rightarrow> bool" where
  "token_text x \<longleftrightarrow>
     (case fst x of
        TPunct c \<Rightarrow> snd x = [c] \<and> c \<in> set ''{}[]:,''
      | TStr s \<Rightarrow> (\<exists>raw. snd x = CHR 0x22 # raw @ [CHR 0x22] \<and> no_quote False raw \<and> unquote 0 raw = Some s)
      | _ \<Rightarrow> snd x \<noteq> [] \<and> list_all word_char (snd x) \<and> raw_word_token (snd x) = Some x)"

lemma word_token_raw: "word_token w = (case raw_word_token w of None \<Rightarrow> None | Some x \<Rightarrow> reread x)"
  by (auto simp: word_token_def raw_word_token_def reread_def parse_number_def split: option.splits)

lemma raw_word_token_SomeD: "raw_word_token w = Some x \<Longrightarrow> snd x = w \<and> is_word (fst x)"
  by (auto simp: raw_word_token_def is_word_def split: if_splits)

lemma lex_start_cases:
  assumes "lex_start c = Some (ts, st)"
  obtains (space) "json_space c" "ts = []" "st = L0"
  | (punct) "c \<in> set ''{}[]:,''" "ts = [TPunct c]" "st = L0"
  | (quote) "ts = []" "st = LStr '''' False"
  | (word) "word_char c" "ts = []" "st = LWord [c]"
  using assms by (auto simp: lex_start_def split: if_splits)

lemma append_eta: "(@) [] = (\<lambda>x. x)"
  by (simp add: fun_eq_iff)

lemma those_append: "those (xs @ ys) = (case those xs of None \<Rightarrow> None | Some a \<Rightarrow> map_option ((@) a) (those ys))"
  by (induction xs) (auto simp: option.map_comp comp_def option.map_ident append_eta append_fun split: option.splits)

definition relex :: "rtok list \<Rightarrow> token list option" where
  "relex r = those (map reread r)"

lemma relex_simps [simp]:
  "relex [] = Some []"
  "relex (x # r) = (case reread x of None \<Rightarrow> None | Some t \<Rightarrow> map_option (Cons t) (relex r))"
  unfolding relex_def by simp_all

lemma relex_append: "relex (xs @ ys) = (case relex xs of None \<Rightarrow> None | Some a \<Rightarrow> map_option ((@) a) (relex ys))"
  unfolding relex_def by (simp add: those_append)

lemma lex_start_raw:
  "lex_start c = (case rlex_start c of None \<Rightarrow> None | Some (r, st) \<Rightarrow> map_option (\<lambda>ts. (ts, st)) (relex r))"
  by (auto simp: lex_start_def rlex_start_def reread_def)

lemma lex_step_raw:
  "lex_step st c = (case rlex_step st c of None \<Rightarrow> None | Some (r, st') \<Rightarrow> map_option (\<lambda>ts. (ts, st')) (relex r))"
proof (cases st)
  case L0
  then show ?thesis by (simp add: lex_start_raw)
next
  case (LStr raw esc)
  then show ?thesis by (auto simp: reread_def split: option.split)
next
  case (LWord w)
  then show ?thesis
    by (auto simp: word_token_raw lex_start_raw option.map_comp comp_def split: option.split prod.splits)
qed

lemma lex_raw: "lex st s = (case rlex st s of None \<Rightarrow> None | Some r \<Rightarrow> relex r)"
proof (induction s arbitrary: st)
  case Nil
  then show ?case by (cases st) (auto simp: word_token_raw split: option.split)
next
  case (Cons c s)
  show ?case
    by (auto simp: lex_step_raw Cons.IH relex_append split: option.split prod.split)
qed

section \<open>The texts the lexer cuts\<close>

fun lex_inv :: "lexst \<Rightarrow> bool" where
  "lex_inv L0 = True"
| "lex_inv (LStr raw e) = (\<forall>x. no_quote False (rev raw @ x) = no_quote e x)"
| "lex_inv (LWord w) = (w \<noteq> [] \<and> list_all word_char w)"

lemma rlex_start_ok: "rlex_start c = Some (r, st) \<Longrightarrow> lex_inv st \<and> list_all token_text r"
  by (auto simp: rlex_start_def token_text_def elim!: lex_start_cases)

lemma raw_word_text:
  assumes "raw_word_token w = Some x" "w \<noteq> []" "list_all word_char w"
  shows "token_text x"
  using raw_word_token_SomeD [OF assms(1)] assms by (auto simp: token_text_def is_word_def split: token.splits)

lemma rlex_step_ok: "rlex_step st c = Some (r, st') \<Longrightarrow> lex_inv st \<Longrightarrow> lex_inv st' \<and> list_all token_text r"
proof (cases st)
  case (LStr raw e)
  assume *: "rlex_step st c = Some (r, st')" "lex_inv st"
  then have inv: "no_quote False (rev raw @ x) = no_quote e x" for x using LStr by simp
  show ?thesis using * LStr inv inv [of "[]"] by (auto simp: token_text_def split: if_splits)
next
  case (LWord w)
  assume "rlex_step st c = Some (r, st')" "lex_inv st"
  then show ?thesis using LWord raw_word_text [of "rev w"] rlex_start_ok [of c]
    by (auto split: if_splits option.splits)
qed (simp add: rlex_start_ok)

lemma rlex_ok: "rlex st s = Some r \<Longrightarrow> lex_inv st \<Longrightarrow> list_all token_text r"
proof (induction s arbitrary: st r)
  case Nil
  then show ?case using raw_word_text by (cases st) auto
next
  case (Cons c s)
  then obtain a st' b where step: "rlex_step st c = Some (a, st')" "rlex st' s = Some b" "r = a @ b"
    by (auto split: option.splits)
  with Cons.IH [OF step(2)] Cons.prems(2) rlex_step_ok [OF step(1)] show ?case by simp
qed

section \<open>Lexing texts put together\<close>

lemma word_char_facts: "word_char c \<Longrightarrow> (of_char c :: nat) < 0x80 \<and> c \<notin> set ''<>&'' \<and> \<not> json_space c \<and> c \<notin> set ''{}[]:,'' \<and> c \<noteq> CHR 0x22"
  by (auto simp: word_char_def json_space_def)

lemma not_word_char: "c \<in> set ''{}[]:,'' \<or> c = CHR 0x22 \<Longrightarrow> \<not> word_char c"
  using word_char_facts by blast

lemma html_word: "list_all word_char w \<Longrightarrow> html_from 0 w = w"
proof (induction w)
  case (Cons c w)
  then show ?case using word_char_facts [of c] by (simp add: html_ascii)
qed simp

lemma lex_word: "list_all word_char ws \<Longrightarrow> lex (LWord acc) (ws @ rest) = lex (LWord (rev ws @ acc)) rest"
  by (induction ws arbitrary: acc) (simp_all add: option.map_ident append_eta)

lemma lex_word_end:
  assumes "rest = [] \<or> \<not> word_char (hd rest)" "word_token (rev acc) = Some t"
  shows "lex (LWord acc) rest = map_option (Cons t) (lex L0 rest)"
  using assms by (cases rest) (auto simp: option.map_comp comp_def append_fun split: option.split)

lemma lex_string:
  "no_quote e q \<Longrightarrow> unquote 0 (rev raw @ q) = Some s \<Longrightarrow>
    lex (LStr raw e) (q @ CHR 0x22 # rest) = map_option (Cons (TStr s)) (lex L0 rest)"
proof (induction q arbitrary: raw e)
  case Nil
  then show ?case by (simp add: append_fun)
next
  case (Cons c q)
  from Cons.prems have "unquote 0 (rev (c # raw) @ q) = Some s" by simp
  with Cons.IH [of False "c # raw"] Cons.IH [of "c = CHR 0x5C" "c # raw"] Cons.prems(1) show ?case
    by (auto simp: option.map_ident append_eta split: if_splits)
qed

lemma lex_punct: "c \<in> set ''{}[]:,'' \<Longrightarrow> lex L0 (c # rest) = map_option (Cons (TPunct c)) (lex L0 rest)"
  by (auto simp: lex_start_def json_space_def append_fun)

lemma lex_quote: "no_quote False q \<Longrightarrow> unquote 0 q = Some s \<Longrightarrow>
    lex L0 (CHR 0x22 # q @ CHR 0x22 # rest) = map_option (Cons (TStr s)) (lex L0 rest)"
  using lex_string [of False q "[]" s rest] by (simp add: lex_start_def json_space_def option.map_ident append_eta)

lemma lex_quoted: "utf8_text k \<Longrightarrow> lex L0 (json_quote k @ rest) = map_option (Cons (TStr k)) (lex L0 rest)"
  using lex_quote [of "quote_from 0 k" k rest] unquote_quote [of k] by (simp add: json_quote_def)

lemma html_separator: "u = 0x2028 \<or> u = 0x2029 \<Longrightarrow> html_from 0 (utf8_encode u @ r) = escape_u u @ html_from 0 r"
  using html_skip [of "[CHR 0x80, CHR 0xA8]" r] html_skip [of "[CHR 0x80, CHR 0xA9]" r]
  by (auto simp: utf8_encode_separators html_from.simps(2) numeral_2_eq_2)

lemma html_closing: "html_from 0 (s @ [CHR 0x22]) = html_from 0 s @ [CHR 0x22]"
proof (induction s rule: measure_induct_rule [of length])
  case (less s)
  show ?case
  proof (cases s)
    case (Cons c cs)
    have IH: "html_from 0 (cs @ [CHR 0x22]) = html_from 0 cs @ [CHR 0x22]" using less.IH [of cs] Cons by simp
    show ?thesis
    proof (cases c cs rule: html_from_cases)
      case (sep r u)
      then have "s @ [CHR 0x22] = utf8_encode u @ (r @ [CHR 0x22])" "length r < length s" using Cons by (auto simp: utf8_encode_separators)
      then show ?thesis using sep Cons less.IH [of r] by (simp add: html_separator)
    next
      case markup
      then have "html_from 0 (c # cs @ [CHR 0x22]) = escape_u (of_char c) @ html_from 0 (cs @ [CHR 0x22])"
        by (cases c "cs @ [CHR 0x22]" rule: html_from_cases) (auto simp: utf8_encode_separators)
      then show ?thesis using markup Cons IH by simp
    next
      case plain
      have "html_from 0 (c # cs @ [CHR 0x22]) = c # html_from 0 (cs @ [CHR 0x22])"
      proof (cases c "cs @ [CHR 0x22]" rule: html_from_cases)
        case (sep r u)
        then have "r \<noteq> []" by (cases cs rule: rev_cases) (auto simp: utf8_encode_separators)
        then obtain r' d where "r = r' @ [d]" by (metis rev_exhaust)
        then have "c # cs = utf8_encode u @ r'" using sep(1) by (metis append_Cons append_assoc butlast_snoc)
        then show ?thesis using plain(2) sep(2) html_separator [OF sep(2), of r'] by (auto simp: utf8_encode_separators escape_u_def)
      qed (use plain in auto)
      then show ?thesis using plain Cons IH by simp
    qed
  qed (simp add: html_ascii)
qed

lemma lex_word_token:
  assumes "w \<noteq> []" "list_all word_char w" "raw_word_token w = Some x" "reread x = Some t" "rest = [] \<or> \<not> word_char (hd rest)"
  shows "lex L0 (html_escape w @ rest) = map_option (Cons t) (lex L0 rest)"
proof -
  obtain c cs where w: "w = c # cs" using assms(1) by (cases w) auto
  then have c: "word_char c" "list_all word_char cs" using assms(2) by simp_all
  have "lex L0 (c # cs @ rest) = lex (LWord [c]) (cs @ rest)"
    using word_char_facts [OF c(1)] c(1) by (simp add: lex_start_def option.map_ident append_eta)
  also have "\<dots> = lex (LWord (rev w)) rest" using lex_word [OF c(2)] by (simp add: w)
  also have "\<dots> = map_option (Cons t) (lex L0 rest)"
    using assms(3-5) by (intro lex_word_end) (simp_all add: word_token_raw)
  finally show ?thesis using html_word [OF assms(2)] by (simp add: html_escape_def w)
qed

lemma lex_token:
  assumes "token_text x" "reread x = Some t" "is_word (fst x) \<Longrightarrow> rest = [] \<or> \<not> word_char (hd rest)"
  shows "lex L0 (html_escape (snd x) @ rest) = map_option (Cons t) (lex L0 rest)"
proof (cases "fst x")
  case (TPunct c)
  then have "snd x = [c]" "c \<in> set ''{}[]:,''" "t = TPunct c" using assms(1,2) by (simp_all add: token_text_def reread_def)
  moreover have "html_from 0 [c] = [c]" using calculation(2) by (auto simp: html_ascii)
  ultimately show ?thesis using lex_punct by (simp add: html_escape_def)
next
  case (TStr s)
  then obtain raw where raw: "snd x = CHR 0x22 # raw @ [CHR 0x22]" "no_quote False raw" "unquote 0 raw = Some s" "t = TStr s"
    using assms(1,2) by (auto simp: token_text_def reread_def)
  then show ?thesis using lex_quote [of "html_from 0 raw" s rest] unquote_html [of raw]
    by (simp add: html_escape_def html_ascii no_quote_html html_closing)
next
  case (TNum n)
  then have "is_word (fst x)" "snd x \<noteq> []" "list_all word_char (snd x)" "raw_word_token (snd x) = Some x"
    using assms(1) by (simp_all add: token_text_def is_word_def)
  with assms(2,3) show ?thesis by (intro lex_word_token)
next
  case (TLit v)
  then have "is_word (fst x)" "snd x \<noteq> []" "list_all word_char (snd x)" "raw_word_token (snd x) = Some x"
    using assms(1) by (simp_all add: token_text_def is_word_def)
  with assms(2,3) show ?thesis by (intro lex_word_token)
qed

fun apart :: "rtok list \<Rightarrow> bool" where
  "apart (x # y # r) = (\<not> (is_word (fst x) \<and> is_word (fst y)) \<and> apart (y # r))"
| "apart _ = True"

lemma token_head:
  assumes "token_text y" "\<not> is_word (fst y)"
  shows "\<not> word_char (hd (html_escape (snd y) @ rest))"
proof (cases "fst y")
  case (TPunct c)
  then have "snd y = [c]" "c \<in> set ''{}[]:,''" using assms(1) by (simp_all add: token_text_def)
  moreover have "html_from 0 [c] = [c]" using calculation(2) by (auto simp: html_ascii)
  ultimately show ?thesis using not_word_char [of c] by (simp add: html_escape_def)
next
  case (TStr s)
  then obtain raw where "snd y = CHR 0x22 # raw @ [CHR 0x22]" using assms(1) by (auto simp: token_text_def)
  then show ?thesis using not_word_char [of "CHR 0x22"] by (simp add: html_escape_def html_ascii)
qed (use assms(2) in \<open>simp_all add: is_word_def\<close>)

lemma lex_raw_text:
  "list_all token_text v \<Longrightarrow> relex v = Some ts \<Longrightarrow> apart v \<Longrightarrow> rest = [] \<or> \<not> word_char (hd rest) \<Longrightarrow>
    lex L0 (raw_text v @ rest) = map_option ((@) ts) (lex L0 rest)"
proof (induction v arbitrary: ts)
  case Nil
  then show ?case by (simp add: raw_text_def option.map_ident append_eta)
next
  case (Cons x v)
  then obtain t us where t: "reread x = Some t" "relex v = Some us" "ts = t # us"
    by (auto split: option.splits)
  have "raw_text v @ rest = [] \<or> \<not> word_char (hd (raw_text v @ rest))" if "is_word (fst x)"
  proof (cases v)
    case Nil
    then show ?thesis using Cons.prems(4) by (simp add: raw_text_def)
  next
    case (Cons y w)
    then have "token_text y" "\<not> is_word (fst y)" using Cons.prems(1,3) that by auto
    from token_head [OF this, of "raw_text w @ rest"] show ?thesis using Cons by (simp add: raw_text_def)
  qed
  then have "lex L0 (raw_text (x # v) @ rest) = map_option (Cons t) (lex L0 (raw_text v @ rest))"
    using lex_token [of x t "raw_text v @ rest"] Cons.prems(1) t(1) by (simp add: raw_text_def)
  moreover have "apart v" using Cons.prems(3) by (cases v) auto
  ultimately show ?case using Cons.IH [OF _ t(2)] Cons.prems(1,4) t(3) by (simp add: option.map_comp comp_def append_fun)
qed

section \<open>Lexing around a text\<close>

lemma lex_space: "list_all json_space ws \<Longrightarrow> lex L0 (ws @ rest) = lex L0 rest"
  by (induction ws) (simp_all add: lex_start_def option.map_ident append_eta)

lemma lex_then_punct:
  "lex st s = Some ts \<Longrightarrow> c \<in> set ''{}[]:,'' \<Longrightarrow> lex st (s @ c # rest) = map_option ((@) ts) (lex L0 (c # rest))"
proof (induction s arbitrary: st ts)
  case Nil
  show ?case
  proof (cases st)
    case L0
    then show ?thesis using Nil by (simp add: option.map_ident append_eta)
  next
    case (LStr raw e)
    then show ?thesis using Nil by simp
  next
    case (LWord w)
    then obtain t where "word_token (rev w) = Some t" "ts = [t]" using Nil(1) by auto
    then show ?thesis using lex_word_end [of "c # rest" w t] Nil(2) not_word_char [of c] LWord by (simp add: append_fun append_eta)
  qed
next
  case (Cons d s)
  then obtain a st' b where "lex_step st d = Some (a, st')" "lex st' s = Some b" "ts = a @ b" by (auto split: option.splits)
  with Cons.IH [of st' b] Cons.prems(2) show ?case by (simp add: option.map_comp comp_def)
qed

end
