(* ===== verification/JsonRoundtrip.thy ===== *)
theory JsonRoundtrip
  imports JsonTokens
begin

text \<open>
  From tokens to values: the members that \<open>Unmarshal\<close> into raw messages cuts out of an object are the
  values of its members, and what \<open>Marshal\<close> and \<open>MarshalIndent\<close> write of raw messages reads as the
  object or the array of their values.
\<close>

section \<open>The structure of parsed tokens\<close>

definition tok_val :: "rtok \<Rightarrow> token" where
  "tok_val x = the (reread x)"

lemma relex_val: "relex r = Some ts \<longleftrightarrow> list_all (\<lambda>x. reread x \<noteq> None) r \<and> ts = map tok_val r"
  by (induction r arbitrary: ts) (auto simp: tok_val_def split: option.splits)

lemma tok_val_simps:
  assumes "reread x \<noteq> None"
  shows "tok_val x = TPunct c \<longleftrightarrow> fst x = TPunct c" "tok_val x = TStr s \<longleftrightarrow> fst x = TStr s" "is_word (tok_val x) = is_word (fst x)"
    "opens (tok_val x) = opens (fst x)" "closes (tok_val x) = closes (fst x)"
  using assms by (cases "fst x"; auto simp: tok_val_def reread_def is_word_def opens_def closes_def)+

lemma prun_append: "prun s (ts @ us) = (case prun s ts of None \<Rightarrow> None | Some s' \<Rightarrow> prun s' us)"
  by (induction ts arbitrary: s) (auto split: option.splits)

text \<open>No two words follow each other where the parser goes on.\<close>

lemma pstep_word: "pstep (m, stk) t = Some s \<Longrightarrow> is_word t \<Longrightarrow> \<exists>v stk'. s = (PAfter v, stk')"
  by (cases "((m, stk), t)" rule: pstep.cases; cases t; auto simp: is_word_def pvalue_def split: if_splits)

lemma pstep_after: "pstep (PAfter v, stk) t = Some s \<Longrightarrow> \<not> is_word t"
  by (auto simp: is_word_def split: token.splits)

lemma prun_apart:
  "prun s (map tok_val v) \<noteq> None \<Longrightarrow> list_all (\<lambda>x. reread x \<noteq> None) v \<Longrightarrow> apart v"
proof (induction v arbitrary: s rule: apart.induct)
  case (1 x y r)
  obtain s' where s': "pstep s (tok_val x) = Some s'" "prun s' (map tok_val (y # r)) \<noteq> None"
    using "1.prems"(1) by (auto split: option.splits)
  have "\<not> (is_word (fst x) \<and> is_word (fst y))"
  proof
    assume "is_word (fst x) \<and> is_word (fst y)"
    then have w: "is_word (tok_val x)" "is_word (tok_val y)" using "1.prems"(2) tok_val_simps(3) by auto
    obtain v stk where "s' = (PAfter v, stk)" using pstep_word [of "fst s" "snd s" "tok_val x"] s'(1) w(1) by auto
    moreover obtain s'' where "pstep s' (tok_val y) = Some s''" using s'(2) by (auto split: option.splits)
    ultimately show False using pstep_after w(2) by blast
  qed
  then show ?case using "1.IH" [OF s'(2)] "1.prems"(2) by simp
qed simp_all

text \<open>A step inside a value leaves the frame below it alone.\<close>

definition inner_step :: "pmode \<Rightarrow> frame list \<Rightarrow> token \<Rightarrow> frame \<Rightarrow> pmode \<times> frame list \<Rightarrow> bool" where
  "inner_step m fr t B s \<longleftrightarrow> (\<exists>m' fr'. s = (m', fr' @ [B]) \<and> (\<forall>F. pstep (m, fr @ [F]) t = Some (m', fr' @ [F]))
     \<and> (fr' = [] \<longrightarrow> (\<exists>x. m' = PAfter x))
     \<and> length fr' = (if opens t then length fr + 1 else if closes t then length fr - 1 else length fr))"

lemma pvalue_inner:
  assumes "pvalue (fr @ [B]) t = Some s"
  obtains m' pre where "s = (m', pre @ fr @ [B])" "\<And>F. pvalue (fr @ [F]) t = Some (m', pre @ fr @ [F])"
    "pre = [] \<longrightarrow> (\<exists>x. m' = PAfter x)" "length pre = (if opens t then 1 else 0)" "\<not> closes t"
proof (cases "opens t")
  case True
  then consider "t = TPunct (CHR ''{'')" | "t = TPunct (CHR ''['')" by (auto simp: opens_def)
  then show thesis
    using assms that [of PKeyOrEnd "[FObj [] '''']"] that [of PValOrEnd "[FArr []]"]
    by cases (auto simp: pvalue_def opens_def closes_def split: if_splits)
next
  case False
  then show thesis using assms that [of "fst s" "[]"]
    by (cases t) (auto simp: pvalue_def opens_def closes_def split: if_splits)
qed

lemma pstep_inner:
  assumes "pstep (m, fr @ [B]) t = Some s" "fr = [] \<longrightarrow> m = PVal"
  shows "inner_step m fr t B s"
proof -
  have by_value: "inner_step m fr t B s" if eq: "\<And>F. pstep (m, fr @ [F]) t = pvalue (fr @ [F]) t"
  proof -
    have "pvalue (fr @ [B]) t = Some s" using assms(1) eq by simp
    then show ?thesis
    proof (rule pvalue_inner)
      fix m' pre
      assume *: "s = (m', pre @ fr @ [B])" "\<And>F. pvalue (fr @ [F]) t = Some (m', pre @ fr @ [F])"
        "pre = [] \<longrightarrow> (\<exists>x. m' = PAfter x)" "length pre = (if opens t then 1 else 0)" "\<not> closes t"
      then show ?thesis unfolding inner_step_def by (intro exI [of _ m'] exI [of _ "pre @ fr"]) (simp add: eq)
    qed
  qed
  show ?thesis
  proof (cases fr)
    case Nil
    then show ?thesis using by_value assms(2) by simp
  next
    case (Cons f fs)
    show ?thesis
    proof (cases m)
      case PVal
      then show ?thesis using by_value by simp
    next
      case PValOrEnd
      show ?thesis
      proof (cases "t = TPunct (CHR '']'')")
        case True
        then show ?thesis using assms(1) PValOrEnd Cons by (auto simp: inner_step_def opens_def closes_def)
      qed (use by_value PValOrEnd in simp)
    next
      case PKeyOrEnd
      then show ?thesis using assms(1) Cons
        by (cases f; cases t) (auto simp: inner_step_def opens_def closes_def split: if_splits)
    next
      case PKey
      then show ?thesis using assms(1) Cons
        by (cases f; cases t) (auto simp: inner_step_def opens_def closes_def split: if_splits)
    next
      case PColon
      then show ?thesis using assms(1) Cons by (auto simp: inner_step_def opens_def closes_def split: if_splits)
    next
      case (PAfter v)
      then show ?thesis using assms(1) Cons
        by (cases f; cases t) (auto simp: inner_step_def opens_def closes_def split: if_splits)
    qed
  qed
qed

definition value_of :: "rtok list \<Rightarrow> json \<Rightarrow> bool" where
  "value_of v x \<longleftrightarrow> (\<forall>F. prun (PVal, [F]) (map tok_val v) = Some (PAfter x, [F]))"

definition tok_good :: "rtok \<Rightarrow> bool" where
  "tok_good x \<longleftrightarrow> token_text x \<and> reread x \<noteq> None"

definition member_rel :: "string \<times> rtok list \<Rightarrow> string \<times> json \<Rightarrow> bool" where
  "member_rel kv kx \<longleftrightarrow> fst kv = fst kx \<and> utf8_text (fst kv) \<and> list_all tok_good (snd kv) \<and> value_of (snd kv) (snd kx)"

abbreviation put_all :: "(string \<times> json) list \<Rightarrow> (string \<times> json) list \<Rightarrow> (string \<times> json) list" where
  "put_all \<equiv> foldl (\<lambda>es (k, x). obj_put es k x)"

lemma tok_good_key: "tok_good x \<Longrightarrow> fst x = TStr k \<Longrightarrow> utf8_text k"
  by (auto simp: tok_good_def token_text_def dest: utf8_text_unquote)

lemma tok_good_val:
  assumes "tok_good x"
  shows "tok_val x = TPunct c \<longleftrightarrow> fst x = TPunct c" "tok_val x = TStr s \<longleftrightarrow> fst x = TStr s" "is_word (tok_val x) = is_word (fst x)"
    "opens (tok_val x) = opens (fst x)" "closes (tok_val x) = closes (fst x)"
  using tok_val_simps [of x] assms by (simp_all add: tok_good_def)

lemma prun_finished: "prun (PAfter x, []) ts = Some s \<Longrightarrow> ts = [] \<and> s = (PAfter x, [])"
  by (cases ts) (auto split: option.splits token.splits)

lemma prun_Cons: "prun s (t # ts) = Some s' \<Longrightarrow> \<exists>s1. pstep s t = Some s1 \<and> prun s1 ts = Some s'"
  by (auto split: option.splits)

lemma members_run:
  assumes "prun (m, fr @ [FObj es k]) (map tok_val r) = Some (PAfter y, [])" "fr = [] \<longrightarrow> m = PVal \<or> (\<exists>x. m = PAfter x)"
    and "\<And>F. prun (PVal, [F]) (map tok_val v) = Some (m, fr @ [F])" "list_all tok_good r" "list_all tok_good v" "utf8_text k" "fst K = TStr k"
  shows "\<exists>xs. list_all2 member_rel (map member_of (split_commas (length fr) (rev v @ [C, K]) (butlast r))) xs
    \<and> y = JObj (put_all es xs) \<and> r \<noteq> []"
  using assms
proof (induction r arbitrary: m fr es k v K C rule: measure_induct_rule [of length])
  case (less r)
  show ?case
  proof (cases r)
    case Nil
    then show ?thesis using less.prems(1) by simp
  next
    case (Cons t r')
    then obtain s where s: "pstep (m, fr @ [FObj es k]) (tok_val t) = Some s" "prun s (map tok_val r') = Some (PAfter y, [])"
      using less.prems(1) prun_Cons by fastforce
    have t: "tok_good t" "list_all tok_good r'" using less.prems(4) Cons by simp_all
    show ?thesis
    proof (cases "fr = [] \<and> m \<noteq> PVal")
      case True
      then obtain x where x: "m = PAfter x" using less.prems(2) by blast
      have vx: "value_of v x" using less.prems(3) True x by (simp add: value_of_def)
      have mem: "member_rel (member_of (K # C # v)) (k, x)"
        using vx less.prems(5-7) by (cases K) (simp add: member_rel_def)
      obtain c where c: "tok_val t = TPunct c" using s(1) True x by (auto split: token.splits)
      then consider "c = CHR ''}''" "s = (PAfter (JObj (obj_put es k x)), [])" | "c = CHR '',''" "s = (PKey, [FObj (obj_put es k x) ''''])"
        using s(1) True x by (auto split: if_splits)
      then show ?thesis
      proof cases
        case 1
        then have "r' = []" "y = JObj (obj_put es k x)" using prun_finished s(2) by fastforce+
        then show ?thesis using Cons True mem by (intro exI [of _ "[(k, x)]"]) simp
      next
        case 2
        have "r' \<noteq> []" using s(2) 2 by auto
        then obtain K2 r1 where K2: "r' = K2 # r1" by (cases r') auto
        then obtain s1 where s1: "pstep s (tok_val K2) = Some s1" "prun s1 (map tok_val r1) = Some (PAfter y, [])"
          using s(2) prun_Cons by fastforce
        then obtain k2 where k2: "tok_val K2 = TStr k2" "s1 = (PColon, [FObj (obj_put es k x) k2])"
          using 2 by (auto split: token.splits)
        then have "r1 \<noteq> []" using s1(2) by auto
        then obtain C2 r2 where C2: "r1 = C2 # r2" by (cases r1) auto
        then obtain s2 where s2: "pstep s1 (tok_val C2) = Some s2" "prun s2 (map tok_val r2) = Some (PAfter y, [])"
          using s1(2) prun_Cons by fastforce
        then have c2: "tok_val C2 = TPunct (CHR '':'')" "s2 = (PVal, [FObj (obj_put es k x) k2])"
          using k2(2) by (auto split: if_splits)
        have g: "tok_good K2" "tok_good C2" "list_all tok_good r2" using t(2) K2 C2 by simp_all
        have kt: "fst K2 = TStr k2" "fst C2 = TPunct (CHR '':'')" "fst t = TPunct (CHR '','')"
          using tok_good_val g(1,2) t(1) k2(1) c2(1) c 2(1) by blast+
        have "length r2 < length r" using Cons K2 C2 by simp
        from less.IH [OF this, of PVal "[]" "obj_put es k x" k2 "[]" K2 C2] obtain xs where
          xs: "list_all2 member_rel (map member_of (split_commas 0 [C2, K2] (butlast r2))) xs"
            "y = JObj (put_all (obj_put es k x) xs)" "r2 \<noteq> []"
          using s2(2) c2(2) g(3) tok_good_key [OF g(1) kt(1)] kt(1) by auto
        have "split_commas (length fr) (rev v @ [C, K]) (butlast r) = (K # C # v) # split_commas 0 [C2, K2] (butlast r2)"
          using True kt Cons K2 C2 xs(3) by (simp add: opens_def closes_def)
        then show ?thesis using xs mem Cons by (intro exI [of _ "(k, x) # xs"]) simp
      qed
    next
      case False
      then have "fr = [] \<longrightarrow> m = PVal" by simp
      from pstep_inner [OF s(1) this] obtain m' fr' where step: "s = (m', fr' @ [FObj es k])"
        "\<And>F. pstep (m, fr @ [F]) (tok_val t) = Some (m', fr' @ [F])" "fr' = [] \<longrightarrow> (\<exists>x. m' = PAfter x)"
        "length fr' = (if opens (tok_val t) then length fr + 1 else if closes (tok_val t) then length fr - 1 else length fr)"
        unfolding inner_step_def by blast
      have "\<And>F. prun (PVal, [F]) (map tok_val (v @ [t])) = Some (m', fr' @ [F])"
        using less.prems(3) step(2) by (simp add: prun_append)
      moreover have "list_all tok_good (v @ [t])" using less.prems(5) t(1) by simp
      moreover have "fr' = [] \<longrightarrow> m' = PVal \<or> (\<exists>x. m' = PAfter x)" "prun (m', fr' @ [FObj es k]) (map tok_val r') = Some (PAfter y, [])"
        "length r' < length r" using step(1,3) s(2) Cons by simp_all
      ultimately obtain xs where xs: "list_all2 member_rel (map member_of (split_commas (length fr') (rev (v @ [t]) @ [C, K]) (butlast r'))) xs"
        "y = JObj (put_all es xs)" "r' \<noteq> []"
        using less.IH [of r' m' fr' es k "v @ [t]" K C] t(2) less.prems(6,7) by blast
      have "\<not> (length fr = 0 \<and> fst t = TPunct (CHR '',''))"
      proof
        assume *: "length fr = 0 \<and> fst t = TPunct (CHR '','')"
        then have "tok_val t = TPunct (CHR '','')" using tok_good_val(1) [OF t(1)] by simp
        then show False using s(1) * False by (simp add: pvalue_def split: if_splits)
      qed
      then have "split_commas (length fr) (rev v @ [C, K]) (butlast r) = split_commas (length fr') (rev (v @ [t]) @ [C, K]) (butlast r')"
        using Cons xs(3) step(4) tok_good_val(4,5) [OF t(1)] by auto
      then show ?thesis using xs Cons by auto
    qed
  qed
qed

lemma object_members_rel:
  assumes "list_all tok_good r" "prun (PVal, []) (map tok_val r) = Some (PAfter y, [])" "is_object r"
  shows "\<exists>xs. list_all2 member_rel (object_members r) xs \<and> y = JObj (put_all [] xs)"
proof -
  obtain t r1 where r: "r = t # r1" "fst t = TPunct (CHR ''{'')" using assms(3) by (auto simp: is_object_def split: list.splits)
  then have g: "tok_good t" "list_all tok_good r1" using assms(1) by simp_all
  then have "tok_val t = TPunct (CHR ''{'')" using tok_good_val(1) r(2) by blast
  then have r1: "prun (PKeyOrEnd, [FObj [] '''']) (map tok_val r1) = Some (PAfter y, [])"
    using assms(2) r by (simp add: pvalue_def maxNestingDepth_def)
  then obtain K r2 where r2: "r1 = K # r2" by (cases r1) auto
  then obtain s where s: "pstep (PKeyOrEnd, [FObj [] '''']) (tok_val K) = Some s" "prun s (map tok_val r2) = Some (PAfter y, [])"
    using prun_Cons [OF r1 [unfolded r2 list.map]] by blast
  then consider k where "tok_val K = TStr k" "s = (PColon, [FObj [] k])" | "tok_val K = TPunct (CHR ''}'')" "s = (PAfter (JObj []), [])"
    by (auto split: token.splits if_splits)
  then show ?thesis
  proof cases
    case (1 k)
    then obtain C r3 where r3: "r2 = C # r3" using s(2) by (cases r2) auto
    then obtain s2 where s2: "pstep s (tok_val C) = Some s2" "prun s2 (map tok_val r3) = Some (PAfter y, [])"
      using s(2) prun_Cons by fastforce
    then have c: "tok_val C = TPunct (CHR '':'')" "s2 = (PVal, [FObj [] k])" using 1 by (auto split: if_splits)
    have gs: "tok_good K" "tok_good C" "list_all tok_good r3" using g(2) r2 r3 by simp_all
    have kt: "fst K = TStr k" "fst C = TPunct (CHR '':'')" using tok_good_val gs(1,2) 1(1) c(1) by blast+
    from members_run [of PVal "[]" "[]" k r3 y "[]" K C] obtain xs where
      xs: "list_all2 member_rel (map member_of (split_commas 0 [C, K] (butlast r3))) xs" "y = JObj (put_all [] xs)" "r3 \<noteq> []"
      using s2(2) c(2) gs(3) tok_good_key [OF gs(1) kt(1)] kt(1) by auto
    have "object_members r = map member_of (split_commas 0 [C, K] (butlast r3))"
      using r r2 r3 kt xs(3) by (simp add: object_members_def opens_def closes_def)
    then show ?thesis using xs by auto
  next
    case 2
    then have "r2 = []" "y = JObj []" using prun_finished s(2) by fastforce+
    then show ?thesis using r r2 by (intro exI [of _ "[]"]) (simp add: object_members_def)
  qed
qed

text \<open>Only an object gives an object.\<close>

lemma array_run:
  "prun (m, fr @ [FArr vs]) ts = Some (PAfter y, []) \<Longrightarrow>
    fr = [] \<longrightarrow> m = PVal \<or> m = PValOrEnd \<or> (\<exists>x. m = PAfter x) \<Longrightarrow> \<exists>us. y = JArr us"
proof (induction ts arbitrary: m fr vs)
  case (Cons t ts)
  then obtain s where s: "pstep (m, fr @ [FArr vs]) t = Some s" "prun s ts = Some (PAfter y, [])" using prun_Cons [OF Cons.prems(1)] by blast
  show ?case
  proof (cases "fr = [] \<and> ((\<exists>x. m = PAfter x) \<or> m = PValOrEnd \<and> t = TPunct (CHR '']''))")
    case True
    then have "(\<exists>us. s = (PAfter (JArr us), [])) \<or> (\<exists>us. s = (PVal, [FArr us]))"
      using s(1) by (auto split: token.splits if_splits)
    then show ?thesis using s(2) Cons.IH [of PVal "[]"] prun_finished by fastforce
  next
    case False
    have "\<exists>m' fr'. s = (m', fr' @ [FArr vs]) \<and> (fr' = [] \<longrightarrow> (\<exists>x. m' = PAfter x))"
    proof (cases "fr = [] \<and> m = PValOrEnd")
      case True
      then have "pstep (PVal, [] @ [FArr vs]) t = Some s" using False s(1) by auto
      from pstep_inner [OF this] show ?thesis unfolding inner_step_def by blast
    next
      case no: False
      then have "fr = [] \<longrightarrow> m = PVal" using False Cons.prems(2) by blast
      from pstep_inner [OF s(1) this] show ?thesis unfolding inner_step_def by blast
    qed
    then obtain m' fr' where "s = (m', fr' @ [FArr vs])" "fr' = [] \<longrightarrow> (\<exists>x. m' = PAfter x)" by blast
    with s(2) Cons.IH [of m' fr' vs] show ?thesis by blast
  qed
qed simp

lemma object_first:
  assumes "list_all tok_good r" "prun (PVal, []) (map tok_val r) = Some (PAfter (JObj es), [])"
  shows "is_object r \<and> \<not> is_null r"
proof -
  obtain t r1 where r: "r = t # r1" using assms(2) by (cases r) auto
  then have g: "tok_good t" using assms(1) by simp
  obtain s where s: "pstep (PVal, []) (tok_val t) = Some s" "prun s (map tok_val r1) = Some (PAfter (JObj es), [])"
    using prun_Cons [OF assms(2) [unfolded r list.map]] by blast
  have "tok_val t = TPunct (CHR ''{'')"
  proof (cases "tok_val t")
    case (TPunct c)
    then have "c = CHR ''{'' \<or> c = CHR ''['' \<and> s = (PValOrEnd, [FArr []])" using s(1) by (auto simp: pvalue_def split: if_splits)
    then show ?thesis using array_run [of PValOrEnd "[]" "[]" "map tok_val r1" "JObj es"] s(2) TPunct by auto
  next
    case (TLit v)
    then have "s = (PAfter v, [])" using s(1) by (simp add: pvalue_def)
    then have "v = JObj es" using s(2) prun_finished by fastforce
    moreover have "fst t = TLit v" using TLit g by (auto simp: tok_good_def tok_val_def reread_def split: token.splits)
    ultimately show ?thesis using g by (cases t) (auto simp: tok_good_def token_text_def raw_word_token_def split: if_splits)
  next
    case (TStr k)
    then have "s = (PAfter (JStr k), [])" using s(1) by (simp add: pvalue_def)
    then show ?thesis using prun_finished s(2) by blast
  next
    case (TNum n)
    then have "s = (PAfter (JNum n), [])" using s(1) by (simp add: pvalue_def)
    then show ?thesis using prun_finished s(2) by blast
  qed
  then have "fst t = TPunct (CHR ''{'')" using tok_good_val(1) [OF g] by blast
  then show ?thesis using r by (cases t) (simp add: is_object_def is_null_def)
qed

section \<open>Checking without numbers\<close>

fun token_shape :: "token \<Rightarrow> token" where
  "token_shape (TNum _) = TNum (F64 0 0)"
| "token_shape t = t"

fun frame_shape :: "frame \<Rightarrow> bool" where
  "frame_shape (FArr _) = True"
| "frame_shape (FObj _ _) = False"

fun same_mode :: "pmode \<Rightarrow> pmode \<Rightarrow> bool" where
  "same_mode (PAfter _) m = (\<exists>v. m = PAfter v)"
| "same_mode m m' = (m = m')"

definition same_state :: "pmode \<times> frame list \<Rightarrow> pmode \<times> frame list \<Rightarrow> bool" where
  "same_state s s' \<longleftrightarrow> same_mode (fst s) (fst s') \<and> map frame_shape (snd s) = map frame_shape (snd s')"

lemma pvalue_shape: "map frame_shape stk = map frame_shape stk' \<Longrightarrow> token_shape t = token_shape t' \<Longrightarrow>
    rel_option same_state (pvalue stk t) (pvalue stk' t')"
  by (cases t; cases t') (auto simp: pvalue_def same_state_def dest: map_eq_imp_length_eq)

lemma frames_shape_Cons: "frame_shape f # map frame_shape fs = map frame_shape stk \<Longrightarrow>
    \<exists>f' fs'. stk = f' # fs' \<and> frame_shape f' = frame_shape f \<and> map frame_shape fs' = map frame_shape fs"
  by (cases stk) auto

lemma pstep_shape:
  assumes "same_state (m, stk) (m', stk')" "token_shape t = token_shape t'"
  shows "rel_option same_state (pstep (m, stk) t) (pstep (m', stk') t')"
proof -
  note shapes = assms [unfolded same_state_def, simplified]
  note pv = pvalue_shape [OF conjunct2 [OF shapes(1)] shapes(2)]
  have punct: "t = TPunct c \<longleftrightarrow> t' = TPunct c" for c using shapes(2) by (cases t; cases t') auto
  have str: "t = TStr k \<longleftrightarrow> t' = TStr k" for k using shapes(2) by (cases t; cases t') auto
  have tl: "map frame_shape (tl stk) = map frame_shape (tl stk')" using shapes(1) by (metis map_tl)
  show ?thesis
  proof (cases m)
    case PVal
    then show ?thesis using pv shapes by simp
  next
    case PValOrEnd
    then show ?thesis using pv shapes punct tl by (auto simp: same_state_def)
  next
    case PKeyOrEnd
    then show ?thesis using shapes
      by (cases stk; cases stk'; cases "hd stk"; cases "hd stk'"; cases t; cases t') (auto simp: same_state_def)
  next
    case PKey
    then show ?thesis using shapes
      by (cases stk; cases stk'; cases "hd stk"; cases "hd stk'"; cases t; cases t') (auto simp: same_state_def)
  next
    case PColon
    then show ?thesis using shapes punct by (auto simp: same_state_def)
  next
    case (PAfter v)
    then obtain v' where "m' = PAfter v'" using shapes by auto
    then show ?thesis using shapes PAfter
      by (cases stk; cases stk'; cases "hd stk"; cases "hd stk'"; cases t; cases t') (auto simp: same_state_def)
  qed
qed

lemma prun_shape:
  "same_state s s' \<Longrightarrow> map token_shape ts = map token_shape ts' \<Longrightarrow> rel_option same_state (prun s ts) (prun s' ts')"
proof (induction ts arbitrary: s s' ts')
  case (Cons t ts)
  then obtain u us where u: "ts' = u # us" "token_shape t = token_shape u" "map token_shape ts = map token_shape us"
    by (cases ts') auto
  have "rel_option same_state (pstep s t) (pstep s' u)"
    using pstep_shape [of "fst s" "snd s" "fst s'" "snd s'" t u] Cons.prems(1) u(2) by simp
  then show ?case using Cons.IH u(1,3) by (auto elim!: option.rel_cases)
qed simp

text \<open>A text that \<open>Unmarshal\<close> takes has tokens, and their values are what it makes of it.\<close>

lemma json_tokens_of:
  assumes "json_Unmarshal s = Some x"
  obtains r where "json_tokens s = Some r" "list_all tok_good r" "prun (PVal, []) (map tok_val r) = Some (PAfter x, [])"
proof -
  obtain ts where ts: "lex L0 s = Some ts" "prun (PVal, []) ts = Some (PAfter x, [])"
    using assms by (auto simp: json_Unmarshal_def split: option.splits prod.splits pmode.splits list.splits)
  then obtain r where r: "rlex L0 s = Some r" "relex r = Some ts" by (auto simp: lex_raw split: option.splits)
  then have v: "list_all (\<lambda>x. reread x \<noteq> None) r" "ts = map tok_val r" by (simp_all add: relex_val)
  have "list_all tok_good r" using rlex_ok [OF r(1)] v(1) by (simp add: tok_good_def list_all_iff)
  have "map token_shape (map tok_val r) = map token_shape (map fst r)"
    using v(1) by (auto simp: list_all_iff tok_val_def reread_def split: token.splits)
  then have "rel_option same_state (prun (PVal, []) (map tok_val r)) (prun (PVal, []) (map fst r))"
    by (intro prun_shape) (simp_all add: same_state_def)
  then obtain y where "prun (PVal, []) (map fst r) = Some (PAfter y, [])"
    using ts(2) v(2) by (auto simp: same_state_def elim!: option.rel_cases)
  then have "json_tokens s = Some r" using r(1) by (simp add: json_tokens_def)
  with \<open>list_all tok_good r\<close> ts(2) v(2) show thesis by (intro that) simp_all
qed

section \<open>The order of members\<close>

lemma put_rel:
  assumes "list_all2 member_rel m e" "member_rel (k, v) (k, x)"
  shows "list_all2 member_rel (raw_put m k v) (obj_put e k x)"
  using assms(1)
proof (induction rule: list_all2_induct)
  case Nil
  then show ?case using assms(2) by simp
next
  case (Cons a m b e)
  then have "fst a = fst b" by (simp add: member_rel_def)
  then show ?case using Cons assms(2) by (cases a; cases b) auto
qed

lemma put_all_rel:
  "list_all2 member_rel ms xs \<Longrightarrow> list_all2 member_rel m e \<Longrightarrow>
    list_all2 member_rel (foldl (\<lambda>m (k, v). raw_put m k v) m ms) (put_all e xs)"
proof (induction arbitrary: m e rule: list_all2_induct)
  case (Cons a ms b xs)
  then have "fst a = fst b" by (simp add: member_rel_def)
  then show ?case using Cons put_rel by (cases a; cases b) auto
qed simp

abbreviation sorted_keys :: "(string \<times> 'a) list \<Rightarrow> bool" where
  "sorted_keys \<equiv> sorted_wrt (\<lambda>a b. fst a < fst b)"

lemma set_obj_put: "set (obj_put e k x) \<subseteq> insert (k, x) (set e)"
  by (induction e) (auto split: if_splits)

lemma sorted_obj_put: "sorted_keys e \<Longrightarrow> sorted_keys (obj_put e k x)"
proof (induction e)
  case (Cons a e)
  then show ?case using set_obj_put [of e k x] by (cases a) (auto 4 4)
qed simp

lemma sorted_put_all: "sorted_keys e \<Longrightarrow> sorted_keys (put_all e xs)"
  by (induction xs arbitrary: e) (auto simp: sorted_obj_put)

lemma obj_put_last: "\<forall>a\<in>set e. fst a < k \<Longrightarrow> obj_put e k x = e @ [(k, x)]"
  by (induction e) auto

lemma put_all_sorted: "sorted_keys (e @ xs) \<Longrightarrow> put_all e xs = e @ xs"
proof (induction xs arbitrary: e)
  case (Cons b xs)
  have "obj_put e (fst b) (snd b) = e @ [b]" using Cons.prems by (simp add: obj_put_last sorted_wrt_append)
  then show ?case using Cons.IH [of "e @ [b]"] Cons.prems by (simp add: case_prod_beta)
qed simp

lemma sorted_filter: "sorted_keys e \<Longrightarrow> sorted_keys (filter P e)"
  by (rule sorted_wrt_filter)

section \<open>Writing an object\<close>

text \<open>The tokens of the members of an object that \<open>Marshal\<close> writes.\<close>

fun member_tokens :: "(string \<times> rtok list) list \<Rightarrow> token list" where
  "member_tokens [] = []"
| "member_tokens [(k, v)] = TStr k # TPunct (CHR '':'') # map tok_val v"
| "member_tokens ((k, v) # m # ms) = TStr k # TPunct (CHR '':'') # map tok_val v @ TPunct (CHR '','') # member_tokens (m # ms)"

lemma member_value:
  assumes "value_of v x"
  shows "prun (PKey, [FObj e ke]) (TStr k # TPunct (CHR '':'') # map tok_val v @ ts) = prun (PAfter x, [FObj e k]) ts"
  using assms by (simp add: prun_append value_of_def)

lemma prun_members:
  "list_all2 member_rel (m # ms) (x # xs) \<Longrightarrow>
    prun (PKey, [FObj e ke]) (member_tokens (m # ms) @ [TPunct (CHR ''}'')]) = Some (PAfter (JObj (put_all e (x # xs))), [])"
proof (induction ms arbitrary: m x xs e ke)
  case Nil
  then have "fst m = fst x" "value_of (snd m) (snd x)" "xs = []" by (simp_all add: member_rel_def)
  then show ?case using member_value [of "snd m" "snd x" e ke "fst m"] by (cases m; cases x) simp
next
  case (Cons m2 ms)
  then obtain x2 xs' where xs: "xs = x2 # xs'" by (cases xs) auto
  have "fst m = fst x" "value_of (snd m) (snd x)" using Cons.prems by (simp_all add: member_rel_def)
  then show ?case
    using member_value [of "snd m" "snd x" e ke "fst m"] Cons.IH [of m2 x2 xs' "obj_put e (fst x) (snd x)" "''''"] Cons.prems xs
    by (cases m; cases x) simp
qed

lemma prun_object:
  assumes "list_all2 member_rel ms xs"
  shows "prun (PVal, []) (TPunct (CHR ''{'') # member_tokens ms @ [TPunct (CHR ''}'')]) = Some (PAfter (JObj (put_all [] xs)), [])"
proof (cases ms)
  case Nil
  then show ?thesis using assms by (simp add: pvalue_def maxNestingDepth_def)
next
  case (Cons m ms')
  then obtain x xs' where xs: "xs = x # xs'" using assms by (cases xs) auto
  obtain k ts where ts: "member_tokens ms @ [TPunct (CHR ''}'')] = TStr k # ts" using Cons by (cases ms'; cases m) auto
  have "prun (PKeyOrEnd, [FObj [] '''']) (TStr k # ts) = prun (PKey, [FObj [] '''']) (TStr k # ts)" by simp
  then show ?thesis using prun_members [of m ms' x xs' "[]" "''''"] assms Cons xs ts
    by (simp add: pvalue_def maxNestingDepth_def)
qed

lemma value_apart: "value_of v x \<Longrightarrow> list_all tok_good v \<Longrightarrow> apart v"
  using prun_apart [of "(PVal, [FArr []])" v] by (auto simp: value_of_def tok_good_def list_all_iff)

lemma lex_member:
  assumes "member_rel (k, v) kx" "rest = [] \<or> \<not> word_char (hd rest)"
  shows "lex L0 (json_quote k @ '':'' @ raw_text v @ rest) = map_option ((@) (TStr k # TPunct (CHR '':'') # map tok_val v)) (lex L0 rest)"
proof -
  have v: "list_all token_text v" "relex v = Some (map tok_val v)" "apart v"
    using assms(1) value_apart [of v "snd kx"] by (auto simp: member_rel_def tok_good_def relex_val list_all_iff)
  have "utf8_text k" using assms(1) unfolding member_rel_def fst_conv by blast
  then show ?thesis using lex_raw_text [OF v assms(2)] lex_punct [of "CHR '':''"]
    by (simp add: lex_quoted option.map_comp comp_def append_fun)
qed

lemma lex_members:
  "list_all2 member_rel ms xs \<Longrightarrow>
    lex L0 (join_with '','' (map (\<lambda>(k, v). json_quote k @ '':'' @ raw_text v) ms) @ ''}'') = Some (member_tokens ms @ [TPunct (CHR ''}'')])"
proof (induction ms arbitrary: xs rule: member_tokens.induct)
  case 1
  then show ?case using lex_punct [of "CHR ''}''" "[]"] by simp
next
  case (2 k v)
  then obtain kx where "member_rel (k, v) kx" by (cases xs) auto
  then show ?case using lex_member [of k v kx "''}''"] lex_punct [of "CHR ''}''" "[]"] not_word_char [of "CHR ''}''"] by simp
next
  case (3 k v m ms)
  then obtain kx xs' where "member_rel (k, v) kx" "list_all2 member_rel (m # ms) xs'" by (cases xs) auto
  moreover obtain b where "join_with '','' (map (\<lambda>(k, v). json_quote k @ '':'' @ raw_text v) ((k, v) # m # ms)) =
      json_quote k @ '':'' @ raw_text v @ '','' @ join_with '','' (map (\<lambda>(k, v). json_quote k @ '':'' @ raw_text v) (m # ms))"
    by simp
  ultimately show ?case
    using lex_member [of k v kx "'','' @ join_with '','' (map (\<lambda>(k, v). json_quote k @ '':'' @ raw_text v) (m # ms)) @ ''}''"]
      lex_punct [of "CHR '',''"] not_word_char [of "CHR '',''"] "3.IH" by simp
qed

lemma marshal_fields_value:
  assumes "list_all2 member_rel ms xs"
  shows "json_Unmarshal (marshal_fields (Some ms)) = Some (JObj (put_all [] xs))"
  using lex_members [OF assms] lex_punct [of "CHR ''{''"] prun_object [OF assms]
  by (simp add: json_Unmarshal_def marshal_fields_def del: prun.simps)

section \<open>Values within values\<close>

lemma tok_val_punct [simp]: "tok_val (TPunct c, s) = TPunct c"
  by (simp add: tok_val_def reread_def)

lemma pvalue_close: "pvalue stk (TPunct (CHR '']'')) = None"
  by (simp add: pvalue_def)

lemma pstep_base:
  assumes "pstep (m, fr) t = Some (m1, fr1)" "fr = [] \<longrightarrow> m = PVal" "pstep (m, fr @ [F]) t = Some s"
  shows "s = (m1, fr1 @ [F])"
proof (cases fr)
  case Nil
  then show ?thesis using assms by (cases t) (auto simp: pvalue_def split: if_splits)
next
  case (Cons f fs)
  show ?thesis
  proof (cases "m = PVal \<or> m = PValOrEnd \<and> t \<noteq> TPunct (CHR '']'')")
    case True
    then have "pvalue fr t = Some (m1, fr1)" "pvalue (fr @ [F]) t = Some s" using assms by auto
    then show ?thesis by (cases t) (auto simp: pvalue_def split: if_splits)
  next
    case False
    then show ?thesis using assms Cons
      by (cases m; cases f; cases t) (auto split: if_splits)
  qed
qed

lemma prun_base:
  "prun (m, fr) ts = Some (m', fr') \<Longrightarrow> fr = [] \<longrightarrow> m = PVal \<or> (\<exists>x. m = PAfter x) \<Longrightarrow> prun (m, fr @ [B]) ts \<noteq> None \<Longrightarrow>
    prun (m, fr @ [F]) ts = Some (m', fr' @ [F])"
proof (induction ts arbitrary: m fr)
  case (Cons t ts)
  obtain m1 fr1 where s1: "pstep (m, fr) t = Some (m1, fr1)" "prun (m1, fr1) ts = Some (m', fr')"
    using prun_Cons [OF Cons.prems(1)] by auto
  obtain s2 where s2: "pstep (m, fr @ [B]) t = Some s2" "prun s2 ts \<noteq> None"
    using Cons.prems(3) by (auto split: option.splits)
  have inner: "fr = [] \<longrightarrow> m = PVal" using Cons.prems(2) s1(1) by (auto split: token.splits)
  from pstep_inner [OF s2(1) inner] obtain m2 fr2 where step: "s2 = (m2, fr2 @ [B])"
    "\<And>F. pstep (m, fr @ [F]) t = Some (m2, fr2 @ [F])" "fr2 = [] \<longrightarrow> (\<exists>x. m2 = PAfter x)" unfolding inner_step_def by blast
  from pstep_base [OF s1(1) inner s2(1)] step(1) have eq: "m2 = m1" "fr2 = fr1" by simp_all
  show ?case using Cons.IH [OF s1(2)] step s2(2) eq by auto
qed simp

lemma value_in_array:
  assumes "json_Unmarshal b = Some x" "json_Unmarshal (''['' @ b @ '']'') \<noteq> None"
  shows "\<exists>r. json_tokens b = Some r \<and> list_all tok_good r \<and> value_of r x"
proof -
  from assms(1) obtain r where r: "json_tokens b = Some r" "list_all tok_good r" "prun (PVal, []) (map tok_val r) = Some (PAfter x, [])"
    by (rule json_tokens_of)
  obtain ts where ts: "lex L0 b = Some ts" "prun (PVal, []) ts = Some (PAfter x, [])"
    using assms(1) by (auto simp: json_Unmarshal_def split: option.splits prod.splits pmode.splits list.splits)
  have "ts = map tok_val r"
    using r(1) ts(1) by (auto simp: json_tokens_def lex_raw relex_val split: option.splits prod.splits pmode.splits list.splits)
  have "lex L0 (''['' @ b @ '']'') = Some (TPunct (CHR ''['') # ts @ [TPunct (CHR '']'')])"
    using lex_then_punct [OF ts(1), of "CHR '']''" "[]"] lex_punct [of "CHR ''[''" "b @ '']''"] lex_punct [of "CHR '']''" "[]"] by simp
  then have "prun (PValOrEnd, [FArr []]) (ts @ [TPunct (CHR '']'')]) \<noteq> None"
    using assms(2) by (cases "prun (PValOrEnd, [FArr []]) (ts @ [TPunct (CHR '']'')])") (simp_all add: json_Unmarshal_def pvalue_def maxNestingDepth_def)
  moreover have "ts \<noteq> []" using ts(2) by auto
  then obtain t us where t: "ts = t # us" by (cases ts) auto
  have "t \<noteq> TPunct (CHR '']'')" using ts(2) t by (auto simp: pvalue_close)
  ultimately have "prun (PVal, [FArr []]) ts \<noteq> None"
    using t by (auto simp: prun_append split: option.splits)
  with prun_base [of PVal "[]" ts "PAfter x" "[]" "FArr []"] ts(2) have "prun (PVal, [F]) ts = Some (PAfter x, [F])" for F by simp
  then show ?thesis using r \<open>ts = map tok_val r\<close> by (auto simp: value_of_def)
qed

section \<open>MarshalIndent\<close>

lemma newline_space: "list_all json_space ind \<Longrightarrow> list_all json_space (newline ind d)"
  by (auto simp: newline_def json_space_def list_all_iff)

lemma space_not_word: "json_space c \<Longrightarrow> \<not> word_char c"
  using word_char_facts by blast

lemma indent_head:
  assumes "list_all json_space ind" "list_all tok_good ts" "ts = [] \<or> \<not> is_word (fst (hd ts))" "rest = [] \<or> \<not> word_char (hd rest)"
  shows "indent_run ind d need ts @ rest = [] \<or> \<not> word_char (hd (indent_run ind d need ts @ rest))"
proof (cases ts)
  case Nil
  then show ?thesis using assms(4) by simp
next
  case (Cons y w)
  obtain t s where y: "y = (t, s)" by (cases y)
  have g: "token_text y" "\<not> is_word t" using assms(2,3) Cons y by (simp_all add: tok_good_def)
  have nl: "\<not> word_char (hd (newline ind n @ x))" for n x by (simp add: newline_def space_not_word json_space_def)
  have tok: "\<not> word_char (hd (html_escape s @ x))" for x using token_head [OF g(1)] g(2) y by simp
  have "\<not> word_char (hd (s @ x))" if "closes t" for x
    using g(1) y that not_word_char [of "CHR ''}''"] not_word_char [of "CHR '']''"] by (auto simp: closes_def token_text_def)
  then show ?thesis using Cons y nl tok by (simp add: Let_def)
qed

lemma apart_tl: "apart (y # ts) \<Longrightarrow> apart ts"
  by (cases ts) auto

lemma lex_indent_run:
  assumes "list_all json_space ind" "rest = [] \<or> \<not> word_char (hd rest)"
  shows "list_all tok_good ts \<Longrightarrow> apart ts \<Longrightarrow>
    lex L0 (indent_run ind d need ts @ rest) = map_option ((@) (map tok_val ts)) (lex L0 rest)"
proof (induction ts arbitrary: d need)
  case Nil
  then show ?case by (simp add: option.map_ident append_eta)
next
  case (Cons y ts)
  obtain t s where y: "y = (t, s)" by (cases y)
  have y_good: "tok_good y" and g: "list_all tok_good ts" "apart ts" using Cons.prems apart_tl by simp_all
  then have gy: "token_text y" "reread y = Some (tok_val y)" unfolding tok_good_def tok_val_def by auto
  note IH = Cons.IH [OF g]
  have nl: "lex L0 (newline ind n @ x) = lex L0 x" for n x by (rule lex_space [OF newline_space [OF assms(1)]])
  show ?case
  proof (cases "closes t")
    case True
    then obtain c where "t = TPunct c" by (auto simp: closes_def)
    then have c: "t = TPunct c" "c \<in> set ''{}[]:,''" "s = [c]" "tok_val y = TPunct c"
      using gy(1) unfolding y token_text_def by simp_all
    show ?thesis
    proof (cases need)
      case True
      then show ?thesis using lex_punct [OF c(2)] IH y c \<open>closes t\<close> by (simp add: option.map_comp comp_def append_fun)
    next
      case False
      then show ?thesis using lex_punct [OF c(2)] IH y c \<open>closes t\<close> nl by (simp add: option.map_comp comp_def append_fun)
    qed
  next
    case False
    let ?d = "if need then d + 1 else d"
    let ?pre = "if need then newline ind ?d else ''''"
    let ?sep = "if t = TPunct (CHR '','') then newline ind ?d else if t = TPunct (CHR '':'') then '' '' else ''''"
    let ?more = "indent_run ind ?d (opens t) ts @ rest"
    have run: "indent_run ind d need (y # ts) @ rest = ?pre @ html_escape s @ ?sep @ ?more"
      using False y by (simp add: Let_def)
    have "lex L0 (?pre @ html_escape s @ ?sep @ ?more) = lex L0 (html_escape s @ ?sep @ ?more)" using nl by simp
    also have "\<dots> = map_option (Cons (tok_val y)) (lex L0 (?sep @ ?more))"
    proof -
      have "?sep @ ?more = [] \<or> \<not> word_char (hd (?sep @ ?more))" if w: "is_word (fst y)"
      proof -
        have "ts = [] \<or> \<not> is_word (fst (hd ts))" using Cons.prems(2) w by (cases ts) auto
        moreover have "?sep = ''''" using w y by (auto simp: is_word_def)
        ultimately show ?thesis using indent_head [OF assms(1) g(1) _ assms(2)] by simp
      qed
      then show ?thesis using lex_token [OF gy] y by simp
    qed
    also have "lex L0 (?sep @ ?more) = lex L0 ?more"
      using nl lex_space [of "'' ''"] by (simp add: json_space_def)
    finally show ?thesis using IH run y by (simp add: option.map_comp comp_def append_fun)
  qed
qed


section \<open>A list of texts as one array\<close>

lemma apart_comma: "apart p \<Longrightarrow> apart q \<Longrightarrow> \<not> is_word (fst c) \<Longrightarrow> apart (p @ c # q)"
  by (induction p rule: apart.induct; cases q) auto

lemma value_nonempty:
  assumes "value_of v x"
  obtains t w where "v = t # w" "tok_val t \<noteq> TPunct (CHR '']'')"
proof (cases v)
  case Nil
  then show thesis using assms by (auto simp: value_of_def)
next
  case (Cons t w)
  have "prun (PVal, [FArr []]) (tok_val t # map tok_val w) = Some (PAfter x, [FArr []])" using assms Cons by (simp add: value_of_def)
  then have "tok_val t \<noteq> TPunct (CHR '']'')" by (auto simp: pvalue_close)
  with Cons that show thesis by blast
qed

lemma prun_elements:
  "list_all2 value_of (p # ps) (x # xs) \<Longrightarrow>
    prun (PVal, [FArr vs]) (map tok_val (join_tokens (p # ps) @ [(TPunct (CHR '']''), '']'')])) = Some (PAfter (JArr (rev vs @ x # xs)), [])"
proof (induction ps arbitrary: p x xs vs)
  case Nil
  then show ?case by (simp add: prun_append value_of_def)
next
  case (Cons q ps)
  then obtain y ys where "xs = y # ys" "list_all2 value_of (q # ps) (y # ys)" by (cases xs) auto
  with Cons.IH [of q y ys "x # vs"] Cons.prems show ?case
    by (simp add: prun_append value_of_def)
qed

lemma tok_good_shape: "list_all tok_good ts \<Longrightarrow> map token_shape (map tok_val ts) = map token_shape (map fst ts)"
proof (induction ts)
  case (Cons x ts)
  then have "tok_good x" by simp
  then have "token_shape (tok_val x) = token_shape (fst x)" by (cases "fst x") (auto simp: tok_good_def tok_val_def reread_def)
  with Cons show ?case by simp
qed simp

lemma marshal_indent_value:
  assumes "list_all json_space ind" "list_all2 (\<lambda>p x. json_Unmarshal p = Some x \<and> json_Unmarshal (''['' @ p @ '']'') \<noteq> None) parts xs"
  shows "\<exists>out. marshal_indent ind parts = Some out \<and> json_Unmarshal (out @ [CHR 0x0A]) = Some (JArr xs)"
proof -
  let ?ps = "map (the \<circ> json_tokens) parts"
  let ?ts = "(TPunct (CHR ''[''), ''['') # join_tokens ?ps @ [(TPunct (CHR '']''), '']'')]"
  have ok: "\<forall>p\<in>set parts. json_tokens p \<noteq> None" "list_all2 value_of ?ps xs" "list_all (list_all tok_good) ?ps"
    using assms(2) by (induction rule: list_all2_induct) (auto dest: value_in_array)
  have bracket: "tok_good (TPunct (CHR ''[''), ''['')" "tok_good (TPunct (CHR '']''), '']'')" "tok_good (TPunct (CHR '',''), '','')"
    by (simp_all add: tok_good_def token_text_def reread_def)
  have join: "list_all tok_good (join_tokens ps) \<and> apart (join_tokens ps)"
    if "list_all2 value_of ps ys" "list_all (list_all tok_good) ps" for ps ys
    using that
  proof (induction ps arbitrary: ys rule: join_tokens.induct)
    case (2 p)
    then show ?case by (auto simp: list_all2_Cons1 intro: value_apart)
  next
    case (3 p q ps)
    then obtain y ys' where "ys = y # ys'" "value_of p y" "list_all2 value_of (q # ps) ys'" by (auto simp: list_all2_Cons1)
    with 3 bracket(3) value_apart [of p y] show ?case by (auto intro!: apart_comma simp: is_word_def)
  qed simp
  have tok_good: "list_all tok_good ?ts" using join [OF ok(2,3)] bracket by simp
  have "apart (join_tokens ?ps @ [(TPunct (CHR '']''), '']'')])"
    using join [OF ok(2,3)] by (intro apart_comma) (simp_all add: is_word_def)
  then have apart: "apart ?ts" by (cases "join_tokens ?ps @ [(TPunct (CHR '']''), '']'')]") (simp_all add: is_word_def)
  have run: "prun (PVal, []) (map tok_val ?ts) = Some (PAfter (JArr xs), [])"
  proof (cases ?ps)
    case Nil
    then show ?thesis using ok(2) by (simp add: pvalue_def maxNestingDepth_def)
  next
    case (Cons p ps)
    then obtain x xs' where xs: "xs = x # xs'" using ok(2) by (auto simp: list_all2_Cons1)
    then have "value_of p x" using ok(2) Cons by simp
    then obtain t w where t: "p = t # w" "tok_val t \<noteq> TPunct (CHR '']'')" by (rule value_nonempty)
    have *: "prun (PVal, [FArr []]) (map tok_val (join_tokens ?ps @ [(TPunct (CHR '']''), '']'')])) = Some (PAfter (JArr xs), [])"
      using prun_elements [of p ps x xs' "[]"] ok(2) Cons xs by simp
    obtain us where us: "join_tokens ?ps @ [(TPunct (CHR '']''), '']'')] = t # us" using Cons t(1) by (cases ps) auto
    have "prun (PValOrEnd, [FArr []]) (map tok_val (t # us)) = prun (PVal, [FArr []]) (map tok_val (t # us))" using t(2) by simp
    then have "prun (PValOrEnd, [FArr []]) (map tok_val (join_tokens ?ps @ [(TPunct (CHR '']''), '']'')])) = Some (PAfter (JArr xs), [])"
      using * unfolding us by simp
    then show ?thesis by (simp add: pvalue_def maxNestingDepth_def)
  qed
  have "map token_shape (map tok_val ?ts) = map token_shape (map fst ?ts)"
    using tok_good by (rule tok_good_shape)
  then have "rel_option same_state (prun (PVal, []) (map tok_val ?ts)) (prun (PVal, []) (map fst ?ts))"
    by (intro prun_shape) (simp_all add: same_state_def)
  then have "prun (PVal, []) (map fst ?ts) \<noteq> None" using run by (auto elim: option.rel_cases)
  then have out: "marshal_indent ind parts = Some (indent_run ind 0 False ?ts)"
    using ok(1) unfolding marshal_indent_def Let_def by auto
  have "lex L0 [CHR 0x0A] = Some []" using lex_space [of "[CHR 0x0A]" "[]"] by (simp add: json_space_def)
  then have "lex L0 (indent_run ind 0 False ?ts @ [CHR 0x0A]) = Some (map tok_val ?ts)"
    using lex_indent_run [OF assms(1) _ tok_good apart, of "[CHR 0x0A]"] space_not_word [of "CHR 0x0A"] by (simp add: json_space_def)
  then show ?thesis using out run by (simp add: json_Unmarshal_def)
qed

end
