(* ===== verification/CliDocuments.thy ===== *)
theory CliDocuments
  imports JsonRoundtrip CliSamples
begin

text \<open>
  The JSON the command line reads and writes, as values: the body of a manifest is the document
  less its envelope fields, and a printed list is one array.
\<close>

section \<open>The body of a manifest\<close>

text \<open>
  C27: the body of a manifest, which protojson decodes, is the document less \<open>apiVersion\<close> and
  \<open>kind\<close>: for every document that is a JSON object, \<open>stripEnvelopeFields\<close> succeeds, and what it
  writes, with its own quoting and HTML escapes, reads as the object without these two members,
  every other value as it was.
\<close>

theorem body_keeps_the_rest:
  assumes "json_Unmarshal doc = Some (JObj es)"
  shows "\<exists>body. stripEnvelopeFields doc = Some body
    \<and> json_Unmarshal body = Some (JObj (filter (\<lambda>(k, x). k \<noteq> ''apiVersion'' \<and> k \<noteq> ''kind'') es))
    \<and> (\<forall>(Y :: 'd yaml_lib) file d norm n m. yl_Marshal Y d = Inr norm \<and> yl_ToJSON Y norm = Inr doc \<and> read_doc Y file d n = Inr m
        \<longrightarrow> mf_JSON m = body)"
proof -
  let ?P = "\<lambda>k. k \<noteq> ''apiVersion'' \<and> k \<noteq> ''kind''"
  from assms obtain r where r: "json_tokens doc = Some r" "list_all tok_good r" "prun (PVal, []) (map tok_val r) = Some (PAfter (JObj es), [])"
    by (rule json_tokens_of)
  note obj = object_first [OF r(2,3)]
  from object_members_rel [OF r(2,3)] obj obtain xs where xs: "list_all2 member_rel (object_members r) xs" "es = put_all [] xs" by blast
  let ?fs = "foldl (\<lambda>m (k, v). raw_put m k v) [] (object_members r)"
  let ?body = "marshal_fields (Some (filter (\<lambda>(k, v). ?P k) ?fs))"
  have "list_all2 member_rel ?fs es" using put_all_rel [OF xs(1)] xs(2) by simp
  then have "list_all2 member_rel (filter (\<lambda>(k, v). ?P k) ?fs) (filter (\<lambda>(k, x). ?P k) es)"
    by (induction rule: list_all2_induct) (auto simp: member_rel_def)
  from marshal_fields_value [OF this]
  have "json_Unmarshal ?body = Some (JObj (filter (\<lambda>(k, x). ?P k) es))"
    using put_all_sorted [of "[]"] sorted_filter [OF sorted_put_all [of "[]" xs]] xs(2) by simp
  moreover have strip: "stripEnvelopeFields doc = Some ?body"
    using r(1) obj by (simp add: stripEnvelopeFields_def unmarshal_fields_def)
  moreover have "mf_JSON m = ?body" if "yl_Marshal Y d = Inr norm \<and> yl_ToJSON Y norm = Inr doc \<and> read_doc Y src d n = Inr m" for Y :: "'d yaml_lib" and src d norm n m
    using that strip by (auto simp: read_doc_def split: option.splits if_splits)
  ultimately show ?thesis by blast
qed

definition robot_json :: string where
  "robot_json = ''{\"kind\":\"Robot\",\"apiVersion\":\"hived/v1alpha1\",\"spec\":{\"a<b\":[true,null]}}''"

theorem body_keeps_the_rest_witness:
  "\<exists>body. stripEnvelopeFields robot_json = Some body
    \<and> json_Unmarshal body = Some (JObj [(''spec'', JObj [(''a<b'', JArr [JBool True, JNull])])])"
proof -
  have "json_Unmarshal robot_json = Some (JObj [(''apiVersion'', JStr ''hived/v1alpha1''), (''kind'', JStr ''Robot''),
      (''spec'', JObj [(''a<b'', JArr [JBool True, JNull])])])" by code_simp
  from body_keeps_the_rest [OF this] show ?thesis by auto
qed

section \<open>Lists\<close>

lemma marshal_all_parts:
  "\<forall>m\<in>set items. \<exists>b. pj_Marshal pj m = Inr b \<and> P b m \<Longrightarrow>
    \<exists>bs. marshal_all pj items parts = Inr (parts @ bs) \<and> list_all2 P bs items"
proof (induction items arbitrary: parts)
  case (Cons m items)
  then obtain b where b: "pj_Marshal pj m = Inr b" "P b m" by auto
  from Cons.IH [of "parts @ [b]"] Cons.prems obtain bs where
    "marshal_all pj items (parts @ [b]) = Inr ((parts @ [b]) @ bs)" "list_all2 P bs items" by auto
  with b show ?case by (intro exI [of _ "b # bs"]) simp
qed simp

text \<open>
  C28: \<open>hived get <kind> -o json\<close> prints one JSON array, with one element for every resource the
  Keeper answered and in that order, whatever their texts are, provided that protojson writes
  JSON that does not nest to the decoder's limit.
\<close>

theorem listed_json_is_one_array:
  assumes "fl_output fl = ''json''" "sv_List C d (list_request fl) s = (Inr resp, s')"
    and "\<forall>m\<in>set (rp_Items resp). \<exists>b. pj_Marshal pj m = Inr b \<and> json_Unmarshal b = Some (v m)
      \<and> json_Unmarshal (''['' @ b @ '']'') \<noteq> None"
  shows "\<exists>out. list_doc fl cb pj C headers row d s = ((None, out), s') \<and> json_Unmarshal out = Some (JArr (map v (rp_Items resp)))"
proof -
  obtain bs where bs: "marshal_all pj (rp_Items resp) [] = Inr bs"
    "list_all2 (\<lambda>b m. json_Unmarshal b = Some (v m) \<and> json_Unmarshal (''['' @ b @ '']'') \<noteq> None) bs (rp_Items resp)"
    using marshal_all_parts [OF assms(3), of "[]"] by auto
  then have "list_all2 (\<lambda>b x. json_Unmarshal b = Some x \<and> json_Unmarshal (''['' @ b @ '']'') \<noteq> None) bs (map v (rp_Items resp))"
    by (simp add: list_all2_map2)
  from marshal_indent_value [OF _ this, of "''  ''"] obtain out where
    "marshal_indent ''  '' bs = Some out" "json_Unmarshal (out @ [CHR 0x0A]) = Some (JArr (map v (rp_Items resp)))"
    by (auto simp: json_space_def)
  then show ?thesis using assms(1,2) bs(1) by (simp add: list_doc_def printObjects_def)
qed

text \<open>A client whose List answers two Agents, and a printer of their names.\<close>

definition two_names :: "Agent ListResponse" where
  "two_names = \<lparr>rp_Items = [sample_object empty_AgentSpec, sample_object empty_AgentSpec],
     rp_ListMeta = \<lparr>lm_NextPageToken = '''', lm_ResourceVersion = 0\<rparr>\<rparr>"

definition list_client :: "(int option, unit, AgentSpec, AgentStatus) service_rpcs" where
  "list_client = \<lparr>sv_Apply = (\<lambda>_ _ s. (Inl (ConnectError CodeInternal ''''), s)), sv_Get = (\<lambda>_ _ s. (Inl (ConnectError CodeInternal ''''), s)),
     sv_List = (\<lambda>_ _ s. (Inr two_names, s)), sv_Watch = (\<lambda>_ _ s. (([], None), s))\<rparr>"

definition name_printer :: "Agent pjson" where
  "name_printer = \<lparr>pj_Unmarshal = (\<lambda>_. Inl ''''), pj_Marshal = (\<lambda>_. Inr ''{\"name\": \"a&b\"}''), pj_Indent = (\<lambda>_. Inl '''')\<rparr>"

theorem listed_json_is_one_array_witness:
  "\<exists>out. list_doc (default_flags\<lparr>fl_output := ''json''\<rparr>) sample_codecs name_printer list_client [] agent_row None () = ((None, out), ())
    \<and> json_Unmarshal out = Some (JArr [JObj [(''name'', JStr ''a&b'')], JObj [(''name'', JStr ''a&b'')]])"
proof -
  let ?fl = "default_flags\<lparr>fl_output := ''json''\<rparr>" and ?x = "JObj [(''name'', JStr ''a&b'')]"
  have p: "json_Unmarshal ''{\"name\": \"a&b\"}'' = Some ?x" "json_Unmarshal (''['' @ ''{\"name\": \"a&b\"}'' @ '']'') = Some (JArr [?x])"
    by code_simp+
  have "\<forall>m\<in>set (rp_Items two_names). \<exists>b. pj_Marshal name_printer m = Inr b \<and> json_Unmarshal b = Some ?x
      \<and> json_Unmarshal (''['' @ b @ '']'') \<noteq> None"
    by (intro ballI exI [of _ "''{\"name\": \"a&b\"}''"]) (simp only: p name_printer_def pjson.simps, simp)
  then show ?thesis
    using listed_json_is_one_array [of ?fl list_client None "()" two_names "()" name_printer "\<lambda>_. ?x" sample_codecs "[]" agent_row]
    by (simp add: list_client_def two_names_def)
qed

end
