(* ===== verification/StringMapJson.thy ===== *)
theory StringMapJson
  imports JsonRoundtrip StringMap
begin

text \<open>
  A string map that \<open>Marshal\<close> wrote (theory \<open>StringMap\<close>) is always read back: with every byte
  that is not UTF-8 replaced by U+FFFD, and unchanged when there is none.
\<close>

section \<open>Strings\<close>

text \<open>What quoting keeps of a string; \<open>n\<close> bytes of a character are still to be copied.\<close>

primrec valid_from :: "string \<Rightarrow> nat \<Rightarrow> string" where
  "valid_from [] n = []"
| "valid_from (c # cs) n =
     (if n > 0 then c # valid_from cs (n - 1)
      else if char_len (c # cs) = 0 then rune_error @ valid_from cs 0
      else c # valid_from cs (char_len (c # cs) - 1))"

declare valid_from.simps(2) [simp del]

definition to_valid :: "string \<Rightarrow> string" where
  "to_valid s = valid_from s 0"

lemma valid_zero: "valid_from (c # cs) 0 =
    (if char_len (c # cs) = 0 then rune_error @ valid_from cs 0 else c # valid_from cs (char_len (c # cs) - 1))"
  by (subst valid_from.simps(2)) (simp only: less_irrefl if_False)

lemma valid_copy: "valid_from (p @ r) (length p) = p @ valid_from r 0"
proof (induction p)
  case (Cons c p)
  then show ?case by (simp only: append_Cons valid_from.simps(2) list.size zero_less_Suc if_True add_Suc_right add_0_right diff_Suc_1)
qed simp

lemma to_valid_bad: "char_len (c # cs) = 0 \<Longrightarrow> to_valid (c # cs) = rune_error @ to_valid cs"
  unfolding to_valid_def by (subst valid_zero) (rule if_P)

lemma to_valid_rune:
  assumes "char_len (c # p @ r) = Suc (length p)"
  shows "to_valid (c # p @ r) = (c # p) @ to_valid r"
  unfolding to_valid_def by (subst valid_zero) (simp only: assms, simp add: valid_copy)

lemma to_valid_id: "utf8_text k \<Longrightarrow> to_valid k = k"
  by (induction rule: utf8_text.induct) (simp add: to_valid_def, simp add: to_valid_rune)

lemma quote_bad:
  assumes "char_len (c # cs) = 0"
  shows "quote_from 0 (c # cs) = escape_u 0xFFFD @ quote_from 0 cs"
proof -
  have hi: "\<not> (of_char c :: nat) < 0x80" using assms by (simp add: utf8_len_Cons rune_size_def split: if_splits)
  have sep: "take 3 (c # cs) \<noteq> utf8_encode u" if "u = 0x2028 \<or> u = 0x2029" for u
  proof
    assume "take 3 (c # cs) = utf8_encode u"
    then have "\<exists>r. c # cs = utf8_encode u @ r" using append_take_drop_id [of 3 "c # cs"] by metis
    then show False using that assms
      by (auto simp: utf8_encode_separators utf8_len_Cons rune_size_def second_ok_def)
  qed
  have ne: "c \<noteq> CHR 0x22" "c \<noteq> CHR 0x5C" "c \<noteq> CHR 0x08" "c \<noteq> CHR 0x0C" "c \<noteq> CHR 0x0A" "c \<noteq> CHR 0x0D" "c \<noteq> CHR 0x09"
    "\<not> (c < CHR 0x20 \<or> c \<in> set ''<>&'')"
    using hi by (auto simp: less_char_def)
  show ?thesis
    by (subst quote_zero) (simp only: ne sep [OF disjI1 [OF refl]] sep [OF disjI2 [OF refl]] assms if_False if_True simp_thms)
qed

lemma unquote_quote_any: "unquote 0 (quote_from 0 k) = Some (to_valid k) \<and> no_quote False (quote_from 0 k)"
proof (induction k rule: length_induct)
  case (1 k)
  show ?case
  proof (cases k)
    case (Cons c cs)
    show ?thesis
    proof (cases "char_len (c # cs) = 0")
      case True
      show ?thesis using 1 to_valid_bad [OF True] Cons unquote_escape_u [of "0xFFFD"] quote_bad [OF True]
        by (simp add: no_quote_escape_u is_surrogate_def rune_error_def)
    next
      case False
      then obtain p r where pr: "cs = p @ r" "char_len (c # cs) = Suc (length p)" by (rule char_len_split)
      then have len: "char_len (c # p @ r) = Suc (length p)" by simp
      from quote_rune [OF len] obtain q where "quote_from 0 (c # p @ r) = q @ quote_from 0 r"
        "\<And>t. unquote 0 (q @ t) = map_option ((@) (c # p)) (unquote 0 t)" "\<And>t. no_quote False (q @ t) = no_quote False t" by blast
      then show ?thesis using 1 Cons pr to_valid_rune [OF len] by simp
    qed
  qed (simp add: to_valid_def)
qed

lemma utf8_to_valid: "utf8_text (to_valid k)"
  using utf8_text_unquote [of "quote_from 0 k"] unquote_quote_any [of k] by blast

lemma lex_quoted_any: "lex L0 (json_quote k @ rest) = map_option (Cons (TStr (to_valid k))) (lex L0 rest)"
  using lex_quote [of "quote_from 0 k" "to_valid k" rest] unquote_quote_any [of k] by (simp add: json_quote_def)

section \<open>Maps\<close>

text \<open>The members as tokens and as values.\<close>

abbreviation string_members :: "(string \<times> string) list \<Rightarrow> (string \<times> rtok list) list" where
  "string_members es \<equiv> map (\<lambda>(k, v). (to_valid k, [(TStr (to_valid v), json_quote v)])) es"

abbreviation string_values :: "(string \<times> string) list \<Rightarrow> (string \<times> json) list" where
  "string_values es \<equiv> map (\<lambda>(k, v). (to_valid k, JStr (to_valid v))) es"

lemma tok_val_string [simp]: "tok_val (TStr s, raw) = TStr s"
  by (simp add: tok_val_def reread_def)

lemma string_members_rel: "list_all2 member_rel (string_members es) (string_values es)"
proof -
  have "token_text (TStr (to_valid v), json_quote v)" for v
    unfolding token_text_def fst_conv snd_conv token.case json_quote_def using unquote_quote_any [of v]
    by (intro exI [of _ "quote_from 0 v"]) simp
  then have "member_rel (to_valid k, [(TStr (to_valid v), json_quote v)]) (to_valid k, JStr (to_valid v))" for k v
    by (simp add: member_rel_def tok_good_def reread_def value_of_def utf8_to_valid pvalue_def)
  then show ?thesis by (induction es) auto
qed

lemma lex_string_members:
  "lex L0 (join_with '','' (map (\<lambda>(k, v). json_quote k @ '':'' @ json_quote v) es) @ ''}'' @ rest) =
    map_option ((@) (member_tokens (string_members es) @ [TPunct (CHR ''}'')])) (lex L0 rest)"
proof (induction es rule: induct_list012)
  case 1
  then show ?case using lex_punct [of "CHR ''}''" rest] by (simp add: append_fun append_eta)
next
  case (2 e)
  then show ?case using lex_punct [of "CHR ''}''" rest] lex_punct [of "CHR '':''"]
    by (cases e) (simp add: lex_quoted_any option.map_comp comp_def append_fun)
next
  case (3 e e' es)
  obtain k v where e: "e = (k, v)" by (cases e)
  have join: "join_with '','' (map (\<lambda>(k, v). json_quote k @ '':'' @ json_quote v) ((k, v) # e' # es)) =
      json_quote k @ '':'' @ json_quote v @ '','' @ join_with '','' (map (\<lambda>(k, v). json_quote k @ '':'' @ json_quote v) (e' # es))" by simp
  have toks: "member_tokens (string_members ((k, v) # e' # es)) =
      TStr (to_valid k) # TPunct (CHR '':'') # TStr (to_valid v) # TPunct (CHR '','') # member_tokens (string_members (e' # es))"
    by (cases e') simp
  show ?case
    unfolding e join toks append_assoc lex_quoted_any
    using "3.IH"(2) lex_punct [of "CHR '':''"] lex_punct [of "CHR '',''"]
    by (simp add: lex_quoted_any option.map_comp comp_def append_fun del: list.map)
qed

lemma marshal_string_map_lex:
  assumes "list_all json_space ws"
  shows "json_Unmarshal (marshal_string_map m @ ws) = Some (JObj (put_all [] (string_values (sorted_list_of_fmap m))))"
proof -
  have "lex L0 ws = Some []" using lex_space [OF assms, of "[]"] by simp
  then have "lex L0 (marshal_string_map m @ ws) =
      Some (TPunct (CHR ''{'') # member_tokens (string_members (sorted_list_of_fmap m)) @ [TPunct (CHR ''}'')])"
    using lex_string_members [of "sorted_list_of_fmap m" ws] lex_punct [of "CHR ''{''"] by (simp add: marshal_string_map_def)
  then show ?thesis using prun_object [OF string_members_rel] by (simp add: json_Unmarshal_def del: prun.simps)
qed

text \<open>What comes back of a map: the later of two keys that the replacement makes equal wins.\<close>

definition read_back :: "str_map \<Rightarrow> str_map" where
  "read_back m = fmap_of_list (rev (map (\<lambda>(k, v). (to_valid k, to_valid v)) (sorted_list_of_fmap m)))"

definition utf8_map :: "str_map \<Rightarrow> bool" where
  "utf8_map m \<longleftrightarrow> fmpred (\<lambda>k v. utf8_text k \<and> utf8_text v) m"

lemma map_of_obj_put: "map_of (obj_put e k x) = (map_of e)(k \<mapsto> x)"
  by (induction e) (auto simp: fun_eq_iff)

lemma map_of_put_all: "map_of (put_all e xs) = map_of e ++ map_of (rev xs)"
  by (induction xs arbitrary: e) (simp_all add: case_prod_beta map_of_obj_put fun_eq_iff map_add_def split: option.splits)

lemma those_strings:
  "\<forall>a\<in>set es. string_member (snd a) \<noteq> None \<Longrightarrow>
    those (map (\<lambda>(k, j). map_option (Pair k) (string_member j)) es) = Some (map (\<lambda>(k, j). (k, the (string_member j))) es)"
  by (induction es) auto

lemma set_put_all: "set (put_all e xs) \<subseteq> set e \<union> set xs"
proof (induction xs arbitrary: e)
  case (Cons a xs)
  then show ?case using set_obj_put [of e "fst a" "snd a"] by (force simp: case_prod_beta)
qed simp

lemma unmarshal_members:
  assumes "json_Unmarshal s = Some (JObj (put_all [] (string_values es)))"
  shows "unmarshal_string_map s = Some (fmap_of_list (rev (map (\<lambda>(k, v). (to_valid k, to_valid v)) es)))"
proof -
  let ?e = "put_all [] (string_values es)"
  have "\<forall>a\<in>set ?e. string_member (snd a) \<noteq> None"
    using set_put_all [of "[]" "string_values es"] by force
  then have "unmarshal_string_map s = Some (fmap_of_list (map (\<lambda>(k, j). (k, the (string_member j))) ?e))"
    using assms by (simp add: unmarshal_string_map_def those_strings)
  moreover have "fmap_of_list (map (\<lambda>(k, j). (k, the (string_member j))) ?e)
      = fmap_of_list (rev (map (\<lambda>(k, v). (to_valid k, to_valid v)) es))"
  proof (rule fmap_ext)
    fix k
    have "map_of (map (\<lambda>(k, j). (k, the (string_member j))) ?e) = map_option (the \<circ> string_member) \<circ> map_of ?e"
      using map_of_map [of "the \<circ> string_member" ?e] by simp
    also have "map_of ?e = map_of (rev (string_values es))" by (simp add: map_of_put_all)
    also have "map_option (the \<circ> string_member) \<circ> \<dots> = map_of (map (\<lambda>(k, j). (k, (the \<circ> string_member) j)) (rev (string_values es)))"
      by (simp only: map_of_map)
    also have "map (\<lambda>(k, j). (k, (the \<circ> string_member) j)) (rev (string_values es)) = rev (map (\<lambda>(k, v). (to_valid k, to_valid v)) es)"
      by (simp add: rev_map [symmetric] case_prod_beta)
    finally show "fmlookup (fmap_of_list (map (\<lambda>(k, j). (k, the (string_member j))) ?e)) k
        = fmlookup (fmap_of_list (rev (map (\<lambda>(k, v). (to_valid k, to_valid v)) es))) k"
      by (simp add: fmlookup_of_list)
  qed
  ultimately show ?thesis by simp
qed

lemma unmarshal_marshal_map: "list_all json_space ws \<Longrightarrow> unmarshal_string_map (marshal_string_map m @ ws) = Some (read_back m)"
  unfolding read_back_def by (intro unmarshal_members marshal_string_map_lex)

lemma read_back_keys:
  assumes "fmpred (\<lambda>k v. utf8_text k) m" shows "read_back m = fmmap to_valid m"
proof -
  let ?xs = "sorted_list_of_fmap m" and ?f = "\<lambda>(k, v). (k, to_valid v)"
  have eq: "map (\<lambda>(k, v). (to_valid k, to_valid v)) ?xs = map ?f ?xs"
  proof (rule map_cong [OF refl])
    fix a assume "a \<in> set ?xs"
    then have "fmlookup m (fst a) = Some (snd a)" by (auto simp: sorted_list_of_fmap_def fmlookup_dom_iff)
    then show "(case a of (k, v) \<Rightarrow> (to_valid k, to_valid v)) = (case a of (k, v) \<Rightarrow> (k, to_valid v))"
      using assms by (auto simp: case_prod_beta to_valid_id dest: fmpredD)
  qed
  have "map_of (rev (map ?f ?xs)) = map_of (map ?f ?xs)"
  proof (rule map_of_inject_set [THEN iffD2])
    show "distinct (map fst (map ?f ?xs))" "distinct (map fst (rev (map ?f ?xs)))"
      by (simp_all add: sorted_list_of_fmap_def rev_map [symmetric] comp_def case_prod_beta sorted_list_of_fset.rep_eq)
  qed simp
  moreover have "map_of (map ?f ?xs) = map_option to_valid \<circ> fmlookup m"
    by (simp add: map_of_map)
  ultimately show ?thesis unfolding read_back_def eq by (intro fmap_ext) (simp add: fmlookup_of_list)
qed

lemma read_back_id:
  assumes "utf8_map m" shows "read_back m = m"
proof -
  have "fmpred (\<lambda>k v. utf8_text k) m" using assms by (auto simp: utf8_map_def fmpred_iff)
  moreover have "fmmap to_valid m = m"
    using assms by (intro fmap_ext) (auto simp: utf8_map_def to_valid_id dest: fmpredD intro!: option.map_ident_strong)
  ultimately show ?thesis by (simp add: read_back_keys)
qed

lemma ascii_text: "list_all (\<lambda>c. (of_char c :: nat) < 0x80) s \<Longrightarrow> utf8_text s"
  by (induction s) (simp_all add: utf8_text.empty utf8_text_ascii)

end
