(* ===== verification/LabelColumns.thy ===== *)
theory LabelColumns
  imports StringMapJson Samples
begin

text \<open>
  The \<open>jsonb\<close> columns of PostgreSQL: what \<open>jsonbMap\<close> and \<open>jsonbBytes\<close> hand to an
  \<open>INSERT\<close> is what \<open>scanResource\<close> reads later (\<open>internal/store/postgres.go\<close>).
\<close>

text \<open>
  Documented of \<open>jsonb\<close>: a document it accepts is given back as one of the same value (numbers are
  kept exactly, of equal keys the last wins, spaces and the order of keys are not kept).
\<close>

definition jsonb_keeps :: "pg_engine \<Rightarrow> bool" where
  "jsonb_keeps eng \<longleftrightarrow> (\<forall>t u. pe_jsonb_in eng t = Some u \<longrightarrow> json_Unmarshal u = json_Unmarshal t)"

lemma labels_read_back:
  assumes "jsonb_keeps eng" "pe_jsonb_in eng (jsonbMap m) = Some t"
  shows "unmarshal_string_map t = Some (read_back m)"
proof -
  have "json_Unmarshal t = json_Unmarshal (marshal_string_map m @ [])"
    using assms by (simp add: jsonb_keeps_def jsonbMap_def)
  then have "unmarshal_string_map t = unmarshal_string_map (marshal_string_map m @ [])"
    by (simp only: unmarshal_string_map_def)
  then show ?thesis using unmarshal_marshal_map [of "[]" m] by simp
qed

lemma jsonb_labels_SomeD: "jsonb_keeps eng \<Longrightarrow> jsonb_labels eng m = Some l \<Longrightarrow> l = read_back m"
  using labels_read_back by (auto simp: jsonb_labels_def split: option.splits)

text \<open>No row that an \<open>INSERT\<close> adds is one \<open>scanResource\<close> fails on.\<close>

lemma inserted_row_scans:
  assumes "jsonb_keeps eng" "insert_columns eng e r st = Some c"
  shows "\<exists>row. scanResource c = Inr row \<and> insert_row eng e r st = Some row"
proof -
  have "pe_jsonb_in eng (jsonbMap (r_Labels r)) = Some (col_labels c)" "pe_jsonb_in eng (jsonbMap (r_Annotations r)) = Some (col_annotations c)"
    using assms(2) by (auto simp: insert_columns_def split: if_splits option.splits)
  then show ?thesis
    using assms(2) labels_read_back [OF assms(1)] by (simp add: scanResource_def insert_row_def)
qed

lemma insert_row_documents:
  assumes "jsonb_keeps eng" "insert_row eng e r st = Some ins"
  shows "r_Labels ins = read_back (r_Labels r)" "r_Annotations ins = read_back (r_Annotations r)"
    "json_Unmarshal (bytes_of (r_Spec ins)) = json_Unmarshal (jsonbBytes (r_Spec r))"
  using assms insert_row_fields [OF assms(2)] jsonb_labels_SomeD [OF assms(1)]
  by (auto simp: insert_row_eq jsonb_keeps_def bytes_of_def split: if_splits option.splits)

lemma apply_writes_row:
  assumes "pg_Apply eng e r v s = (Inr out, s')" "IsImmutableKind (r_Kind r) \<longrightarrow> (\<exists>err. pg_Get eng (r_Kind r) (r_Colony r) (r_Name r) s = Inl err)"
  obtains st ins where "insert_row eng e r st = Some ins" "r_Labels out = r_Labels ins" "r_Annotations out = r_Annotations ins"
    "r_Spec out = r_Spec ins" "r_DeletedAt out = None"
proof (cases "IsImmutableKind (r_Kind r)")
  case True
  with assms have "pg_applyImmutable eng e r s = (Inr out, s')" by (simp add: pg_Apply_def)
  then show thesis using True assms(2)
    by (auto simp: pg_applyImmutable_def pg_insertImmutable_def Let_def insert_row_fields(3) split: sum.splits if_splits option.splits prod.splits intro: that)
next
  case False
  with assms have "pg_applyMutable eng e r v s = (Inr out, s')" by (simp add: pg_Apply_def)
  then show thesis by (cases rule: pg_applyMutable_cases) (auto simp: insert_row_fields(3) intro: that)
qed

text \<open>
  C12: documents survive the database: after an \<open>Apply\<close> that wrote (over a mutable resource, or a
  new one of any kind) \<open>Get\<close> gives back the labels and annotations of the request, bytes that are
  not UTF-8 replaced by U+FFFD and otherwise verbatim, and a specification of the same JSON value;
  and a label selector selects the resource exactly when its labels have all of the selector's.
\<close>

theorem postgres_documents_kept:
  assumes "\<forall>w\<in>set ws. client_op w" "room 0 ws" "2 * int (length ws) + 2 \<le> max_int64"
    and "jsonb_keeps eng" "r_DeletedAt r = None"
    and "pg_Apply eng e r v (pg_after eng ws) = (Inr out, s')"
    and "IsImmutableKind (r_Kind r) \<longrightarrow> (\<exists>err. pg_Get eng (r_Kind r) (r_Colony r) (r_Name r) (pg_after eng ws) = Inl err)"
  shows "\<exists>got. pg_Get eng (r_Kind r) (r_Colony r) (r_Name r) s' = Inr got
    \<and> r_Labels got = read_back (r_Labels r) \<and> r_Annotations got = read_back (r_Annotations r)
    \<and> (utf8_map (r_Labels r) \<longrightarrow> r_Labels got = r_Labels r) \<and> (utf8_map (r_Annotations r) \<longrightarrow> r_Annotations got = r_Annotations r)
    \<and> json_Unmarshal (bytes_of (r_Spec got)) = json_Unmarshal (jsonbBytes (r_Spec r))
    \<and> (\<forall>sel sel'. utf8_map (r_Labels r) \<and> utf8_map sel \<and> jsonb_labels eng sel = Some sel' \<longrightarrow>
        (pg_selects (r_Kind r) (r_Colony r) sel' got \<longleftrightarrow> (\<forall>k w. fmlookup sel k = Some w \<longrightarrow> fmlookup (r_Labels r) k = Some w)))"
proof -
  note i = pg_after_inv [OF assms(1,2), of eng]
  have rm: "p_counter (pg_after eng ws) + 2 \<le> max_int64" using i(2) assms(3) by linarith
  have a: "rs_Apply (pg_ResourceStore eng) e r v (pg_after eng ws) = (Inr out, s')"
    using assms(6) by (simp add: pg_ResourceStore_def)
  have get: "pg_Get eng (r_Kind r) (r_Colony r) (r_Name r) s' = Inr out"
    using pg.get_after_apply [OF i(1) assms(5) rm a] by (simp add: pg_ResourceStore_def)
  have key: "r_Kind out = r_Kind r" "r_Colony out = r_Colony r"
    using pg.live_ok [OF conjunct1 [OF pg.apply_inv [OF i(1) assms(5) rm a]], of "key_of r" out] pg.apply_live [OF i(1) a]
    by (simp_all add: key_of_def)
  from apply_writes_row [OF assms(6,7)] obtain st ins where ins: "insert_row eng e r st = Some ins" "r_Labels out = r_Labels ins"
    "r_Annotations out = r_Annotations ins" "r_Spec out = r_Spec ins" "r_DeletedAt out = None" .
  note doc = insert_row_documents [OF assms(4) ins(1)]
  have "pg_selects (r_Kind r) (r_Colony r) sel' out \<longleftrightarrow> (\<forall>k w. fmlookup sel k = Some w \<longrightarrow> fmlookup (r_Labels r) k = Some w)"
    if "utf8_map (r_Labels r)" "utf8_map sel" "jsonb_labels eng sel = Some sel'" for sel sel'
    using that jsonb_labels_SomeD [OF assms(4) that(3)] key ins doc
    by (auto simp: pg_selects_def pg_contains_def read_back_id fmpred_iff)
  then show ?thesis using get ins doc by (auto simp: read_back_id)
qed

definition agent_l :: resource where
  "agent_l = agent_a\<lparr>r_Labels := fmap_of_list [(''tier'', ''a&b'')]\<rparr>"

lemma agent_l_labels: "utf8_map (r_Labels agent_l)"
  by (auto simp: utf8_map_def agent_l_def fmpred_iff intro!: ascii_text split: if_splits)

lemma plain_keeps: "jsonb_keeps plain_engine"
  by (simp add: jsonb_keeps_def plain_engine_def)

lemma plain_labels: "utf8_map m \<Longrightarrow> jsonb_labels plain_engine m = Some m"
  using labels_read_back [OF plain_keeps, of m] by (simp add: jsonb_labels_def plain_engine_def read_back_id)

lemma plain_engine_accepts: "pe_jsonb_in plain_engine t = Some t" "pe_text_ok plain_engine s \<longleftrightarrow> pageTokenSep \<notin> set s"
  by (simp_all add: plain_engine_def)

lemma pg_apply_l: "\<exists>out s'. pg_Apply plain_engine env_b agent_l None (pg_after plain_engine writes_1) = (Inr out, s')"
proof -
  have l: "jsonb_labels plain_engine (r_Labels agent_l) = Some (r_Labels agent_l)" "jsonb_labels plain_engine (r_Annotations agent_l) = Some fmempty"
    by (simp_all add: plain_labels agent_l_labels) (simp add: agent_l_def agent_a_def empty_resource_def plain_engine_def)
  obtain ins where "insert_row plain_engine env_b agent_l (jsonbBytes (r_Status agent_l)) = Some ins"
    unfolding insert_row_eq l plain_engine_accepts
    by (simp add: agent_l_def agent_a_def empty_resource_def pageTokenSep_def api_version_of_def DefaultAPIVersion_def)
  then show ?thesis unfolding pg_writes_1
    by (simp add: pg_Apply_def pg_applyMutable_def agent_l_def agent_a_def empty_resource_def key_of_def IsImmutableKind_def
        ImmutableKinds_def hived_next_resource_version_def Let_def)
qed

theorem postgres_documents_kept_witness:
  "\<exists>out s' got. pg_Apply plain_engine env_b agent_l None (pg_after plain_engine writes_1) = (Inr out, s')
    \<and> pg_Get plain_engine ''Agent'' ''c'' ''a'' s' = Inr got \<and> fmlookup (r_Labels got) ''tier'' = Some ''a&b''
    \<and> json_Unmarshal (bytes_of (r_Spec got)) = Some (JObj [])"
proof -
  obtain out s' where a: "pg_Apply plain_engine env_b agent_l None (pg_after plain_engine writes_1) = (Inr out, s')"
    using pg_apply_l by blast
  have "json_Unmarshal ''{}'' = Some (JObj [])" by code_simp
  moreover have "\<not> IsImmutableKind (r_Kind agent_l)" "r_DeletedAt agent_l = None" "2 * int (length writes_1) + 2 \<le> max_int64"
    by (simp_all add: agent_l_def agent_a_def empty_resource_def IsImmutableKind_def ImmutableKinds_def writes_1_def)
  ultimately show ?thesis
    using postgres_documents_kept [OF sample_writes_ok(1) sample_writes_ok(4) _ plain_keeps _ a] agent_l_labels a
    by (auto simp: agent_l_def agent_a_def empty_resource_def jsonbBytes_def blen_def bytes_of_def)
qed

end
