(* ===== verification/ConnectStubs.thy ===== *)
theory ConnectStubs
  imports Routing
begin

text \<open>
  The rest of the generated glue: the Unimplemented handler of every service, and the clients,
  handlers and Unimplemented handlers of the Broker's and the Drone's services
  (\<open>broker.connect.go\<close>, \<open>drone.connect.go\<close>), which the Keeper does not mount. What all generated
  services have in common is a locale; the eight services interpret it.
\<close>

section \<open>The Unimplemented handlers of the served services\<close>

text \<open>\<^const>\<open>None\<close>: the service has no such method.\<close>

definition not_implemented :: "string \<Rightarrow> api_error" where
  "not_implemented rpc = ConnectError CodeUnimplemented (rpc @ '' is not implemented'')"

fun UnimplementedColonyServiceHandler :: "meth \<Rightarrow> api_error option" where
  "UnimplementedColonyServiceHandler ApplyRPC = Some (not_implemented ''hived.v1alpha1.ColonyService.Apply'')"
| "UnimplementedColonyServiceHandler GetRPC = Some (not_implemented ''hived.v1alpha1.ColonyService.Get'')"
| "UnimplementedColonyServiceHandler ListRPC = Some (not_implemented ''hived.v1alpha1.ColonyService.List'')"
| "UnimplementedColonyServiceHandler WatchRPC = Some (not_implemented ''hived.v1alpha1.ColonyService.Watch'')"
| "UnimplementedColonyServiceHandler _ = None"

fun UnimplementedAgentServiceHandler :: "meth \<Rightarrow> api_error option" where
  "UnimplementedAgentServiceHandler ApplyRPC = Some (not_implemented ''hived.v1alpha1.AgentService.Apply'')"
| "UnimplementedAgentServiceHandler GetRPC = Some (not_implemented ''hived.v1alpha1.AgentService.Get'')"
| "UnimplementedAgentServiceHandler ListRPC = Some (not_implemented ''hived.v1alpha1.AgentService.List'')"
| "UnimplementedAgentServiceHandler WatchRPC = Some (not_implemented ''hived.v1alpha1.AgentService.Watch'')"
| "UnimplementedAgentServiceHandler _ = None"

fun UnimplementedAgentVersionServiceHandler :: "meth \<Rightarrow> api_error option" where
  "UnimplementedAgentVersionServiceHandler ApplyRPC = Some (not_implemented ''hived.v1alpha1.AgentVersionService.Apply'')"
| "UnimplementedAgentVersionServiceHandler GetRPC = Some (not_implemented ''hived.v1alpha1.AgentVersionService.Get'')"
| "UnimplementedAgentVersionServiceHandler ListRPC = Some (not_implemented ''hived.v1alpha1.AgentVersionService.List'')"
| "UnimplementedAgentVersionServiceHandler WatchRPC = Some (not_implemented ''hived.v1alpha1.AgentVersionService.Watch'')"
| "UnimplementedAgentVersionServiceHandler _ = None"

fun UnimplementedRunServiceHandler :: "meth \<Rightarrow> api_error option" where
  "UnimplementedRunServiceHandler ApplyRPC = Some (not_implemented ''hived.v1alpha1.RunService.Apply'')"
| "UnimplementedRunServiceHandler GetRPC = Some (not_implemented ''hived.v1alpha1.RunService.Get'')"
| "UnimplementedRunServiceHandler ListRPC = Some (not_implemented ''hived.v1alpha1.RunService.List'')"
| "UnimplementedRunServiceHandler WatchRPC = Some (not_implemented ''hived.v1alpha1.RunService.Watch'')"
| "UnimplementedRunServiceHandler LogsRPC = Some (not_implemented ''hived.v1alpha1.RunService.Logs'')"
| "UnimplementedRunServiceHandler _ = None"

fun UnimplementedToolServiceHandler :: "meth \<Rightarrow> api_error option" where
  "UnimplementedToolServiceHandler ApplyRPC = Some (not_implemented ''hived.v1alpha1.ToolService.Apply'')"
| "UnimplementedToolServiceHandler GetRPC = Some (not_implemented ''hived.v1alpha1.ToolService.Get'')"
| "UnimplementedToolServiceHandler ListRPC = Some (not_implemented ''hived.v1alpha1.ToolService.List'')"
| "UnimplementedToolServiceHandler WatchRPC = Some (not_implemented ''hived.v1alpha1.ToolService.Watch'')"
| "UnimplementedToolServiceHandler _ = None"

fun UnimplementedEventServiceHandler :: "meth \<Rightarrow> api_error option" where
  "UnimplementedEventServiceHandler AppendRPC = Some (not_implemented ''hived.v1alpha1.EventService.Append'')"
| "UnimplementedEventServiceHandler ListRPC = Some (not_implemented ''hived.v1alpha1.EventService.List'')"
| "UnimplementedEventServiceHandler WatchRPC = Some (not_implemented ''hived.v1alpha1.EventService.Watch'')"
| "UnimplementedEventServiceHandler _ = None"

section \<open>The Broker's service\<close>

datatype broker_meth = ListRunToolsRPC | CallToolRPC

definition ToolBrokerServiceName :: string where
  "ToolBrokerServiceName = ''hived.v1alpha1.ToolBrokerService''"

fun broker_procedure :: "broker_meth \<Rightarrow> string" where
  "broker_procedure ListRunToolsRPC = ''/hived.v1alpha1.ToolBrokerService/ListRunTools''"
| "broker_procedure CallToolRPC = ''/hived.v1alpha1.ToolBrokerService/CallTool''"

definition NewToolBrokerServiceClient :: "string \<Rightarrow> (broker_meth \<times> string \<times> rpc_kind) list" where
  "NewToolBrokerServiceClient baseURL =
     (let b = trim_slashes baseURL in
       [(ListRunToolsRPC, b @ broker_procedure ListRunToolsRPC, Unary),
        (CallToolRPC, b @ broker_procedure CallToolRPC, Unary)])"

definition NewToolBrokerServiceHandler :: "string \<times> (string \<Rightarrow> (broker_meth \<times> rpc_kind) option)" where
  "NewToolBrokerServiceHandler =
     (''/hived.v1alpha1.ToolBrokerService/'',
      (\<lambda>path.
        if path = broker_procedure ListRunToolsRPC then Some (ListRunToolsRPC, Unary)
        else if path = broker_procedure CallToolRPC then Some (CallToolRPC, Unary)
        else None))"

fun UnimplementedToolBrokerServiceHandler :: "broker_meth \<Rightarrow> api_error option" where
  "UnimplementedToolBrokerServiceHandler ListRunToolsRPC = Some (not_implemented ''hived.v1alpha1.ToolBrokerService.ListRunTools'')"
| "UnimplementedToolBrokerServiceHandler CallToolRPC = Some (not_implemented ''hived.v1alpha1.ToolBrokerService.CallTool'')"

section \<open>The Drone's service\<close>

datatype drone_meth = BootstrapRPC | HeartbeatRPC | FinishRPC

definition DroneServiceName :: string where
  "DroneServiceName = ''hived.v1alpha1.DroneService''"

fun drone_procedure :: "drone_meth \<Rightarrow> string" where
  "drone_procedure BootstrapRPC = ''/hived.v1alpha1.DroneService/Bootstrap''"
| "drone_procedure HeartbeatRPC = ''/hived.v1alpha1.DroneService/Heartbeat''"
| "drone_procedure FinishRPC = ''/hived.v1alpha1.DroneService/Finish''"

definition NewDroneServiceClient :: "string \<Rightarrow> (drone_meth \<times> string \<times> rpc_kind) list" where
  "NewDroneServiceClient baseURL =
     (let b = trim_slashes baseURL in
       [(BootstrapRPC, b @ drone_procedure BootstrapRPC, Unary),
        (HeartbeatRPC, b @ drone_procedure HeartbeatRPC, Unary),
        (FinishRPC, b @ drone_procedure FinishRPC, Unary)])"

definition NewDroneServiceHandler :: "string \<times> (string \<Rightarrow> (drone_meth \<times> rpc_kind) option)" where
  "NewDroneServiceHandler =
     (''/hived.v1alpha1.DroneService/'',
      (\<lambda>path.
        if path = drone_procedure BootstrapRPC then Some (BootstrapRPC, Unary)
        else if path = drone_procedure HeartbeatRPC then Some (HeartbeatRPC, Unary)
        else if path = drone_procedure FinishRPC then Some (FinishRPC, Unary)
        else None))"

fun UnimplementedDroneServiceHandler :: "drone_meth \<Rightarrow> api_error option" where
  "UnimplementedDroneServiceHandler BootstrapRPC = Some (not_implemented ''hived.v1alpha1.DroneService.Bootstrap'')"
| "UnimplementedDroneServiceHandler HeartbeatRPC = Some (not_implemented ''hived.v1alpha1.DroneService.Heartbeat'')"
| "UnimplementedDroneServiceHandler FinishRPC = Some (not_implemented ''hived.v1alpha1.DroneService.Finish'')"

section \<open>What a generated service is\<close>

lemma find_SomeD: "List.find P xs = Some x \<Longrightarrow> x \<in> set xs \<and> P x"
  by (induction xs) (auto split: if_splits)

text \<open>\<open>rpcs\<close> are the methods with their names and kinds, in the order of the proto file.\<close>

locale connect_service =
  fixes name :: string
    and rpcs :: "('m \<times> string \<times> rpc_kind) list"
    and proc :: "'m \<Rightarrow> string"
    and client :: "string \<Rightarrow> ('m \<times> string \<times> rpc_kind) list"
    and handler :: "string \<times> (string \<Rightarrow> ('m \<times> rpc_kind) option)"
    and unimplemented :: "'m \<Rightarrow> api_error option"
  assumes names: "distinct (map fst rpcs)" "distinct (map (fst \<circ> snd) rpcs)"
    and proc_name: "(m, n, k) \<in> set rpcs \<Longrightarrow> proc m = ''/'' @ name @ ''/'' @ n"
    and client_rpcs: "client base = map (\<lambda>(m, n, k). (m, trim_slashes base @ proc m, k)) rpcs"
    and mounted: "fst handler = ''/'' @ name @ ''/''"
    and switch: "snd handler path = map_option (\<lambda>(m, n, k). (m, k)) (List.find (\<lambda>(m, n, k). path = proc m) rpcs)"
    and stub: "(m, n, k) \<in> set rpcs \<Longrightarrow> unimplemented m = Some (not_implemented (name @ ''.'' @ n))"
    and stub_only: "unimplemented m = Some e \<Longrightarrow> m \<in> fst ` set rpcs"
begin

lemma proc_inj: "(m, n, k) \<in> set rpcs \<Longrightarrow> (m', n', k') \<in> set rpcs \<Longrightarrow> proc m = proc m' \<Longrightarrow> (m, n, k) = (m', n', k')"
  using proc_name names(2) by (fastforce simp: distinct_map inj_on_def)

lemma switch_iff: "snd handler path = Some (m, k) \<longleftrightarrow> (\<exists>n. (m, n, k) \<in> set rpcs \<and> path = proc m)"
proof
  assume "snd handler path = Some (m, k)"
  then show "\<exists>n. (m, n, k) \<in> set rpcs \<and> path = proc m"
    by (auto simp: switch dest!: find_SomeD)
next
  assume "\<exists>n. (m, n, k) \<in> set rpcs \<and> path = proc m"
  then obtain n where n: "(m, n, k) \<in> set rpcs" "path = proc m" by blast
  then have "List.find (\<lambda>(m, n, k). path = proc m) rpcs \<noteq> None" by (auto simp: find_None_iff simp del: not_None_eq)
  then obtain x where x: "List.find (\<lambda>(m, n, k). path = proc m) rpcs = Some x" by blast
  then have "x \<in> set rpcs" "path = proc (fst x)" by (auto dest: find_SomeD)
  with proc_inj [of m n k "fst x" "fst (snd x)" "snd (snd x)"] n have "x = (m, n, k)" by simp
  with x show "snd handler path = Some (m, k)" by (simp add: switch)
qed

lemma client_reaches:
  "(m, url, k) \<in> set (client base) \<longleftrightarrow> (\<exists>path. url = trim_slashes base @ path \<and> snd handler path = Some (m, k))"
  unfolding switch_iff by (force simp: client_rpcs)

lemma below_mount: "snd handler path = Some (m, k) \<Longrightarrow> \<exists>rest. path = fst handler @ rest"
  using proc_name by (auto simp: switch_iff mounted)

lemma stub_answers: "unimplemented m = Some e \<Longrightarrow> \<exists>n. proc m = ''/'' @ name @ ''/'' @ n \<and> e = not_implemented (name @ ''.'' @ n)"
  using stub_only [of m e] stub proc_name by fastforce

lemma stub_total: "(\<exists>e. unimplemented m = Some e) \<longleftrightarrow> (\<exists>url k. (m, url, k) \<in> set (client base))"
proof
  assume "\<exists>e. unimplemented m = Some e"
  then obtain n k where "(m, n, k) \<in> set rpcs" using stub_only by fastforce
  then show "\<exists>url k. (m, url, k) \<in> set (client base)" by (force simp: client_rpcs)
next
  assume "\<exists>url k. (m, url, k) \<in> set (client base)"
  then obtain n k where "(m, n, k) \<in> set rpcs" by (auto simp: client_rpcs)
  then show "\<exists>e. unimplemented m = Some e" using stub by blast
qed

end

interpretation colony_rpcs: connect_service "service_name ColonyService"
  "[(ApplyRPC, ''Apply'', Unary), (GetRPC, ''Get'', Unary), (ListRPC, ''List'', Unary), (WatchRPC, ''Watch'', ServerStream)]"
  "procedure ColonyService" NewColonyServiceClient NewColonyServiceHandler UnimplementedColonyServiceHandler
  by unfold_locales (auto simp: NewColonyServiceClient_def NewColonyServiceHandler_def not_implemented_def Let_def elim: UnimplementedColonyServiceHandler.elims)

interpretation agent_rpcs: connect_service "service_name AgentService"
  "[(ApplyRPC, ''Apply'', Unary), (GetRPC, ''Get'', Unary), (ListRPC, ''List'', Unary), (WatchRPC, ''Watch'', ServerStream)]"
  "procedure AgentService" NewAgentServiceClient NewAgentServiceHandler UnimplementedAgentServiceHandler
  by unfold_locales (auto simp: NewAgentServiceClient_def NewAgentServiceHandler_def not_implemented_def Let_def elim: UnimplementedAgentServiceHandler.elims)

interpretation agentVersion_rpcs: connect_service "service_name AgentVersionService"
  "[(ApplyRPC, ''Apply'', Unary), (GetRPC, ''Get'', Unary), (ListRPC, ''List'', Unary), (WatchRPC, ''Watch'', ServerStream)]"
  "procedure AgentVersionService" NewAgentVersionServiceClient NewAgentVersionServiceHandler UnimplementedAgentVersionServiceHandler
  by unfold_locales (auto simp: NewAgentVersionServiceClient_def NewAgentVersionServiceHandler_def not_implemented_def Let_def elim: UnimplementedAgentVersionServiceHandler.elims)

interpretation run_rpcs: connect_service "service_name RunService"
  "[(ApplyRPC, ''Apply'', Unary), (GetRPC, ''Get'', Unary), (ListRPC, ''List'', Unary), (WatchRPC, ''Watch'', ServerStream), (LogsRPC, ''Logs'', ServerStream)]"
  "procedure RunService" NewRunServiceClient NewRunServiceHandler UnimplementedRunServiceHandler
  by unfold_locales (auto simp: NewRunServiceClient_def NewRunServiceHandler_def not_implemented_def Let_def elim: UnimplementedRunServiceHandler.elims)

interpretation tool_rpcs: connect_service "service_name ToolService"
  "[(ApplyRPC, ''Apply'', Unary), (GetRPC, ''Get'', Unary), (ListRPC, ''List'', Unary), (WatchRPC, ''Watch'', ServerStream)]"
  "procedure ToolService" NewToolServiceClient NewToolServiceHandler UnimplementedToolServiceHandler
  by unfold_locales (auto simp: NewToolServiceClient_def NewToolServiceHandler_def not_implemented_def Let_def elim: UnimplementedToolServiceHandler.elims)

interpretation event_rpcs: connect_service "service_name EventService"
  "[(AppendRPC, ''Append'', Unary), (ListRPC, ''List'', Unary), (WatchRPC, ''Watch'', ServerStream)]"
  "procedure EventService" NewEventServiceClient NewEventServiceHandler UnimplementedEventServiceHandler
  by unfold_locales (auto simp: NewEventServiceClient_def NewEventServiceHandler_def not_implemented_def Let_def elim: UnimplementedEventServiceHandler.elims)

interpretation broker_rpcs: connect_service ToolBrokerServiceName
  "[(ListRunToolsRPC, ''ListRunTools'', Unary), (CallToolRPC, ''CallTool'', Unary)]"
  broker_procedure NewToolBrokerServiceClient NewToolBrokerServiceHandler UnimplementedToolBrokerServiceHandler
  by unfold_locales (auto simp: NewToolBrokerServiceClient_def NewToolBrokerServiceHandler_def ToolBrokerServiceName_def not_implemented_def Let_def elim: UnimplementedToolBrokerServiceHandler.elims)

interpretation drone_rpcs: connect_service DroneServiceName
  "[(BootstrapRPC, ''Bootstrap'', Unary), (HeartbeatRPC, ''Heartbeat'', Unary), (FinishRPC, ''Finish'', Unary)]"
  drone_procedure NewDroneServiceClient NewDroneServiceHandler UnimplementedDroneServiceHandler
  by unfold_locales (auto simp: NewDroneServiceClient_def NewDroneServiceHandler_def DroneServiceName_def not_implemented_def Let_def elim: UnimplementedDroneServiceHandler.elims)

text \<open>The Unimplemented handlers of the served services name the RPC by its path as well.\<close>

lemma served_stubs:
  "UnimplementedColonyServiceHandler m = Some e \<Longrightarrow> \<exists>n. procedure ColonyService m = ''/'' @ service_name ColonyService @ ''/'' @ n
    \<and> e = not_implemented (service_name ColonyService @ ''.'' @ n)"
  "UnimplementedAgentServiceHandler m = Some e \<Longrightarrow> \<exists>n. procedure AgentService m = ''/'' @ service_name AgentService @ ''/'' @ n
    \<and> e = not_implemented (service_name AgentService @ ''.'' @ n)"
  "UnimplementedAgentVersionServiceHandler m = Some e \<Longrightarrow> \<exists>n. procedure AgentVersionService m = ''/'' @ service_name AgentVersionService @ ''/'' @ n
    \<and> e = not_implemented (service_name AgentVersionService @ ''.'' @ n)"
  "UnimplementedRunServiceHandler m = Some e \<Longrightarrow> \<exists>n. procedure RunService m = ''/'' @ service_name RunService @ ''/'' @ n
    \<and> e = not_implemented (service_name RunService @ ''.'' @ n)"
  "UnimplementedToolServiceHandler m = Some e \<Longrightarrow> \<exists>n. procedure ToolService m = ''/'' @ service_name ToolService @ ''/'' @ n
    \<and> e = not_implemented (service_name ToolService @ ''.'' @ n)"
  "UnimplementedEventServiceHandler m = Some e \<Longrightarrow> \<exists>n. procedure EventService m = ''/'' @ service_name EventService @ ''/'' @ n
    \<and> e = not_implemented (service_name EventService @ ''.'' @ n)"
  by (fact colony_rpcs.stub_answers agent_rpcs.stub_answers agentVersion_rpcs.stub_answers run_rpcs.stub_answers tool_rpcs.stub_answers event_rpcs.stub_answers)+

section \<open>Unserved services\<close>

lemma mounted_routes: "map fst mux_routes =
    [''/hived.v1alpha1.ColonyService/'', ''/hived.v1alpha1.AgentService/'', ''/hived.v1alpha1.AgentVersionService/'',
     ''/hived.v1alpha1.RunService/'', ''/hived.v1alpha1.ToolService/'', ''/hived.v1alpha1.EventService/'', ''/healthz'', ''/readyz'']"
  by code_simp

text \<open>
  The generated services that the Keeper does not serve are consistent and out of its
  reach: a client of the Broker or the Drone calls exactly the paths its handler switches on,
  the Unimplemented handler answers every method with \<open>unimplemented\<close> and names it by its path,
  and the Keeper's mux answers none of these paths, whatever follows the services' names.
\<close>

theorem unserved_services:
  "((bm, url, k) \<in> set (NewToolBrokerServiceClient base) \<longleftrightarrow>
      (\<exists>path. url = trim_slashes base @ path \<and> snd NewToolBrokerServiceHandler path = Some (bm, k)))
    \<and> ((dm, url, k) \<in> set (NewDroneServiceClient base) \<longleftrightarrow>
      (\<exists>path. url = trim_slashes base @ path \<and> snd NewDroneServiceHandler path = Some (dm, k)))
    \<and> (\<exists>n. broker_procedure bm = fst NewToolBrokerServiceHandler @ n
        \<and> UnimplementedToolBrokerServiceHandler bm = Some (not_implemented (ToolBrokerServiceName @ ''.'' @ n)))
    \<and> (\<exists>n. drone_procedure dm = fst NewDroneServiceHandler @ n
        \<and> UnimplementedDroneServiceHandler dm = Some (not_implemented (DroneServiceName @ ''.'' @ n)))
    \<and> mux_match (fst NewToolBrokerServiceHandler @ rest) = None \<and> mux_match (fst NewDroneServiceHandler @ rest) = None"
proof (intro conjI)
  show "(bm, url, k) \<in> set (NewToolBrokerServiceClient base) \<longleftrightarrow>
      (\<exists>path. url = trim_slashes base @ path \<and> snd NewToolBrokerServiceHandler path = Some (bm, k))"
    by (rule broker_rpcs.client_reaches)
  show "(dm, url, k) \<in> set (NewDroneServiceClient base) \<longleftrightarrow>
      (\<exists>path. url = trim_slashes base @ path \<and> snd NewDroneServiceHandler path = Some (dm, k))"
    by (rule drone_rpcs.client_reaches)
  show "\<exists>n. broker_procedure bm = fst NewToolBrokerServiceHandler @ n
      \<and> UnimplementedToolBrokerServiceHandler bm = Some (not_implemented (ToolBrokerServiceName @ ''.'' @ n))"
    by (cases bm) (simp_all add: NewToolBrokerServiceHandler_def ToolBrokerServiceName_def)
  show "\<exists>n. drone_procedure dm = fst NewDroneServiceHandler @ n
      \<and> UnimplementedDroneServiceHandler dm = Some (not_implemented (DroneServiceName @ ''.'' @ n))"
    by (cases dm) (simp_all add: NewDroneServiceHandler_def DroneServiceName_def)
  have none: "mux_match path = None" if "list_all (\<lambda>pat. \<not> pattern_matches pat path) (map fst mux_routes)" for path
  proof -
    have "filter (\<lambda>(pat, _). pattern_matches pat path) mux_routes = []"
      using that by (auto simp: list_all_iff filter_empty_conv)
    then show ?thesis by (simp add: mux_match_def)
  qed
  show "mux_match (fst NewToolBrokerServiceHandler @ rest) = None" "mux_match (fst NewDroneServiceHandler @ rest) = None"
    by (rule none; simp add: mounted_routes pattern_matches_def strings_HasPrefix_iff
        NewToolBrokerServiceHandler_def NewDroneServiceHandler_def)+
qed

end
