(* ===== verification/DroneMessages.thy ===== *)
theory DroneMessages
  imports Messages
begin

text \<open>
  The messages no handler reads: those of the Broker's and the Drone's services
  (\<open>gen/hived/v1alpha1/broker.pb.go\<close>, \<open>drone.pb.go\<close>), and of the RPCs \<open>Logs\<close> and \<open>Watch\<close> of
  the Run's and the Event's (\<open>service.pb.go\<close>). As in theory \<open>Messages\<close>, an embedded message is
  an option (nil is \<^const>\<open>None\<close>) and an enum is its number.
\<close>

section \<open>Runs and events\<close>

record RunLogsRequest =
  lg_Colony :: string
  lg_Name :: string
  lg_Follow :: bool
  lg_Since :: "Timestamp option"

record RunLogChunk =
  lc_Ts :: "Timestamp option"
  lc_Stream :: string
  lc_Data :: bytes
  lc_CellRef :: string

record AppendEventRequest =
  ae_Object :: "pb_Event option"

record WatchEventsRequest =
  we_Colony :: string
  we_Run :: string
  we_SinceResourceVersion :: int

section \<open>The Broker\<close>

record ToolDescriptor =
  td_Name :: string
  td_Description :: string
  td_InputSchema :: "Struct option"

record ListRunToolsRequest =
  lt_Colony :: string
  lt_Run :: string

record ListRunToolsResponse =
  lt_Tools :: "ToolDescriptor list"

record CallToolRequest =
  ct_Colony :: string
  ct_Run :: string
  ct_Attempt :: int
  ct_Step :: int
  ct_CallId :: string
  ct_Name :: string
  ct_Arguments :: "Struct option"

record CallToolResponse =
  ct_Content :: "Struct option"
  ct_IsError :: bool
  ct_Replayed :: bool

section \<open>The Drone\<close>

type_synonym ControlSignal = int

definition ControlSignal_name :: "(int \<times> string) list" where
  "ControlSignal_name =
     [(0, ''CONTROL_SIGNAL_UNSPECIFIED''), (1, ''CONTROL_SIGNAL_CANCEL''), (2, ''CONTROL_SIGNAL_PAUSE''),
      (3, ''CONTROL_SIGNAL_RESUME'')]"

record MemoryConfig =
  mc_Endpoint :: string
  mc_KvNamespace :: string
  mc_EpisodicNamespace :: string
  mc_KeyPrefix :: string
  mc_SessionId :: string

record RunManifest =
  rm_Run :: "Run option"
  rm_AgentVersion :: "AgentVersion option"
  rm_ModelGatewayUrl :: string
  rm_ToolBrokerUrl :: string
  rm_Memory :: "MemoryConfig option"
  rm_Tools :: "ToolDescriptor list"

record BootstrapRequest =
  bt_Colony :: string
  bt_Run :: string
  bt_Attempt :: int

record BootstrapResponse =
  bt_Manifest :: "RunManifest option"
  bt_IdentityToken :: string
  bt_MemoryToken :: string
  bt_Resume :: bool
  bt_CheckpointRef :: string

record HeartbeatRequest =
  hb_Colony :: string
  hb_Run :: string
  hb_Attempt :: int
  hb_Step :: int
  hb_Tokens :: "TokenUsage option"
  hb_CheckpointRef :: string
  hb_Phase :: RunPhase

record HeartbeatResponse =
  hb_Signals :: "ControlSignal list"
  hb_IdentityToken :: string
  hb_MemoryToken :: string
  hb_ServerTime :: "Timestamp option"

record FinishRequest =
  fn_Colony :: string
  fn_Run :: string
  fn_Attempt :: int
  fn_Phase :: RunPhase
  fn_Result :: "Struct option"
  fn_Message :: string
  fn_Step :: int
  fn_Tokens :: "TokenUsage option"
  fn_CheckpointRef :: string

datatype FinishResponse = FinishResponse

end
