(* ===== verification/HttpApi.thy ===== *)
theory HttpApi
  imports Keeper ConnectStubs DroneMessages
begin

text \<open>
  The API over HTTP: the structs and methods of the generated clients, which call a URL, and
  the handler \<open>NewHandler\<close> builds (\<open>internal/api/server.go\<close>), which answers a path, with the
  handler interfaces between them (\<open>service.connect.go\<close>). Messages travel as values: their
  encoding is generated library code. Theory \<open>Keeper\<close> has what the commands see of it.
\<close>

section \<open>What travels\<close>

text \<open>The messages of a resource service, of the Event's, of \<open>Logs\<close>, of the Broker's and the Drone's.\<close>

datatype ('spec, 'status) service_message =
    ApplyReq "('spec, 'status) object ApplyRequest"
  | GetReq GetRequest
  | ListReq ListRequest
  | WatchReq WatchRequest
  | Obj "('spec, 'status) object"
  | ListResp "('spec, 'status) object ListResponse"
  | WatchMsg "('spec, 'status) object WatchEvent"

datatype event_message =
    AppendReq AppendEventRequest
  | ListEventsReq ListEventsRequest
  | WatchEventsReq WatchEventsRequest
  | EventMsg pb_Event
  | ListEventsResp "pb_Event list"

datatype log_message = LogsReq RunLogsRequest | LogChunk RunLogChunk

datatype broker_message =
    ListRunToolsReq ListRunToolsRequest
  | ListRunToolsResp ListRunToolsResponse
  | CallToolReq CallToolRequest
  | CallToolResp CallToolResponse

datatype drone_message =
    BootstrapReq BootstrapRequest
  | BootstrapResp BootstrapResponse
  | HeartbeatReq HeartbeatRequest
  | HeartbeatResp HeartbeatResponse
  | FinishReq FinishRequest
  | FinishResp FinishResponse

datatype message =
    ColonyMessage "(ColonySpec, ColonyStatus) service_message"
  | AgentMessage "(AgentSpec, AgentStatus) service_message"
  | AgentVersionMessage "(AgentVersionSpec, AgentVersionStatus) service_message"
  | RunMessage "(RunSpec, RunStatus) service_message"
  | ToolMessage "(ToolSpec, ToolStatus) service_message"
  | EventMessage event_message
  | LogMessage log_message
  | BrokerMessage broker_message
  | DroneMessage drone_message

fun un_colony where "un_colony (ColonyMessage m) = Some m" | "un_colony _ = None"
fun un_agent where "un_agent (AgentMessage m) = Some m" | "un_agent _ = None"
fun un_agentVersion where "un_agentVersion (AgentVersionMessage m) = Some m" | "un_agentVersion _ = None"
fun un_run where "un_run (RunMessage m) = Some m" | "un_run _ = None"
fun un_tool where "un_tool (ToolMessage m) = Some m" | "un_tool _ = None"

text \<open>An answer: a message, an error, the messages of a stream and how it ended, or a plain page.\<close>

datatype reply =
    Reply message
  | Failure api_error
  | Stream "message list" "api_error option"
  | Page http_response

type_synonym 's transport = "string \<Rightarrow> call \<Rightarrow> message \<Rightarrow> 's \<Rightarrow> reply \<times> 's"

section \<open>Clients\<close>

text \<open>
  \<open>connect.Client.CallUnary\<close> and \<open>CallServerStream\<close> on the URL of the client, which expect
  messages of their type; \<open>garbled\<close> is the error of anything else.
\<close>

definition CallUnary ::
  "api_error \<Rightarrow> 's transport \<Rightarrow> string \<Rightarrow> (message \<Rightarrow> 'r option) \<Rightarrow> call \<Rightarrow> message \<Rightarrow> 's \<Rightarrow> (api_error + 'r) \<times> 's" where
  "CallUnary garbled tr url dec cl req s =
     (case tr url cl req s of
        (Reply m, s') \<Rightarrow> ((case dec m of Some r \<Rightarrow> Inr r | None \<Rightarrow> Inl garbled), s')
      | (Failure e, s') \<Rightarrow> (Inl e, s')
      | (_, s') \<Rightarrow> (Inl garbled, s'))"

fun receive :: "api_error \<Rightarrow> (message \<Rightarrow> 'r option) \<Rightarrow> message list \<Rightarrow> api_error option \<Rightarrow> 'r list \<times> api_error option" where
  "receive garbled dec [] err = ([], err)"
| "receive garbled dec (m # ms) err =
     (case dec m of None \<Rightarrow> ([], Some garbled) | Some r \<Rightarrow> apfst (Cons r) (receive garbled dec ms err))"

definition CallServerStream ::
  "api_error \<Rightarrow> 's transport \<Rightarrow> string \<Rightarrow> (message \<Rightarrow> 'r option) \<Rightarrow> call \<Rightarrow> message \<Rightarrow> 's
    \<Rightarrow> ('r list \<times> api_error option) \<times> 's" where
  "CallServerStream garbled tr url dec cl req s =
     (case tr url cl req s of
        (Stream ms err, s') \<Rightarrow> (receive garbled dec ms err, s')
      | (Failure e, s') \<Rightarrow> (([], Some e), s')
      | (_, s') \<Rightarrow> (([], Some garbled), s'))"

text \<open>The field of a client's struct for a method: the URL its constructor gave it.\<close>

definition field_url :: "('m \<times> string \<times> rpc_kind) list \<Rightarrow> 'm \<Rightarrow> string" where
  "field_url c m = (case map_of c m of Some (url, _) \<Rightarrow> url | None \<Rightarrow> '''')"

text \<open>The four methods of a client struct, each a call on its field with its types.\<close>

definition resource_client ::
  "api_error \<Rightarrow> 's transport \<Rightarrow> (('spec, 'status) service_message \<Rightarrow> message) \<Rightarrow> (message \<Rightarrow> ('spec, 'status) service_message option)
    \<Rightarrow> (meth \<times> string \<times> rpc_kind) list \<Rightarrow> (call, 's, 'spec, 'status) service_rpcs" where
  "resource_client g tr wrap un c =
     (let obj = (\<lambda>m. case un m of Some (Obj x) \<Rightarrow> Some x | _ \<Rightarrow> None);
          objs = (\<lambda>m. case un m of Some (ListResp x) \<Rightarrow> Some x | _ \<Rightarrow> None);
          ev = (\<lambda>m. case un m of Some (WatchMsg x) \<Rightarrow> Some x | _ \<Rightarrow> None)
      in \<lparr>sv_Apply = (\<lambda>cl req. CallUnary g tr (field_url c ApplyRPC) obj cl (wrap (ApplyReq req))),
          sv_Get = (\<lambda>cl req. CallUnary g tr (field_url c GetRPC) obj cl (wrap (GetReq req))),
          sv_List = (\<lambda>cl req. CallUnary g tr (field_url c ListRPC) objs cl (wrap (ListReq req))),
          sv_Watch = (\<lambda>cl req. CallServerStream g tr (field_url c WatchRPC) ev cl (wrap (WatchReq req)))\<rparr>)"

definition colonyServiceClient where
  "colonyServiceClient g tr c = resource_client g tr ColonyMessage un_colony c"

definition agentServiceClient where
  "agentServiceClient g tr c = resource_client g tr AgentMessage un_agent c"

definition agentVersionServiceClient where
  "agentVersionServiceClient g tr c = resource_client g tr AgentVersionMessage un_agentVersion c"

definition toolServiceClient where
  "toolServiceClient g tr c = resource_client g tr ToolMessage un_tool c"

text \<open>A Run has \<open>Logs\<close> as well.\<close>

record ('c, 's) run_rpcs = "('c, 's, RunSpec, RunStatus) service_rpcs" +
  sv_Logs :: "'c \<Rightarrow> RunLogsRequest \<Rightarrow> 's \<Rightarrow> (RunLogChunk list \<times> api_error option) \<times> 's"

definition runServiceClient ::
  "api_error \<Rightarrow> 's transport \<Rightarrow> (meth \<times> string \<times> rpc_kind) list \<Rightarrow> (call, 's) run_rpcs" where
  "runServiceClient g tr c =
     service_rpcs.extend (resource_client g tr RunMessage un_run c)
       (run_rpcs.fields (\<lambda>cl req. CallServerStream g tr (field_url c LogsRPC)
          (\<lambda>m. case m of LogMessage (LogChunk x) \<Rightarrow> Some x | _ \<Rightarrow> None) cl (LogMessage (LogsReq req))))"

record ('c, 's) event_rpcs =
  er_Append :: "'c \<Rightarrow> AppendEventRequest \<Rightarrow> 's \<Rightarrow> (api_error + pb_Event) \<times> 's"
  er_List :: "'c \<Rightarrow> ListEventsRequest \<Rightarrow> 's \<Rightarrow> (api_error + pb_Event list) \<times> 's"
  er_Watch :: "'c \<Rightarrow> WatchEventsRequest \<Rightarrow> 's \<Rightarrow> (pb_Event list \<times> api_error option) \<times> 's"

definition eventServiceClient ::
  "api_error \<Rightarrow> 's transport \<Rightarrow> (meth \<times> string \<times> rpc_kind) list \<Rightarrow> (call, 's) event_rpcs" where
  "eventServiceClient g tr c =
     (let ev = (\<lambda>m. case m of EventMessage (EventMsg x) \<Rightarrow> Some x | _ \<Rightarrow> None);
          evs = (\<lambda>m. case m of EventMessage (ListEventsResp x) \<Rightarrow> Some x | _ \<Rightarrow> None)
      in \<lparr>er_Append = (\<lambda>cl req. CallUnary g tr (field_url c AppendRPC) ev cl (EventMessage (AppendReq req))),
          er_List = (\<lambda>cl req. CallUnary g tr (field_url c ListRPC) evs cl (EventMessage (ListEventsReq req))),
          er_Watch = (\<lambda>cl req. CallServerStream g tr (field_url c WatchRPC) ev cl (EventMessage (WatchEventsReq req)))\<rparr>)"

record ('c, 's) broker_rpcs =
  br_ListRunTools :: "'c \<Rightarrow> ListRunToolsRequest \<Rightarrow> 's \<Rightarrow> (api_error + ListRunToolsResponse) \<times> 's"
  br_CallTool :: "'c \<Rightarrow> CallToolRequest \<Rightarrow> 's \<Rightarrow> (api_error + CallToolResponse) \<times> 's"

definition toolBrokerServiceClient ::
  "api_error \<Rightarrow> 's transport \<Rightarrow> (broker_meth \<times> string \<times> rpc_kind) list \<Rightarrow> (call, 's) broker_rpcs" where
  "toolBrokerServiceClient g tr c =
     \<lparr>br_ListRunTools = (\<lambda>cl req. CallUnary g tr (field_url c ListRunToolsRPC)
        (\<lambda>m. case m of BrokerMessage (ListRunToolsResp x) \<Rightarrow> Some x | _ \<Rightarrow> None) cl (BrokerMessage (ListRunToolsReq req))),
      br_CallTool = (\<lambda>cl req. CallUnary g tr (field_url c CallToolRPC)
        (\<lambda>m. case m of BrokerMessage (CallToolResp x) \<Rightarrow> Some x | _ \<Rightarrow> None) cl (BrokerMessage (CallToolReq req)))\<rparr>"

record ('c, 's) drone_rpcs =
  dr_Bootstrap :: "'c \<Rightarrow> BootstrapRequest \<Rightarrow> 's \<Rightarrow> (api_error + BootstrapResponse) \<times> 's"
  dr_Heartbeat :: "'c \<Rightarrow> HeartbeatRequest \<Rightarrow> 's \<Rightarrow> (api_error + HeartbeatResponse) \<times> 's"
  dr_Finish :: "'c \<Rightarrow> FinishRequest \<Rightarrow> 's \<Rightarrow> (api_error + FinishResponse) \<times> 's"

definition droneServiceClient ::
  "api_error \<Rightarrow> 's transport \<Rightarrow> (drone_meth \<times> string \<times> rpc_kind) list \<Rightarrow> (call, 's) drone_rpcs" where
  "droneServiceClient g tr c =
     \<lparr>dr_Bootstrap = (\<lambda>cl req. CallUnary g tr (field_url c BootstrapRPC)
        (\<lambda>m. case m of DroneMessage (BootstrapResp x) \<Rightarrow> Some x | _ \<Rightarrow> None) cl (DroneMessage (BootstrapReq req))),
      dr_Heartbeat = (\<lambda>cl req. CallUnary g tr (field_url c HeartbeatRPC)
        (\<lambda>m. case m of DroneMessage (HeartbeatResp x) \<Rightarrow> Some x | _ \<Rightarrow> None) cl (DroneMessage (HeartbeatReq req))),
      dr_Finish = (\<lambda>cl req. CallUnary g tr (field_url c FinishRPC)
        (\<lambda>m. case m of DroneMessage (FinishResp x) \<Rightarrow> Some x | _ \<Rightarrow> None) cl (DroneMessage (FinishReq req)))\<rparr>"

section \<open>Handlers\<close>

text \<open>
  The handler interfaces: a method takes the request and the state behind the store; a method
  that only reads leaves it. A stream answers the messages it sent and the error it returned.
\<close>

record ('s, 'spec, 'status) ServiceHandler =
  sh_Apply :: "('spec, 'status) object ApplyRequest \<Rightarrow> 's \<Rightarrow> (api_error + ('spec, 'status) object) \<times> 's"
  sh_Get :: "GetRequest \<Rightarrow> 's \<Rightarrow> api_error + ('spec, 'status) object"
  sh_List :: "ListRequest \<Rightarrow> 's \<Rightarrow> api_error + ('spec, 'status) object ListResponse"
  sh_Watch :: "WatchRequest \<Rightarrow> 's \<Rightarrow> ('spec, 'status) object WatchEvent list \<times> api_error option"

type_synonym 's ColonyServiceHandler = "('s, ColonySpec, ColonyStatus) ServiceHandler"
type_synonym 's AgentServiceHandler = "('s, AgentSpec, AgentStatus) ServiceHandler"
type_synonym 's AgentVersionServiceHandler = "('s, AgentVersionSpec, AgentVersionStatus) ServiceHandler"
type_synonym 's ToolServiceHandler = "('s, ToolSpec, ToolStatus) ServiceHandler"

record 's RunServiceHandler = "('s, RunSpec, RunStatus) ServiceHandler" +
  sh_Logs :: "RunLogsRequest \<Rightarrow> 's \<Rightarrow> RunLogChunk list \<times> api_error option"

record 's EventServiceHandler =
  eh_Append :: "AppendEventRequest \<Rightarrow> 's \<Rightarrow> (api_error + pb_Event) \<times> 's"
  eh_List :: "ListEventsRequest \<Rightarrow> 's \<Rightarrow> api_error + pb_Event list"
  eh_Watch :: "WatchEventsRequest \<Rightarrow> 's \<Rightarrow> pb_Event list \<times> api_error option"

text \<open>
  The handlers over a store. As in theory \<open>Keeper\<close> the clock and the UIDs are a function of the
  state, and \<open>ch\<close> gives what a watch's channel delivered.
\<close>

record 's runtime =
  rt_codecs :: wire_codecs
  rt_clock :: "'s \<Rightarrow> env"
  rt_watch :: "string \<Rightarrow> list_options \<Rightarrow> int \<Rightarrow> 's \<Rightarrow> watch_event list"
  rt_events :: "string \<Rightarrow> string \<Rightarrow> int \<Rightarrow> 's \<Rightarrow> event list"

definition NewColonyHandler :: "'s runtime \<Rightarrow> 's ResourceStore \<Rightarrow> 's ColonyServiceHandler" where
  "NewColonyHandler rt S =
     (let T = wc_time (rt_codecs rt); cd = wc_colony (rt_codecs rt) in
      \<lparr>sh_Apply = (\<lambda>req s. Colony_Apply T cd S (rt_clock rt s) req s),
       sh_Get = (\<lambda>req. Colony_Get T cd S (gt_Name req)),
       sh_List = Colony_List T cd S,
       sh_Watch = (\<lambda>req s. Colony_Watch T cd (\<lambda>_ _. None)
         (rt_watch rt ''Colony'' (colony_watch_options req) (wr_SinceResourceVersion req) s))\<rparr>)"

definition NewAgentHandler :: "'s runtime \<Rightarrow> 's ResourceStore \<Rightarrow> 's AgentServiceHandler" where
  "NewAgentHandler rt S =
     (let T = wc_time (rt_codecs rt); cd = wc_agent (rt_codecs rt) in
      \<lparr>sh_Apply = (\<lambda>req s. Agent_Apply T cd S (rt_clock rt s) req s),
       sh_Get = Agent_Get T cd S,
       sh_List = Agent_List T cd S,
       sh_Watch = (\<lambda>req s. Agent_Watch T cd (\<lambda>_ _. None)
         (rt_watch rt ''Agent'' (toListOptions (wr_Options req)) (wr_SinceResourceVersion req) s))\<rparr>)"

definition NewAgentVersionHandler :: "'s runtime \<Rightarrow> 's ResourceStore \<Rightarrow> 's AgentVersionServiceHandler" where
  "NewAgentVersionHandler rt S =
     (let T = wc_time (rt_codecs rt); cd = wc_agentVersion (rt_codecs rt) in
      \<lparr>sh_Apply = (\<lambda>req s. AgentVersion_Apply T cd S (rt_clock rt s) req s),
       sh_Get = AgentVersion_Get T cd S,
       sh_List = AgentVersion_List T cd S,
       sh_Watch = (\<lambda>req s. AgentVersion_Watch T cd (\<lambda>_ _. None)
         (rt_watch rt ''AgentVersion'' (toListOptions (wr_Options req)) (wr_SinceResourceVersion req) s))\<rparr>)"

definition NewRunHandler :: "'s runtime \<Rightarrow> 's ResourceStore \<Rightarrow> 's RunServiceHandler" where
  "NewRunHandler rt S =
     (let T = wc_time (rt_codecs rt); cd = wc_run (rt_codecs rt) in
      \<lparr>sh_Apply = (\<lambda>req s. Run_Apply T cd S (rt_clock rt s) req s),
       sh_Get = Run_Get T cd S,
       sh_List = Run_List T cd S,
       sh_Watch = (\<lambda>req s. Run_Watch T cd (\<lambda>_ _. None)
         (rt_watch rt ''Run'' (toListOptions (wr_Options req)) (wr_SinceResourceVersion req) s)),
       sh_Logs = (\<lambda>req s. ([], Some Run_Logs))\<rparr>)"

definition NewToolHandler :: "'s runtime \<Rightarrow> 's ResourceStore \<Rightarrow> 's ToolServiceHandler" where
  "NewToolHandler rt S =
     (let T = wc_time (rt_codecs rt); cd = wc_tool (rt_codecs rt) in
      \<lparr>sh_Apply = (\<lambda>req s. Tool_Apply T cd S (rt_clock rt s) req s),
       sh_Get = Tool_Get T cd S,
       sh_List = Tool_List T cd S,
       sh_Watch = (\<lambda>req s. Tool_Watch T cd (\<lambda>_ _. None)
         (rt_watch rt ''Tool'' (toListOptions (wr_Options req)) (wr_SinceResourceVersion req) s))\<rparr>)"

definition NewEventHandler :: "'s runtime \<Rightarrow> 's EventStore \<Rightarrow> 's EventServiceHandler" where
  "NewEventHandler rt E =
     (let T = wc_time (rt_codecs rt); pc = wc_payload (rt_codecs rt) in
      \<lparr>eh_Append = (\<lambda>req s. Event_Append T pc E (rt_clock rt s) (ae_Object req) s),
       eh_List = Event_List T pc E,
       eh_Watch = (\<lambda>req s. Event_Watch T pc (\<lambda>_ _. None)
         (rt_events rt (we_Colony req) (we_Run req) (we_SinceResourceVersion req) s))\<rparr>)"

section \<open>The server\<close>

text \<open>A unary and a streaming method behind the interceptor (\<open>connect.NewUnaryHandler\<close>, \<open>NewServerStreamHandler\<close>).\<close>

definition serve_unary ::
  "serverInterceptor \<Rightarrow> string \<Rightarrow> ('q \<Rightarrow> 's \<Rightarrow> (api_error + 'r) \<times> 's) \<Rightarrow> ('r \<Rightarrow> message) \<Rightarrow> call \<Rightarrow> 'q
    \<Rightarrow> 's \<times> rpc_total \<Rightarrow> reply \<times> 's \<times> rpc_total" where
  "serve_unary si proc h wrap cl req st =
     apfst (case_sum Failure (Reply \<circ> wrap))
       (WrapUnary (si_verifier si) (\<lambda>_ req s. apfst Returned (h req s)) proc None (cl_Auth cl) req st)"

definition serve_stream ::
  "serverInterceptor \<Rightarrow> string \<Rightarrow> ('q \<Rightarrow> 's \<Rightarrow> 'e list \<times> api_error option) \<Rightarrow> ('e \<Rightarrow> message) \<Rightarrow> call \<Rightarrow> 'q
    \<Rightarrow> 's \<times> rpc_total \<Rightarrow> reply \<times> 's \<times> rpc_total" where
  "serve_stream si proc h wrap cl req st =
     (case WrapStreamingHandler (si_verifier si) (\<lambda>_ (s, sent). (case h req s of (evs, err) \<Rightarrow> (Returned err, (s, evs))))
         proc None (cl_Auth cl) ((fst st, []), snd st) of
        (err, (s', evs), m') \<Rightarrow> (Stream (map wrap evs) err, (s', m')))"

text \<open>
  The method a path was switched to, on the body it got. What a body of another message's type
  is taken for is left open: it is refused with the error \<open>bad\<close> before the interceptor.
\<close>

definition serve_resource ::
  "api_error \<Rightarrow> serverInterceptor \<Rightarrow> service \<Rightarrow> (('spec, 'status) service_message \<Rightarrow> message)
    \<Rightarrow> ('s, 'spec, 'status, 'more) ServiceHandler_scheme \<Rightarrow> meth \<Rightarrow> ('spec, 'status) service_message option \<Rightarrow> call
    \<Rightarrow> 's \<times> rpc_total \<Rightarrow> reply \<times> 's \<times> rpc_total" where
  "serve_resource bad si sv wrap svc me body cl st =
     (case (me, body) of
        (ApplyRPC, Some (ApplyReq req)) \<Rightarrow> serve_unary si (procedure sv ApplyRPC) (sh_Apply svc) (wrap \<circ> Obj) cl req st
      | (GetRPC, Some (GetReq req)) \<Rightarrow> serve_unary si (procedure sv GetRPC) (\<lambda>req s. (sh_Get svc req s, s)) (wrap \<circ> Obj) cl req st
      | (ListRPC, Some (ListReq req)) \<Rightarrow> serve_unary si (procedure sv ListRPC) (\<lambda>req s. (sh_List svc req s, s)) (wrap \<circ> ListResp) cl req st
      | (WatchRPC, Some (WatchReq req)) \<Rightarrow> serve_stream si (procedure sv WatchRPC) (sh_Watch svc) (wrap \<circ> WatchMsg) cl req st
      | _ \<Rightarrow> (Failure bad, st))"

definition serve_run ::
  "api_error \<Rightarrow> serverInterceptor \<Rightarrow> 's RunServiceHandler \<Rightarrow> meth \<Rightarrow> message \<Rightarrow> call \<Rightarrow> 's \<times> rpc_total \<Rightarrow> reply \<times> 's \<times> rpc_total" where
  "serve_run bad si svc me body cl st =
     (case (me, body) of
        (LogsRPC, LogMessage (LogsReq req)) \<Rightarrow>
          serve_stream si (procedure RunService LogsRPC) (sh_Logs svc) (LogMessage \<circ> LogChunk) cl req st
      | _ \<Rightarrow> serve_resource bad si RunService RunMessage svc me (un_run body) cl st)"

definition serve_event ::
  "api_error \<Rightarrow> serverInterceptor \<Rightarrow> 's EventServiceHandler \<Rightarrow> meth \<Rightarrow> message \<Rightarrow> call \<Rightarrow> 's \<times> rpc_total \<Rightarrow> reply \<times> 's \<times> rpc_total" where
  "serve_event bad si svc me body cl st =
     (case (me, body) of
        (AppendRPC, EventMessage (AppendReq req)) \<Rightarrow>
          serve_unary si (procedure EventService AppendRPC) (eh_Append svc) (EventMessage \<circ> EventMsg) cl req st
      | (ListRPC, EventMessage (ListEventsReq req)) \<Rightarrow>
          serve_unary si (procedure EventService ListRPC) (\<lambda>req s. (eh_List svc req s, s)) (EventMessage \<circ> ListEventsResp) cl req st
      | (WatchRPC, EventMessage (WatchEventsReq req)) \<Rightarrow>
          serve_stream si (procedure EventService WatchRPC) (eh_Watch svc) (EventMessage \<circ> EventMsg) cl req st
      | _ \<Rightarrow> (Failure bad, st))"

text \<open>\<open>NewHandler\<close>: the six services behind one interceptor, and the two probes.\<close>

definition NewHandler ::
  "api_error \<Rightarrow> 's runtime \<Rightarrow> 's ResourceStore \<Rightarrow> 's EventStore \<Rightarrow> verifier \<Rightarrow> string option option
    \<Rightarrow> string \<Rightarrow> call \<Rightarrow> message \<Rightarrow> 's \<times> rpc_total \<Rightarrow> reply \<times> 's \<times> rpc_total" where
  "NewHandler bad rt rs es V ready path cl body st =
     (let si = newServerInterceptor V in
      case mux_match path of
        None \<Rightarrow> (Failure not_found_404, st)
      | Some None \<Rightarrow> (Page (if path = ''/healthz'' then healthz else readyz ready), st)
      | Some (Some sv) \<Rightarrow>
          (case snd (service_handler sv) path of
             None \<Rightarrow> (Failure not_found_404, st)
           | Some (me, _) \<Rightarrow>
               (case sv of
                  ColonyService \<Rightarrow> serve_resource bad si ColonyService ColonyMessage (NewColonyHandler rt rs) me (un_colony body) cl st
                | AgentService \<Rightarrow> serve_resource bad si AgentService AgentMessage (NewAgentHandler rt rs) me (un_agent body) cl st
                | AgentVersionService \<Rightarrow>
                    serve_resource bad si AgentVersionService AgentVersionMessage (NewAgentVersionHandler rt rs) me (un_agentVersion body) cl st
                | RunService \<Rightarrow> serve_run bad si (NewRunHandler rt rs) me body cl st
                | ToolService \<Rightarrow> serve_resource bad si ToolService ToolMessage (NewToolHandler rt rs) me (un_tool body) cl st
                | EventService \<Rightarrow> serve_event bad si (NewEventHandler rt es) me body cl st)))"

text \<open>
  The network: one server answers the URLs of one origin (scheme, host and port) by their path;
  anything else is the error \<open>unreachable\<close>.
\<close>

definition http_transport ::
  "api_error \<Rightarrow> string \<Rightarrow> (string \<Rightarrow> call \<Rightarrow> message \<Rightarrow> 's \<Rightarrow> reply \<times> 's) \<Rightarrow> 's transport" where
  "http_transport unreachable origin serve url cl body s =
     (if strings_HasPrefix url (origin @ ''/'') then serve (drop (length origin) url) cl body s
      else (Failure unreachable, s))"

text \<open>What the commands call: the generated clients on the base URL of the call.\<close>

definition at_base :: "(string \<Rightarrow> (call, 's, 'spec, 'status) service_rpcs) \<Rightarrow> (call, 's, 'spec, 'status) service_rpcs" where
  "at_base C =
     \<lparr>sv_Apply = (\<lambda>cl. sv_Apply (C (cl_URL cl)) cl), sv_Get = (\<lambda>cl. sv_Get (C (cl_URL cl)) cl),
      sv_List = (\<lambda>cl. sv_List (C (cl_URL cl)) cl), sv_Watch = (\<lambda>cl. sv_Watch (C (cl_URL cl)) cl)\<rparr>"

definition remote_keeper :: "api_error \<Rightarrow> 's transport \<Rightarrow> 's keeper" where
  "remote_keeper g tr =
     \<lparr>kp_colony = at_base (\<lambda>base. colonyServiceClient g tr (NewColonyServiceClient base)),
      kp_agent = at_base (\<lambda>base. agentServiceClient g tr (NewAgentServiceClient base)),
      kp_agentVersion = at_base (\<lambda>base. agentVersionServiceClient g tr (NewAgentVersionServiceClient base)),
      kp_run = at_base (\<lambda>base. service_rpcs.truncate (runServiceClient g tr (NewRunServiceClient base))),
      kp_tool = at_base (\<lambda>base. toolServiceClient g tr (NewToolServiceClient base)),
      kp_listEvents = (\<lambda>cl. er_List (eventServiceClient g tr (NewEventServiceClient (cl_URL cl))) cl)\<rparr>"

end
