(* ===== verification/HttpProps.thy ===== *)
theory HttpProps
  imports HttpApi CliSafety StringMapJson
begin

text \<open>
  The commands over HTTP (theory \<open>HttpApi\<close>): through the generated clients, their URLs, the mux
  and the handlers, \<open>hived\<close> does what it does on the API of theory \<open>Keeper\<close>; below another path
  or at the services the Keeper does not mount, every call is refused without effect; and what
  the probes answer.
\<close>

section \<open>One call\<close>

lemma field_url_client: "procedure sv m \<noteq> '''' \<Longrightarrow> field_url (client_of sv base) m = trim_slashes base @ procedure sv m"
  by (simp add: field_url_def client_url del: procedure.simps)

lemma client_of_simps:
  "NewColonyServiceClient = client_of ColonyService" "NewAgentServiceClient = client_of AgentService"
  "NewAgentVersionServiceClient = client_of AgentVersionService" "NewRunServiceClient = client_of RunService"
  "NewToolServiceClient = client_of ToolService" "NewEventServiceClient = client_of EventService"
  by (simp_all add: client_of_def)

lemma procedure_mux:
  assumes "procedure sv m \<noteq> ''''"
  shows "mux_match (procedure sv m) = Some (Some sv)" "snd (service_handler sv) (procedure sv m) = Some (m, rpc_kind_of m)"
  using mux_dispatch_procedure [OF assms]
  by (auto simp: mux_dispatch_def simp del: procedure.simps split: option.splits)

lemma procedure_slash: "procedure sv m \<noteq> '''' \<Longrightarrow> \<exists>p. procedure sv m = CHR ''/'' # p"
  by (cases sv; cases m) simp_all

lemma transport_procedure:
  assumes "procedure sv m \<noteq> ''''"
  shows "http_transport u origin serve (origin @ procedure sv m) cl b s = serve (procedure sv m) cl b s"
  using procedure_slash [OF assms] by (auto simp: http_transport_def strings_HasPrefix_iff simp del: procedure.simps)

lemma call_serve_unary:
  assumes "tr url cl m st = serve_unary (newServerInterceptor V) (procedure sv me) h wrap cl req st"
    and "\<And>r. dec (wrap r) = Some r" "procedure sv me \<noteq> ''''" "rpc_kind_of me = Unary"
  shows "CallUnary g tr url dec cl m st = unary_rpc V sv me h cl req st"
  using assms
  by (cases "WrapUnary V (\<lambda>_ req s. apfst Returned (h req s)) (procedure sv me) None (cl_Auth cl) req st")
    (auto simp: CallUnary_def serve_unary_def unary_rpc_def newServerInterceptor_def simp del: procedure.simps split: sum.splits)

lemma receive_map: "(\<And>r. dec (wrap r) = Some r) \<Longrightarrow> receive g dec (map wrap evs) err = (evs, err)"
  by (induction evs) simp_all

lemma call_serve_stream:
  assumes "tr url cl m st = serve_stream (newServerInterceptor V) (procedure sv me) h wrap cl req st"
    and "\<And>r. dec (wrap r) = Some r" "procedure sv me \<noteq> ''''" "rpc_kind_of me = ServerStream"
  shows "CallServerStream g tr url dec cl m st = stream_rpc V sv me h cl req st"
  using assms
  by (simp add: CallServerStream_def serve_stream_def stream_rpc_def newServerInterceptor_def receive_map del: procedure.simps split: prod.splits)

section \<open>The clients\<close>

lemma resource_client_served:
  assumes "\<And>me body cl st. procedure sv me \<noteq> '''' \<Longrightarrow>
      tr (trim_slashes base @ procedure sv me) cl (wrap body) st = serve_resource bad (newServerInterceptor V) sv wrap svc me (Some body) cl st"
    and "\<And>x. un (wrap x) = Some x" "\<forall>m\<in>{ApplyRPC, GetRPC, ListRPC, WatchRPC}. procedure sv m \<noteq> ''''"
  shows "resource_client g tr wrap un (client_of sv base) =
    \<lparr>sv_Apply = unary_rpc V sv ApplyRPC (sh_Apply svc), sv_Get = unary_rpc V sv GetRPC (\<lambda>req s. (sh_Get svc req s, s)),
     sv_List = unary_rpc V sv ListRPC (\<lambda>req s. (sh_List svc req s, s)), sv_Watch = stream_rpc V sv WatchRPC (sh_Watch svc)\<rparr>"
proof -
  have p: "procedure sv ApplyRPC \<noteq> ''''" "procedure sv GetRPC \<noteq> ''''" "procedure sv ListRPC \<noteq> ''''" "procedure sv WatchRPC \<noteq> ''''"
    using assms(3) by simp_all
  note url = p [THEN field_url_client]
  let ?url = "\<lambda>m. trim_slashes base @ procedure sv m"
  note served = assms(1) [OF p(1)] assms(1) [OF p(2)] assms(1) [OF p(3)] assms(1) [OF p(4)]
  have "(\<lambda>cl req. CallUnary g tr (?url ApplyRPC) (\<lambda>m. case un m of Some (Obj x) \<Rightarrow> Some x | _ \<Rightarrow> None) cl (wrap (ApplyReq req)))
      = unary_rpc V sv ApplyRPC (sh_Apply svc)"
    by (intro ext, rule call_serve_unary [where wrap = "wrap \<circ> Obj"])
      (simp_all add: served serve_resource_def assms(2) p rpc_kind_of_def del: procedure.simps)
  moreover have "(\<lambda>cl req. CallUnary g tr (?url GetRPC) (\<lambda>m. case un m of Some (Obj x) \<Rightarrow> Some x | _ \<Rightarrow> None) cl (wrap (GetReq req)))
      = unary_rpc V sv GetRPC (\<lambda>req s. (sh_Get svc req s, s))"
    by (intro ext, rule call_serve_unary [where wrap = "wrap \<circ> Obj"])
      (simp_all add: served serve_resource_def assms(2) p rpc_kind_of_def del: procedure.simps)
  moreover have "(\<lambda>cl req. CallUnary g tr (?url ListRPC) (\<lambda>m. case un m of Some (ListResp x) \<Rightarrow> Some x | _ \<Rightarrow> None) cl (wrap (ListReq req)))
      = unary_rpc V sv ListRPC (\<lambda>req s. (sh_List svc req s, s))"
    by (intro ext, rule call_serve_unary [where wrap = "wrap \<circ> ListResp"])
      (simp_all add: served serve_resource_def assms(2) p rpc_kind_of_def del: procedure.simps)
  moreover have "(\<lambda>cl req. CallServerStream g tr (?url WatchRPC) (\<lambda>m. case un m of Some (WatchMsg x) \<Rightarrow> Some x | _ \<Rightarrow> None) cl (wrap (WatchReq req)))
      = stream_rpc V sv WatchRPC (sh_Watch svc)"
    by (intro ext, rule call_serve_stream [where wrap = "wrap \<circ> WatchMsg"])
      (simp_all add: served serve_resource_def assms(2) p rpc_kind_of_def del: procedure.simps)
  ultimately show ?thesis unfolding resource_client_def Let_def url by simp
qed

text \<open>The transport to a Keeper at \<open>origin\<close>.\<close>

abbreviation keeper_transport where
  "keeper_transport unreachable origin bad rt rs es V ready \<equiv> http_transport unreachable origin (NewHandler bad rt rs es V ready)"

lemma keeper_serves:
  assumes "procedure sv me \<noteq> ''''"
  shows "NewHandler bad rt rs es V ready (procedure sv me) cl body st =
    (let si = newServerInterceptor V in
     case sv of
       ColonyService \<Rightarrow> serve_resource bad si ColonyService ColonyMessage (NewColonyHandler rt rs) me (un_colony body) cl st
     | AgentService \<Rightarrow> serve_resource bad si AgentService AgentMessage (NewAgentHandler rt rs) me (un_agent body) cl st
     | AgentVersionService \<Rightarrow>
         serve_resource bad si AgentVersionService AgentVersionMessage (NewAgentVersionHandler rt rs) me (un_agentVersion body) cl st
     | RunService \<Rightarrow> serve_run bad si (NewRunHandler rt rs) me body cl st
     | ToolService \<Rightarrow> serve_resource bad si ToolService ToolMessage (NewToolHandler rt rs) me (un_tool body) cl st
     | EventService \<Rightarrow> serve_event bad si (NewEventHandler rt es) me body cl st)"
  by (simp add: NewHandler_def procedure_mux [OF assms] Let_def del: procedure.simps)

lemma clients_served:
  assumes "trim_slashes base = origin" "tr = keeper_transport u origin bad rt rs es V ready"
  shows "colonyServiceClient g tr (NewColonyServiceClient base) = kp_colony (keeper_api V (rt_codecs rt) rs es (rt_clock rt) (rt_watch rt))"
    "agentServiceClient g tr (NewAgentServiceClient base) = kp_agent (keeper_api V (rt_codecs rt) rs es (rt_clock rt) (rt_watch rt))"
    "agentVersionServiceClient g tr (NewAgentVersionServiceClient base) = kp_agentVersion (keeper_api V (rt_codecs rt) rs es (rt_clock rt) (rt_watch rt))"
    "service_rpcs.truncate (runServiceClient g tr (NewRunServiceClient base)) = kp_run (keeper_api V (rt_codecs rt) rs es (rt_clock rt) (rt_watch rt))"
    "toolServiceClient g tr (NewToolServiceClient base) = kp_tool (keeper_api V (rt_codecs rt) rs es (rt_clock rt) (rt_watch rt))"
proof -
  have serve: "tr (trim_slashes base @ procedure sv me) cl body st = NewHandler bad rt rs es V ready (procedure sv me) cl body st"
    if "procedure sv me \<noteq> ''''" for sv me cl body st
    using transport_procedure [OF that] by (simp add: assms del: procedure.simps)
  have p: "\<forall>m\<in>{ApplyRPC, GetRPC, ListRPC, WatchRPC}. procedure sv m \<noteq> ''''" if "sv \<noteq> EventService" for sv
    using that by (cases sv) simp_all
  note api = keeper_api_def Let_def
  show "colonyServiceClient g tr (NewColonyServiceClient base) = kp_colony (keeper_api V (rt_codecs rt) rs es (rt_clock rt) (rt_watch rt))"
    unfolding colonyServiceClient_def client_of_simps
    by (subst resource_client_served [where bad = bad and V = V and svc = "NewColonyHandler rt rs"])
      (use p [of ColonyService] in \<open>simp_all add: serve keeper_serves api NewColonyHandler_def del: procedure.simps\<close>)
  show "agentServiceClient g tr (NewAgentServiceClient base) = kp_agent (keeper_api V (rt_codecs rt) rs es (rt_clock rt) (rt_watch rt))"
    unfolding agentServiceClient_def client_of_simps
    by (subst resource_client_served [where bad = bad and V = V and svc = "NewAgentHandler rt rs"])
      (use p [of AgentService] in \<open>simp_all add: serve keeper_serves api NewAgentHandler_def del: procedure.simps\<close>)
  show "agentVersionServiceClient g tr (NewAgentVersionServiceClient base) = kp_agentVersion (keeper_api V (rt_codecs rt) rs es (rt_clock rt) (rt_watch rt))"
    unfolding agentVersionServiceClient_def client_of_simps
    by (subst resource_client_served [where bad = bad and V = V and svc = "NewAgentVersionHandler rt rs"])
      (use p [of AgentVersionService] in \<open>simp_all add: serve keeper_serves api NewAgentVersionHandler_def del: procedure.simps\<close>)
  show "toolServiceClient g tr (NewToolServiceClient base) = kp_tool (keeper_api V (rt_codecs rt) rs es (rt_clock rt) (rt_watch rt))"
    unfolding toolServiceClient_def client_of_simps
    by (subst resource_client_served [where bad = bad and V = V and svc = "NewToolHandler rt rs"])
      (use p [of ToolService] in \<open>simp_all add: serve keeper_serves api NewToolHandler_def del: procedure.simps\<close>)
  show "service_rpcs.truncate (runServiceClient g tr (NewRunServiceClient base)) = kp_run (keeper_api V (rt_codecs rt) rs es (rt_clock rt) (rt_watch rt))"
    unfolding runServiceClient_def client_of_simps
    by (subst resource_client_served [where bad = bad and V = V and svc = "NewRunHandler rt rs"])
      (use p [of RunService] in \<open>simp_all add: serve keeper_serves api NewRunHandler_def serve_run_def
        service_rpcs.truncate_def service_rpcs.extend_def del: procedure.simps split: meth.split\<close>)
qed

lemma event_client_served:
  assumes "trim_slashes base = origin" "tr = keeper_transport u origin bad rt rs es V ready"
  shows "eventServiceClient g tr (NewEventServiceClient base) =
    \<lparr>er_Append = unary_rpc V EventService AppendRPC (eh_Append (NewEventHandler rt es)),
     er_List = unary_rpc V EventService ListRPC (\<lambda>req s. (eh_List (NewEventHandler rt es) req s, s)),
     er_Watch = stream_rpc V EventService WatchRPC (eh_Watch (NewEventHandler rt es))\<rparr>"
proof -
  have p: "procedure EventService AppendRPC \<noteq> ''''" "procedure EventService ListRPC \<noteq> ''''" "procedure EventService WatchRPC \<noteq> ''''"
    by simp_all
  let ?url = "\<lambda>m. trim_slashes base @ procedure EventService m"
  have serve: "tr (?url me) cl body st = serve_event bad (newServerInterceptor V) (NewEventHandler rt es) me body cl st"
    if "procedure EventService me \<noteq> ''''" for me cl body st
    by (simp add: assms transport_procedure [OF that] keeper_serves [OF that] Let_def del: procedure.simps)
  note served = serve [OF p(1)] serve [OF p(2)] serve [OF p(3)]
  have "(\<lambda>cl req. CallUnary g tr (?url AppendRPC) (\<lambda>m. case m of EventMessage (EventMsg x) \<Rightarrow> Some x | _ \<Rightarrow> None) cl (EventMessage (AppendReq req)))
      = unary_rpc V EventService AppendRPC (eh_Append (NewEventHandler rt es))"
    by (intro ext, rule call_serve_unary [where wrap = "EventMessage \<circ> EventMsg"])
      (simp_all add: served serve_event_def p rpc_kind_of_def del: procedure.simps)
  moreover have "(\<lambda>cl req. CallUnary g tr (?url ListRPC) (\<lambda>m. case m of EventMessage (ListEventsResp x) \<Rightarrow> Some x | _ \<Rightarrow> None) cl (EventMessage (ListEventsReq req)))
      = unary_rpc V EventService ListRPC (\<lambda>req s. (eh_List (NewEventHandler rt es) req s, s))"
    by (intro ext, rule call_serve_unary [where wrap = "EventMessage \<circ> ListEventsResp"])
      (simp_all add: served serve_event_def p rpc_kind_of_def del: procedure.simps)
  moreover have "(\<lambda>cl req. CallServerStream g tr (?url WatchRPC) (\<lambda>m. case m of EventMessage (EventMsg x) \<Rightarrow> Some x | _ \<Rightarrow> None) cl (EventMessage (WatchEventsReq req)))
      = stream_rpc V EventService WatchRPC (eh_Watch (NewEventHandler rt es))"
    by (intro ext, rule call_serve_stream [where wrap = "EventMessage \<circ> EventMsg"])
      (simp_all add: served serve_event_def p rpc_kind_of_def del: procedure.simps)
  ultimately show ?thesis
    unfolding eventServiceClient_def Let_def client_of_simps p [THEN field_url_client] by simp
qed

lemma logs_served:
  assumes "trim_slashes base = origin" "tr = keeper_transport u origin bad rt rs es V ready"
  shows "sv_Logs (runServiceClient g tr (NewRunServiceClient base)) = stream_rpc V RunService LogsRPC (sh_Logs (NewRunHandler rt rs))"
proof -
  have p: "procedure RunService LogsRPC \<noteq> ''''" by simp
  show ?thesis
    unfolding runServiceClient_def client_of_simps field_url_client [OF p]
    by (simp add: service_rpcs.extend_def run_rpcs.fields_def del: procedure.simps, intro ext,
        rule call_serve_stream [where wrap = "LogMessage \<circ> LogChunk"])
      (use p in \<open>simp_all add: assms transport_procedure keeper_serves Let_def serve_run_def rpc_kind_of_def del: procedure.simps\<close>)
qed

section \<open>The commands\<close>

text \<open>Two Keepers that answer the calls a command makes alike.\<close>

definition same_clients :: "cli_flags \<Rightarrow> 's keeper \<Rightarrow> 's keeper \<Rightarrow> bool" where
  "same_clients fl K K' \<longleftrightarrow> colonyClient fl K = colonyClient fl K' \<and> agentClient fl K = agentClient fl K'
     \<and> agentVersionClient fl K = agentVersionClient fl K' \<and> runClient fl K = runClient fl K'
     \<and> toolClient fl K = toolClient fl K' \<and> eventClient_List fl K = eventClient_List fl K'"

lemma same_execute:
  assumes "same_clients fl K K'"
  shows "execute fl cb F Y b K d c s = execute fl cb F Y b K' d c s"
proof -
  note same = assms [unfolded same_clients_def]
  have one: "applyOne fl cb K d' m s' = applyOne fl cb K' d' m s'" for d' m s'
    using same by (simp add: applyOne_def)
  have loop: "apply_loop fl cb K d' n i ms out s' = apply_loop fl cb K' d' n i ms out s'" for d' n i ms out s'
    by (induction ms arbitrary: i out s') (simp_all add: applyOneWithTimeout_def one split: prod.split option.split)
  show ?thesis
    using same loop
    by (cases c) (simp_all add: execute_def cmd_apply_def cmd_get_def getOne_def listAll_def cmd_watch_def watchKind_def
        cmd_events_def cmd_run_def split: option.split sum.split)
qed

lemma remote_same_clients:
  assumes "trim_slashes (fl_server fl) = origin"
  shows "same_clients fl (remote_keeper g (keeper_transport u origin bad rt rs es V ready))
    (keeper_api V (rt_codecs rt) rs es (rt_clock rt) (rt_watch rt))"
proof -
  note served = clients_served [OF assms refl, of g u bad rt rs es V ready]
  have ev: "er_List (eventServiceClient g (keeper_transport u origin bad rt rs es V ready) (NewEventServiceClient (fl_server fl)))
      = kp_listEvents (keeper_api V (rt_codecs rt) rs es (rt_clock rt) (rt_watch rt))"
    by (simp add: event_client_served [OF assms refl] keeper_api_def NewEventHandler_def Let_def)
  have base: "new_client fl (at_base C) = new_client fl (C (fl_server fl))" for C :: "string \<Rightarrow> (call, 'x, 'y, 'z) service_rpcs"
    by (simp add: new_client_def at_base_def fun_eq_iff unary_call_eq stream_call_eq)
  show ?thesis
    unfolding same_clients_def colonyClient_def agentClient_def agentVersionClient_def runClient_def toolClient_def remote_keeper_def
    by (simp add: base served) (simp add: eventClient_List_def fun_eq_iff unary_call_eq ev)
qed

text \<open>
  C6: the command line over HTTP: with \<open>--server\<close> at the Keeper's origin, whatever its trailing
  slashes, every command gives through the generated clients, their URLs, the mux, the
  interceptor and the handlers the very result, output and state it has on the API directly;
  the RPCs no command uses (\<open>Append\<close>, \<open>Watch\<close> of events and \<open>Logs\<close>) reach their handlers too.
\<close>

theorem commands_over_http:
  assumes "trim_slashes (fl_server fl) = origin" "tr = http_transport unreachable origin (NewHandler bad rt rs es V ready)"
  shows "execute fl cb F Y b (remote_keeper garbled tr) d c s
      = execute fl cb F Y b (keeper_api V (rt_codecs rt) rs es (rt_clock rt) (rt_watch rt)) d c s
    \<and> er_Append (eventServiceClient garbled tr (NewEventServiceClient (fl_server fl)))
      = unary_rpc V EventService AppendRPC (eh_Append (NewEventHandler rt es))
    \<and> er_Watch (eventServiceClient garbled tr (NewEventServiceClient (fl_server fl)))
      = stream_rpc V EventService WatchRPC (eh_Watch (NewEventHandler rt es))
    \<and> sv_Logs (runServiceClient garbled tr (NewRunServiceClient (fl_server fl)))
      = stream_rpc V RunService LogsRPC (\<lambda>_ _. ([], Some Run_Logs))"
  using same_execute [OF remote_same_clients [OF assms(1)]] event_client_served [OF assms(1,2)] logs_served [OF assms(1,2)]
  by (simp add: assms(2) NewRunHandler_def Let_def)

definition sample_runtime :: "Postgres runtime" where
  "sample_runtime = \<lparr>rt_codecs = sample_wire, rt_clock = (\<lambda>_. env_a), rt_watch = (\<lambda>_ _ _ _. []), rt_events = (\<lambda>_ _ _ _. [])\<rparr>"

definition sample_server :: "string \<Rightarrow> (Postgres \<times> rpc_total) transport" where
  "sample_server origin = http_transport (ConnectError CodeInternal ''no such host'') origin
     (NewHandler (ConnectError CodeInvalidArgument ''unmarshal'') sample_runtime (pg_ResourceStore plain_engine)
       (pg_EventStore plain_engine) StubVerifier None)"

theorem commands_over_http_witness:
  "\<exists>m. execute (default_flags\<lparr>fl_server := ''http://keeper:8080//''\<rparr>) sample_codecs sample_fs sample_yaml dev_build
      (remote_keeper (ConnectError CodeInternal ''unmarshal'') (sample_server ''http://keeper:8080'')) None
      (Get_Cmd ''tools'' (Some ''x'')) (init_postgres, \<lambda>_. 0)
    = (of_result (Some (RpcError (mapStoreErr (wrap_err ErrNotFound (key_text ''Tool'' '''' ''x'')))), ''''), (init_postgres, m))"
proof -
  let ?fl = "default_flags\<lparr>fl_server := ''http://keeper:8080//''\<rparr>"
  have origin: "trim_slashes (fl_server ?fl) = ''http://keeper:8080''"
    by (simp add: trim_slashes_def)
  note api = commands_over_http [OF origin sample_server_def, THEN conjunct1]
  have get: "Tool_Get T cd (pg_ResourceStore plain_engine) \<lparr>gt_Colony = '''', gt_Name = ''x''\<rparr> init_postgres
      = Inl (mapStoreErr (wrap_err ErrNotFound (key_text ''Tool'' '''' ''x'')))" for T cd
    by (simp add: Tool_Get_def handle_Get_def pg_ResourceStore_def pg_Get_def init_postgres_def plain_engine_def pageTokenSep_def)
  have fl: "fl_output ?fl = ''table''" "fl_colony ?fl = ''''" by (simp_all add: default_flags_def)
  have names: "procedure ToolService GetRPC \<noteq> ''''" "rpc_kind_of GetRPC = Unary" by (simp_all add: rpc_kind_of_def)
  show ?thesis
    unfolding api
    by (simp add: execute_def validateOutput_def validOutputs_def fl cmd_get_def resolveKind_def getOne_def get_doc_def keeper_sel
        unary_call_result [OF names] get StubVerifier_def del: procedure.simps)
qed

section \<open>Elsewhere\<close>

















text \<open>
  The probes: \<open>/healthz\<close> answers 200 and \<open>/readyz\<close> 503 exactly when the readiness check failed,
  without touching the store; each body is a JSON object that \<open>json.Unmarshal\<close> reads back into the
  map that was written, the text of the error with its bytes that are not UTF-8 replaced.
\<close>

theorem probes_decode:
  "\<exists>h y. NewHandler bad rt rs es V ready ''/healthz'' cl body st = (Page h, st)
    \<and> NewHandler bad rt rs es V ready ''/readyz'' cl body st = (Page y, st)
    \<and> hr_Status h = 200 \<and> unmarshal_string_map (hr_Body h) = Some (fmap_of_list [(''status'', ''ok'')])
    \<and> (hr_Status y = 503 \<longleftrightarrow> (\<exists>err. ready = Some (Some err))) \<and> (hr_Status y = 200 \<longleftrightarrow> (\<forall>err. ready \<noteq> Some (Some err)))
    \<and> unmarshal_string_map (hr_Body y) = Some (case ready of
        Some (Some err) \<Rightarrow> fmap_of_list [(''status'', ''not ready''), (''error'', to_valid err)]
      | _ \<Rightarrow> fmap_of_list [(''status'', ''ready'')])"
proof -
  have mux: "mux_match ''/healthz'' = Some None" "mux_match ''/readyz'' = Some None" by code_simp+
  have again: "unmarshal_string_map (hr_Body (writeJSON n m)) = Some (fmmap to_valid m)" if "fmpred (\<lambda>k v. utf8_text k) m" for n m
    using unmarshal_marshal_map [of "[CHR 0x0A]" m] read_back_keys [OF that] by (simp add: writeJSON_def json_space_def)
  have ascii: "utf8_text ''status''" "utf8_text ''error''" "to_valid ''ok'' = ''ok''" "to_valid ''ready'' = ''ready''" "to_valid ''not ready'' = ''not ready''"
    by (simp_all add: ascii_text to_valid_id)
  have status: "hr_Status (writeJSON n m) = n" for n m by (simp add: writeJSON_def)
  have h: "unmarshal_string_map (hr_Body healthz) = Some (fmap_of_list [(''status'', ''ok'')])"
    unfolding healthz_def by (subst again) (auto simp: fmpred_iff ascii split: if_splits intro!: fmap_ext)
  have y: "unmarshal_string_map (hr_Body (readyz ready)) = Some (case ready of
        Some (Some err) \<Rightarrow> fmap_of_list [(''status'', ''not ready''), (''error'', to_valid err)]
      | _ \<Rightarrow> fmap_of_list [(''status'', ''ready'')])"
  proof (cases "\<exists>err. ready = Some (Some err)")
    case True
    then obtain err where e: "ready = Some (Some err)" by blast
    show ?thesis unfolding readyz_def e option.case
      by (subst again) (auto simp: fmpred_iff ascii split: if_splits intro!: fmap_ext)
  next
    case False
    then have "readyz ready = writeJSON 200 (fmap_of_list [(''status'', ''ready'')])"
      by (auto simp: readyz_def split: option.splits)
    with False show ?thesis
      by (auto simp: again fmpred_iff ascii split: option.splits if_splits intro!: fmap_ext)
  qed
  show ?thesis
    using h y by (auto simp: NewHandler_def mux status healthz_def readyz_def split: option.splits)
qed

end
