(* ===== verification/JsonDocs.thy ===== *)
theory JsonDocs
  imports StringMapJson
begin

text \<open>
  What \<open>jsonEqual\<close> (\<open>internal/store/jsoneq.go\<close>) says of two texts, by the documents they are texts of:
  a grammar of JSON documents with their spelling (escapes, number literals, spaces, order and
  repetition of keys), and an equality of documents that does not go through the lexer, the
  parser or their values.
\<close>

section \<open>Documents and their texts\<close>

text \<open>Numbers and strings are kept as they are spelled, the latter without the quotes.\<close>

datatype doc =
    DNull
  | DBool bool
  | DNum string
  | DStr string
  | DArr "doc list"
  | DObj "(string \<times> doc) list"

text \<open>\<open>ws\<close> is written wherever the grammar allows space.\<close>

fun doc_text :: "string \<Rightarrow> doc \<Rightarrow> string" and elems_text :: "string \<Rightarrow> doc list \<Rightarrow> string"
  and members_text :: "string \<Rightarrow> (string \<times> doc) list \<Rightarrow> string" where
  "doc_text ws DNull = ''null''"
| "doc_text ws (DBool b) = (if b then ''true'' else ''false'')"
| "doc_text ws (DNum l) = l"
| "doc_text ws (DStr q) = CHR 0x22 # q @ [CHR 0x22]"
| "doc_text ws (DArr ds) = CHR ''['' # ws @ elems_text ws ds"
| "doc_text ws (DObj es) = CHR ''{'' # ws @ members_text ws es"
| "elems_text ws [] = '']''"
| "elems_text ws (d # ds) = doc_text ws d @ ws @ (if ds = [] then '']'' else CHR '','' # ws @ elems_text ws ds)"
| "members_text ws [] = ''}''"
| "members_text ws ((q, d) # es) = CHR 0x22 # q @ CHR 0x22 # ws @ CHR '':'' # ws @ doc_text ws d @ ws @
     (if es = [] then ''}'' else CHR '','' # ws @ members_text ws es)"

text \<open>A string literal, and a document of at most \<open>n\<close> levels of nesting.\<close>

definition quoted :: "string \<Rightarrow> bool" where
  "quoted q \<longleftrightarrow> no_quote False q \<and> unquote 0 q \<noteq> None"

fun doc_ok :: "nat \<Rightarrow> doc \<Rightarrow> bool" and elems_ok :: "nat \<Rightarrow> doc list \<Rightarrow> bool"
  and members_ok :: "nat \<Rightarrow> (string \<times> doc) list \<Rightarrow> bool" where
  "doc_ok n DNull = True"
| "doc_ok n (DBool b) = True"
| "doc_ok n (DNum l) = (list_all word_char l \<and> parse_number l \<noteq> None)"
| "doc_ok n (DStr q) = quoted q"
| "doc_ok n (DArr ds) = (0 < n \<and> elems_ok (n - 1) ds)"
| "doc_ok n (DObj es) = (0 < n \<and> members_ok (n - 1) es)"
| "elems_ok n [] = True"
| "elems_ok n (d # ds) = (doc_ok n d \<and> elems_ok n ds)"
| "members_ok n [] = True"
| "members_ok n ((q, d) # es) = (quoted q \<and> doc_ok n d \<and> members_ok n es)"

text \<open>The last of the members whose key, decoded, is \<open>k\<close>.\<close>

definition member :: "string \<Rightarrow> (string \<times> doc) list \<Rightarrow> doc option" where
  "member k es = map_of (rev (map (\<lambda>(q, d). (the (unquote 0 q), d)) es)) k"

text \<open>Equal documents: the reference \<open>jsonEqual\<close> is compared with.\<close>

inductive same_doc :: "doc \<Rightarrow> doc \<Rightarrow> bool" where
  null: "same_doc DNull DNull"
| bool: "same_doc (DBool b) (DBool b)"
| num: "parse_number l = parse_number l' \<Longrightarrow> same_doc (DNum l) (DNum l')"
| str: "unquote 0 q = unquote 0 q' \<Longrightarrow> same_doc (DStr q) (DStr q')"
| arr: "list_all2 same_doc ds ds' \<Longrightarrow> same_doc (DArr ds) (DArr ds')"
| obj: "\<forall>k. rel_option same_doc (member k es) (member k es') \<Longrightarrow> same_doc (DObj es) (DObj es')"

section \<open>Tokens and values\<close>

fun doc_tokens :: "doc \<Rightarrow> token list" and elems_tokens :: "doc list \<Rightarrow> token list"
  and members_doc_tokens :: "(string \<times> doc) list \<Rightarrow> token list" where
  "doc_tokens DNull = [TLit JNull]"
| "doc_tokens (DBool b) = [TLit (JBool b)]"
| "doc_tokens (DNum l) = [TNum (the (parse_number l))]"
| "doc_tokens (DStr q) = [TStr (the (unquote 0 q))]"
| "doc_tokens (DArr ds) = TPunct (CHR ''['') # elems_tokens ds"
| "doc_tokens (DObj es) = TPunct (CHR ''{'') # members_doc_tokens es"
| "elems_tokens [] = [TPunct (CHR '']'')]"
| "elems_tokens (d # ds) = doc_tokens d @ (if ds = [] then [TPunct (CHR '']'')] else TPunct (CHR '','') # elems_tokens ds)"
| "members_doc_tokens [] = [TPunct (CHR ''}'')]"
| "members_doc_tokens ((q, d) # es) = TStr (the (unquote 0 q)) # TPunct (CHR '':'') # doc_tokens d @
     (if es = [] then [TPunct (CHR ''}'')] else TPunct (CHR '','') # members_doc_tokens es)"

fun doc_value :: "doc \<Rightarrow> json" and elems_value :: "doc list \<Rightarrow> json list"
  and members_value :: "(string \<times> doc) list \<Rightarrow> (string \<times> json) list" where
  "doc_value DNull = JNull"
| "doc_value (DBool b) = JBool b"
| "doc_value (DNum l) = JNum (the (parse_number l))"
| "doc_value (DStr q) = JStr (the (unquote 0 q))"
| "doc_value (DArr ds) = JArr (elems_value ds)"
| "doc_value (DObj es) = JObj (put_all [] (members_value es))"
| "elems_value [] = []"
| "elems_value (d # ds) = doc_value d # elems_value ds"
| "members_value [] = []"
| "members_value ((q, d) # es) = (the (unquote 0 q), doc_value d) # members_value es"

lemma lex_plain_word:
  assumes "w \<noteq> []" "list_all word_char w" "word_token w = Some t" "rest = [] \<or> \<not> word_char (hd rest)"
  shows "lex L0 (w @ rest) = map_option (Cons t) (lex L0 rest)"
proof -
  obtain c cs where w: "w = c # cs" using assms(1) by (cases w) auto
  then have c: "word_char c" "list_all word_char cs" using assms(2) by simp_all
  have "lex L0 (c # cs @ rest) = lex (LWord [c]) (cs @ rest)"
    using word_char_facts [OF c(1)] c(1) by (simp add: lex_start_def option.map_ident append_eta)
  also have "\<dots> = lex (LWord (rev w)) rest" using lex_word [OF c(2)] by (simp add: w)
  also have "\<dots> = map_option (Cons t) (lex L0 rest)" using assms(3,4) by (intro lex_word_end) simp_all
  finally show ?thesis by (simp add: w)
qed

lemma word_tokens: "word_token ''null'' = Some (TLit JNull)" "word_token ''true'' = Some (TLit (JBool True))"
  "word_token ''false'' = Some (TLit (JBool False))"
  by code_simp+

lemma number_token:
  assumes "parse_number l = Some x" shows "word_token l = Some (TNum x)" "l \<noteq> []"
proof -
  have "parse_number ''true'' = None" "parse_number ''false'' = None" "parse_number ''null'' = None" "parse_number '''' = None"
    by code_simp+
  with assms show "word_token l = Some (TNum x)" "l \<noteq> []" by (auto simp: word_token_def)
qed

lemma hd_space: "list_all json_space ws \<Longrightarrow> \<not> word_char c \<Longrightarrow> \<not> word_char (hd (ws @ c # x))"
  by (cases ws) (auto simp: space_not_word)

lemma puncts: "\<not> word_char (CHR '','')" "\<not> word_char (CHR '']'')" "\<not> word_char (CHR ''}'')"
  by (simp_all add: word_char_def)

lemma lex_doc_text:
  assumes "list_all json_space ws"
  shows "doc_ok n d \<Longrightarrow> rest = [] \<or> \<not> word_char (hd rest) \<Longrightarrow>
      lex L0 (doc_text ws d @ rest) = map_option ((@) (doc_tokens d)) (lex L0 rest)"
    and "elems_ok n ds \<Longrightarrow> lex L0 (elems_text ws ds @ rest) = map_option ((@) (elems_tokens ds)) (lex L0 rest)"
    and "members_ok n es \<Longrightarrow> lex L0 (members_text ws es @ rest) = map_option ((@) (members_doc_tokens es)) (lex L0 rest)"
proof (induction n d and n ds and n es arbitrary: rest and rest and rest rule: doc_ok_elems_ok_members_ok.induct)
  case (1 n)
  then show ?case using lex_plain_word [OF _ _ word_tokens(1)] by (simp add: word_char_def append_fun append_eta)
next
  case (2 n b)
  then show ?case using lex_plain_word [OF _ _ word_tokens(2)] lex_plain_word [OF _ _ word_tokens(3)]
    by (cases b) (simp_all add: word_char_def append_fun append_eta)
next
  case (3 n l)
  then obtain x where x: "parse_number l = Some x" "list_all word_char l" by auto
  show ?case using lex_plain_word [OF number_token(2) [OF x(1)] x(2) number_token(1) [OF x(1)] "3.prems"(2)]
    by (simp add: x append_fun append_eta)
next
  case (4 n q)
  then obtain x where x: "no_quote False q" "unquote 0 q = Some x" by (auto simp: quoted_def)
  show ?case using lex_quote [OF x] by (simp add: x append_fun append_eta)
next
  case (5 n ds)
  then show ?case using lex_punct [of "CHR ''[''"] lex_space [OF assms] by (simp add: option.map_comp comp_def append_fun)
next
  case (6 n es)
  then show ?case using lex_punct [of "CHR ''{''"] lex_space [OF assms] by (simp add: option.map_comp comp_def append_fun)
next
  case (7 n)
  then show ?case using lex_punct [of "CHR '']''"] by (simp add: append_fun append_eta)
next
  case (8 n d ds)
  then have ok: "doc_ok n d" "elems_ok n ds" by simp_all
  let ?tl = "if ds = [] then '']'' else CHR '','' # ws @ elems_text ws ds"
  have "\<not> word_char (hd (ws @ ?tl @ rest))" using hd_space [OF assms] puncts by simp
  from "8.IH"(1) [OF ok(1) disjI2 [OF this]]
  have "lex L0 (elems_text ws (d # ds) @ rest) = map_option ((@) (doc_tokens d)) (lex L0 (?tl @ rest))"
    by (simp add: lex_space [OF assms] del: if_cancel)
  then show ?case using "8.IH"(2) [OF ok(2)] lex_punct [of "CHR '']''"] lex_punct [of "CHR '',''"] lex_space [OF assms]
    by (simp add: option.map_comp comp_def append_fun append_eta)
next
  case (9 n)
  then show ?case using lex_punct [of "CHR ''}''"] by (simp add: append_fun append_eta)
next
  case (10 n q d es)
  then have ok: "doc_ok n d" "members_ok n es" "quoted q" by simp_all
  then obtain x where x: "no_quote False q" "unquote 0 q = Some x" by (auto simp: quoted_def)
  let ?tl = "if es = [] then ''}'' else CHR '','' # ws @ members_text ws es"
  have "\<not> word_char (hd (ws @ ?tl @ rest))" using hd_space [OF assms] puncts by simp
  from "10.IH"(1) [OF ok(1) disjI2 [OF this]]
  have "lex L0 (members_text ws ((q, d) # es) @ rest) =
      map_option ((@) (TStr x # TPunct (CHR '':'') # doc_tokens d)) (lex L0 (?tl @ rest))"
    using lex_quote [OF x] lex_punct [of "CHR '':''"]
    by (simp add: lex_space [OF assms] option.map_comp comp_def append_fun del: if_cancel)
  then show ?case using "10.IH"(2) [OF ok(2)] lex_punct [of "CHR ''}''"] lex_punct [of "CHR '',''"] lex_space [OF assms]
    by (simp add: x option.map_comp comp_def append_fun append_eta)
qed


section \<open>Parsing\<close>

lemma doc_tokens_head: "\<exists>t ts. doc_tokens d = t # ts \<and> t \<noteq> TPunct (CHR '']'')"
  by (cases d) simp_all

lemma prun_val_or_end: "t \<noteq> TPunct (CHR '']'') \<Longrightarrow> prun (PValOrEnd, stk) (t # ts) = prun (PVal, stk) (t # ts)"
  by simp

lemma prun_doc_tokens:
  shows "doc_ok n d \<Longrightarrow> length stk + n \<le> maxNestingDepth \<Longrightarrow>
      prun (PVal, stk) (doc_tokens d @ rest) = prun (PAfter (doc_value d), stk) rest"
    and "elems_ok n ds \<Longrightarrow> Suc (length stk) + n \<le> maxNestingDepth \<Longrightarrow> ds \<noteq> [] \<Longrightarrow>
      prun (PVal, FArr vs # stk) (elems_tokens ds @ rest) = prun (PAfter (JArr (rev vs @ elems_value ds)), stk) rest"
    and "members_ok n es \<Longrightarrow> Suc (length stk) + n \<le> maxNestingDepth \<Longrightarrow> es \<noteq> [] \<Longrightarrow>
      prun (PKey, FObj e k # stk) (members_doc_tokens es @ rest) = prun (PAfter (JObj (put_all e (members_value es))), stk) rest"
proof (induction n d and n ds and n es arbitrary: stk rest and stk rest vs and stk rest e k rule: doc_ok_elems_ok_members_ok.induct)
  case (5 n ds)
  show ?case
  proof (cases ds)
    case Nil
    then show ?thesis using "5.prems" by (simp add: pvalue_def)
  next
    case (Cons d ds')
    obtain t ts where t: "elems_tokens ds = t # ts" "t \<noteq> TPunct (CHR '']'')"
      using doc_tokens_head [of d] Cons by auto
    have "prun (PVal, stk) (doc_tokens (DArr ds) @ rest) = prun (PValOrEnd, FArr [] # stk) (elems_tokens ds @ rest)"
      using "5.prems" by (simp add: pvalue_def)
    also have "\<dots> = prun (PVal, FArr [] # stk) (elems_tokens ds @ rest)" using t by simp
    finally show ?thesis using "5.IH" [of stk "[]"] "5.prems" Cons by simp
  qed
next
  case (6 n es)
  show ?case
  proof (cases es)
    case Nil
    then show ?thesis using "6.prems" by (simp add: pvalue_def)
  next
    case (Cons m es')
    obtain q d where m: "m = (q, d)" by (cases m)
    have "prun (PVal, stk) (doc_tokens (DObj es) @ rest) = prun (PKeyOrEnd, FObj [] '''' # stk) (members_doc_tokens es @ rest)"
      using "6.prems" by (simp add: pvalue_def)
    also have "\<dots> = prun (PKey, FObj [] '''' # stk) (members_doc_tokens es @ rest)" using Cons m by simp
    finally show ?thesis using "6.IH" [of stk "[]" "''''"] "6.prems" Cons by simp
  qed
next
  case (8 n d ds)
  have d: "prun (PVal, FArr vs # stk) (doc_tokens d @ ts) = prun (PAfter (doc_value d), FArr vs # stk) ts" for ts
    using "8.IH"(1) [of "FArr vs # stk"] "8.prems" by simp
  show ?case
  proof (cases ds)
    case Nil
    then show ?thesis by (simp add: d)
  next
    case (Cons d' ds')
    then show ?thesis using "8.IH"(2) [of stk "doc_value d # vs"] "8.prems" by (simp add: d del: elems_tokens.simps(2)) (simp add: d)
  qed
next
  case (10 n q d es)
  have d: "prun (PVal, FObj e x # stk) (doc_tokens d @ ts) = prun (PAfter (doc_value d), FObj e x # stk) ts" for ts x
    using "10.IH"(1) [of "FObj e x # stk"] "10.prems" by simp
  show ?case
  proof (cases es)
    case Nil
    then show ?thesis by (simp add: d)
  next
    case (Cons m es')
    then show ?thesis using "10.IH"(2) [of stk] "10.prems" by (simp add: d)
  qed
qed (simp_all add: pvalue_def)

lemma doc_text_value:
  assumes "list_all json_space ws" "doc_ok maxNestingDepth d"
  shows "json_Unmarshal (ws @ doc_text ws d @ ws) = Some (doc_value d)"
proof -
  have "lex L0 ws = Some []" using lex_space [OF assms(1), of "[]"] by simp
  moreover have "ws = [] \<or> \<not> word_char (hd ws)" using assms(1) by (cases ws) (auto simp: space_not_word)
  ultimately have "lex L0 (ws @ doc_text ws d @ ws) = Some (doc_tokens d)"
    using lex_doc_text(1) [OF assms] lex_space [OF assms(1)] by simp
  moreover have "prun (PVal, []) (doc_tokens d) = Some (PAfter (doc_value d), [])"
    using prun_doc_tokens(1) [OF assms(2), of "[]" "[]"] by simp
  ultimately show ?thesis by (simp add: json_Unmarshal_def)
qed

section \<open>Equality\<close>

lemma elems_value_map: "elems_value ds = map doc_value ds"
  by (induction ds) simp_all

lemma members_value_map: "members_value es = map (\<lambda>(q, d). (the (unquote 0 q), doc_value d)) es"
  by (induction es) auto

lemma elems_ok_iff: "elems_ok n ds \<longleftrightarrow> (\<forall>d\<in>set ds. doc_ok n d)"
  by (induction ds) simp_all

lemma members_ok_iff: "members_ok n es \<longleftrightarrow> (\<forall>(q, d)\<in>set es. quoted q \<and> doc_ok n d)"
  by (induction es) auto

lemma doc_member_value: "map_of (put_all [] (members_value es)) k = map_option doc_value (member k es)"
proof -
  have "rev (members_value es) = map (\<lambda>(k, d). (k, doc_value d)) (rev (map (\<lambda>(q, d). (the (unquote 0 q), d)) es))"
    by (simp add: members_value_map rev_map [symmetric] case_prod_beta comp_def)
  then show ?thesis by (simp add: map_of_put_all member_def map_of_map)
qed

lemma sorted_keys_unique:
  fixes xs ys :: "(string \<times> json) list"
  assumes "sorted_keys xs" "sorted_keys ys" "map_of xs = map_of ys"
  shows "xs = ys"
proof -
  have s: "sorted (map fst zs) \<and> distinct (map fst zs)" if "sorted_keys zs" for zs :: "(string \<times> json) list"
    using that strict_sorted_iff [of "map fst zs"] by (simp add: sorted_wrt_map)
  note x = s [OF assms(1)] and y = s [OF assms(2)]
  have "set xs = set ys" using map_of_inject_set [of xs ys] x y assms(3) by simp
  with x y show ?thesis
    by (intro map_sorted_distinct_set_unique [of fst]) (auto simp: distinct_map)
qed

lemma same_doc_value: "same_doc d d' \<Longrightarrow> doc_value d = doc_value d'"
proof (induction rule: same_doc.induct)
  case (arr ds ds')
  then show ?case by (auto simp: elems_value_map list_all2_conv_all_nth intro: nth_equalityI)
next
  case (obj es es')
  have "map_of (put_all [] (members_value es)) k = map_of (put_all [] (members_value es')) k" for k
    using obj [THEN spec, of k] unfolding doc_member_value by (cases rule: option.rel_cases) auto
  then have "put_all [] (members_value es) = put_all [] (members_value es')"
    by (intro sorted_keys_unique sorted_put_all) (simp_all add: fun_eq_iff)
  then show ?case by simp
qed simp_all

lemma member_in: "member k es = Some d \<Longrightarrow> \<exists>q. (q, d) \<in> set es"
  by (auto simp: member_def dest!: map_of_SomeD)

lemma value_same_doc: "doc_ok n d \<Longrightarrow> doc_ok n' d' \<Longrightarrow> doc_value d = doc_value d' \<Longrightarrow> same_doc d d'"
proof (induction d arbitrary: d' n n')
  case (DNum l)
  then show ?case by (cases d') (auto intro: same_doc.num)
next
  case (DStr q)
  then show ?case by (cases d') (auto simp: quoted_def intro: same_doc.str)
next
  case (DArr ds)
  from DArr.prems(3) obtain ds' where d': "d' = DArr ds'" "map doc_value ds = map doc_value ds'"
    by (cases d') (auto simp: elems_value_map)
  have "list_all2 same_doc ds ds'"
  proof (rule list_all2_all_nthI)
    show len: "length ds = length ds'" using d'(2) by (rule map_eq_imp_length_eq)
    fix i assume i: "i < length ds"
    then have "doc_value (ds ! i) = doc_value (ds' ! i)" using d'(2) len by (metis nth_map)
    then show "same_doc (ds ! i) (ds' ! i)" using DArr.IH [of "ds ! i" "n - 1" "n' - 1"] DArr.prems i len d'(1)
      by (simp add: elems_ok_iff)
  qed
  then show ?case using d'(1) by (simp add: same_doc.arr)
next
  case (DObj es)
  from DObj.prems(3) obtain es' where d': "d' = DObj es'" "put_all [] (members_value es) = put_all [] (members_value es')"
    by (cases d') auto
  have "rel_option same_doc (member k es) (member k es')" for k
  proof -
    have "map_option doc_value (member k es) = map_option doc_value (member k es')"
      using d'(2) by (simp flip: doc_member_value)
    moreover have "same_doc x y" if e: "member k es = Some x" "member k es' = Some y" "doc_value x = doc_value y" for x y
    proof -
      obtain q q' where q: "(q, x) \<in> set es" "(q', y) \<in> set es'" using member_in [OF e(1)] member_in [OF e(2)] by blast
      then have "doc_ok (n - 1) x" "doc_ok (n' - 1) y" using DObj.prems(1,2) d'(1) by (auto simp: members_ok_iff)
      with DObj.IH [OF q(1), of x] e(3) show ?thesis by simp
    qed
    ultimately show ?thesis by (cases "member k es"; cases "member k es'") auto
  qed
  then show ?case using d'(1) by (simp add: same_doc.obj)
next
  case DNull
  then show ?case by (cases d') (auto intro: same_doc.null)
next
  case (DBool b)
  then show ?case by (cases d') (auto intro: same_doc.bool)
qed

text \<open>
  C39: \<open>jsonEqual\<close> compares documents, not texts: two texts of documents nested no deeper than
  \<open>encoding/json\<close> allows are equal to it exactly when the documents are, whatever space is written
  between the tokens of either. Strings and keys count by what their escapes decode to and
  numbers by the \<open>float64\<close> they are nearest to; the elements of an array count in order; the
  members of an object count in any order, and of equal keys only the last one.
\<close>

theorem json_equal_structural:
  assumes "list_all json_space ws" "list_all json_space ws'" "doc_ok maxNestingDepth d" "doc_ok maxNestingDepth d'"
  shows "jsonEqual (Some (ws @ doc_text ws d @ ws)) (Some (ws' @ doc_text ws' d' @ ws')) \<longleftrightarrow> same_doc d d'"
proof -
  have "doc_text v x \<noteq> ''''" if "doc_ok m x" for v m x
    using that number_token(2) by (cases x) auto
  then have "blen (Some (ws @ doc_text ws d @ ws)) \<noteq> 0" "blen (Some (ws' @ doc_text ws' d' @ ws')) \<noteq> 0"
    using assms(3,4) by (auto simp: blen_def bytes_of_def)
  then have "jsonEqual (Some (ws @ doc_text ws d @ ws)) (Some (ws' @ doc_text ws' d' @ ws')) \<longleftrightarrow> doc_value d = doc_value d'"
    using doc_text_value [OF assms(1,3)] doc_text_value [OF assms(2,4)] by (simp add: jsonEqual_def bytes_of_def)
  also have "\<dots> \<longleftrightarrow> same_doc d d'" using same_doc_value value_same_doc [OF assms(3,4)] by blast
  finally show ?thesis .
qed

definition doc_a :: doc where
  "doc_a = DObj [(''/'', DStr ''x''), (''b'', DArr [DBool True, DNull]), (''/'', DNum ''0'')]"

text \<open>The same with the members the other way round, one key escaped and another literal.\<close>

definition doc_b :: doc where
  "doc_b = DObj [(''b'', DArr [DBool True, DNull]), (CHR 0x5C # ''/'', DNum ''0.0'')]"

theorem json_equal_structural_witness:
  "doc_text '''' doc_a = ''{\"/\":\"x\",\"b\":[true,null],\"/\":0}''
    \<and> jsonEqual (Some (doc_text '''' doc_a)) (Some ('' '' @ doc_text '' '' doc_b @ '' ''))
    \<and> \<not> jsonEqual (Some (doc_text '''' doc_a)) (Some (doc_text '''' (DArr [doc_b])))"
proof -
  have "parse_number ''0'' \<noteq> None" "parse_number ''0.0'' \<noteq> None" "quoted ''/''" "quoted ''b''" "quoted ''x''"
    "quoted (CHR 0x5C # ''/'')" by code_simp+
  then have ok: "doc_ok maxNestingDepth doc_a" "doc_ok maxNestingDepth doc_b" "doc_ok maxNestingDepth (DArr [doc_b])"
    by (simp_all add: doc_a_def doc_b_def maxNestingDepth_def word_char_def)
  have "doc_value doc_a = doc_value doc_b" by code_simp
  then have same: "same_doc doc_a doc_b" by (rule value_same_doc [OF ok(1,2)])
  have other: "\<not> same_doc doc_a (DArr [doc_b])" by (simp add: doc_a_def same_doc.simps)
  have "doc_text '''' doc_a = ''{\"/\":\"x\",\"b\":[true,null],\"/\":0}''" by (simp add: doc_a_def)
  with same other show ?thesis
    using json_equal_structural [OF _ _ ok(1,2), of "''''" "'' ''"] json_equal_structural [OF _ _ ok(1,3), of "''''" "''''"]
    by (simp add: json_space_def)
qed

end
