(* ===== verification/Spec2Isabelle.thy ===== *)
theory Spec2Isabelle
  imports PagingWrites CliSafety StoreBounds TxnWatch TxnStatus Migrations CliDocuments LabelColumns HttpProps JsonDocs
begin

text \<open>
  A verification development of hiveD, a control plane for AI agents: the \<^emph>\<open>Keeper\<close> keeps
  versioned resources (Colony, Agent, AgentVersion, Run, Tool) and the event log of every Run in
  a store, serves them by connect RPCs (Apply, Get, List, Watch; Append for events), and the
  command line \<open>hived\<close> applies YAML manifests to it and prints what it holds.

  \<^bold>\<open>The program's parts and where they are modelled\<close>

  \<^item> Go values. \<open>Prelude\<close>: strings as byte lists, \<open>int32\<close> and \<open>int64\<close> conversions, shared facts.
    \<open>GoJson\<close>: \<open>encoding/json.Unmarshal\<close> into \<open>any\<close> and \<open>reflect.DeepEqual\<close>, as far as
    \<open>jsonEqual\<close> (\<open>internal/store/jsoneq.go\<close>) uses them. \<open>CliJson\<close>: decoding into a struct and into
    a map of raw messages, \<open>Marshal\<close> and \<open>MarshalIndent\<close>, as far as the command line uses them.
    \<open>StringMap\<close>: both directions on a \<open>map[string]string\<close>, for labels and for the probes. \<open>JsonText\<close>,
    \<open>JsonTokens\<close>, \<open>JsonRoundtrip\<close>, \<open>StringMapJson\<close>: what these write is read back as the same values.
  \<^item> The data model. \<open>StoreTypes\<close> (\<open>store.go\<close>, \<open>errors.go\<close>, \<open>uid.go\<close>, \<open>watch.go\<close>) with the interfaces
    \<open>ResourceStore\<close> and \<open>EventStore\<close> as records of functions; \<open>PageToken\<close> (\<open>pagetoken.go\<close>).
  \<^item> The stores. \<open>MemoryStore\<close> (\<open>memory.go\<close>) and \<open>PostgresStore\<close> (\<open>postgres.go\<close> over the schema of
    \<open>internal/store/migrations\<close>): every operation is a function from the store's state to its
    result and the new state; the mutex, and the statement of the database, make it one step. A row
    is inserted as the \<open>jsonb\<close> texts of \<open>jsonbMap\<close> and \<open>jsonbBytes\<close> and kept as \<open>scanResource\<close> reads it.
    \<open>Watch\<close> has the polling goroutine of \<open>Watch\<close> and \<open>WatchEvents\<close> as a step relation between
    writes of others, \<open>StoreWatch\<close> and \<open>PgWatch\<close> its four instances. \<open>PgTxn\<close> has \<open>Apply\<close>, \<open>ApplyStatus\<close>
    and \<open>Append\<close> of any number of clients as database transactions: the row lock of the version counter
    (migration 00003), the advisory lock and the statement snapshot of \<open>Append\<close>, the look before
    the insert of \<open>applyImmutable\<close>, the row \<open>ApplyStatus\<close> finds before it waits, commit and abort as
    steps of their own. \<open>Migrations\<close> has the migrations as functions on the database, up and down.
  \<^item> The API. \<open>Messages\<close> (the structs of \<open>gen/hived/v1alpha1\<close>), \<open>ApiConvert\<close> (\<open>internal/api/convert.go\<close>),
    \<open>ApiHandlers\<close> (\<open>colony.go\<close>, \<open>agent.go\<close>, \<open>run.go\<close>, \<open>tool.go\<close>), \<open>ApiServer\<close> (\<open>event.go\<close>,
    \<open>interceptors.go\<close>, \<open>server.go\<close>, \<open>internal/identity/stub.go\<close>), \<open>Routing\<close> (the generated
    \<open>service.connect.go\<close>: procedures, client URLs, the switch of each handler; and the mux), \<open>ConnectStubs\<close>
    (the Unimplemented handlers, and the same of \<open>broker.connect.go\<close> and \<open>drone.connect.go\<close>), \<open>Keeper\<close>
    (\<open>keeper_api\<close>: interceptor and handlers over one store, as a client finds them). \<open>DroneMessages\<close> has
    the messages of the Broker's and the Drone's services (\<open>broker.pb.go\<close>, \<open>drone.pb.go\<close>) and the
    remaining requests of \<open>service.pb.go\<close>. \<open>HttpApi\<close> goes down to the URL: the client structs of
    \<open>*.connect.go\<close> call a transport with their URL, the headers and a message, and \<open>NewHandler\<close>
    (\<open>server.go\<close>) answers a path by a reply, a stream, a page of bytes or a failure.
  \<^item> The command line. \<open>CliManifest\<close> (\<open>manifest.go\<close>), \<open>CliOutput\<close> (\<open>output.go\<close>, the flags of \<open>root.go\<close>),
    \<open>CliClient\<close> (\<open>client.go\<close>), \<open>CliCommands\<close> (\<open>apply.go\<close>, \<open>get.go\<close>, \<open>kind.go\<close>), \<open>CliRoot\<close> (the other commands and
    \<open>main.go\<close>): a command takes the flags, a Keeper and the state behind it and answers its error,
    what it printed and the new state.
  \<^item> The Keeper's process. \<open>KeeperMain\<close>: \<open>internal/config\<close>, \<open>internal/obs\<close>, \<open>internal/store/migrate.go\<close>,
    \<open>cmd/keeper/main.go\<close>.

  A resource is the record \<open>resource\<close> with the fields of the Go struct; an error is a value of
  \<open>go_error\<close> (its sentinel and text), \<open>api_error\<close> (its connect code), \<open>cli_error\<close> or \<open>keeper_error\<close>,
  and every raise and early return of the source is a branch on it. A dereference of a nil
  pointer in the command line is the error \<open>NilDereference\<close>.

  \<^bold>\<open>Contracts\<close>

  \<^item> \<open>resource_store\<close> (\<open>StoreContract\<close>): what \<open>store.go\<close> promises of Apply, ApplyStatus and Get; both
    stores interpret it, the handlers and the end-to-end properties use it.
  \<^item> \<open>event_log\<close> (\<open>EventLog\<close>): an append-only log numbered from one; both stores interpret it.
  \<^item> \<open>pager\<close> (\<open>Pagination\<close>): what a page and its token must be; \<open>moving_pager\<close> (\<open>PagingWrites\<close>) extends
    it by what a token means in a later state; both \<open>List\<close>s interpret both.
  \<^item> \<open>feed_source\<close> and \<open>history_feed\<close> (\<open>Watch\<close>): what a poll and a write must keep for a watch to be
    complete; the four watch goroutines interpret them.
  \<^item> \<open>connect_service\<close> (\<open>ConnectStubs\<close>): what the generated clients, handlers and Unimplemented handlers
    of a service have in common; all eight services interpret it.

  \<^bold>\<open>What is shown\<close>

  \<^item> \<open>StoreProps\<close>: what any sequence of writes keeps of a resource, optimistic concurrency,
    what a re-apply changes, complete paging. \<open>PagingWrites\<close>: paging while others
    write ends, repeats nothing and misses nothing that was there all along. \<open>StoreBounds\<close>: page bounds and the shape
    of a UID. \<open>WatchProps\<close> and this theory: event logs, and that a watch delivers everything, also
    after a List, in any interleaving with writers.
  \<^item> \<open>TxnProps\<close>: the transactions refine the atomic steps in the order of their commits, so what
    \<open>StoreProps\<close> and \<open>WatchProps\<close> show of steps holds of concurrent clients; no version becomes
    visible late; concurrent appends lose and repeat nothing. \<open>TxnWatch\<close>: a run of a watch over
    concurrent transactions is one over atomic steps, so watches see every commit. \<open>TxnStatus\<close>: concurrent
    \<open>Apply\<close> and \<open>ApplyStatus\<close> do not overwrite each other.
  \<^item> \<open>JsonDocs\<close>: \<open>jsonEqual\<close> of two texts is equality of the documents they are texts of.
  \<^item> \<open>LabelColumns\<close>: labels, annotations and specifications survive the \<open>jsonb\<close> columns, and every
    row an \<open>INSERT\<close> adds can be scanned.
  \<^item> \<open>ApiProps\<close>: the same on the wire, validation, error codes, server-owned fields, the interceptor.
  \<^item> \<open>HttpProps\<close>: the commands see over HTTP what they see on \<open>keeper_api\<close>, so all that is shown of the
    latter holds of the former; everything outside the six services is refused without effect; the
    probes answer JSON that decodes to what was written.
  \<^item> \<open>CliProps\<close>, \<open>KeeperProps\<close>, \<open>CliSafety\<close>: manifests are read completely and in order, \<open>apply\<close> stops
    truthfully, what \<open>apply\<close> prints is what \<open>get\<close> prints, a rejected token has no effect, client URLs
    and mux agree, no command reads through a nil pointer, \<open>serve\<close> listens after the migration.
  \<^item> \<open>CliDocuments\<close>: the body of a manifest is the document less its envelope fields, and a printed
    list is one JSON array of the values printed.
  \<^item> \<open>Migrations\<close>: what \<open>serve\<close> serves after it has migrated a database of any version is the store of
    \<open>PostgresStore\<close> with all rows and versions; down and up again restores it. \<open>ConnectStubs\<close>: the
    services the Keeper does not mount are consistent, and the mux answers none of their paths.

  \<open>Samples\<close> and \<open>CliSamples\<close> hold the concrete inputs of the witnesses.

  \<^bold>\<open>Bounds and fuel\<close>

  Versions, generations and sequence numbers are \<open>int64\<close> in the source; the properties assume
  room below \<open>max_int64\<close> where they need it (two versions a write, three where an \<open>ApplyStatus\<close> that waited is computed twice), and where the database
  would raise an overflow the model has that error. Lengths go through the \<open>int32\<close> conversion of the
  code. \<open>follow_pages\<close> and the reader of the event log take fuel; more than the number of rows is
  enough, and the properties say that the result is then a value. \<open>follow_over\<close> takes one state for
  each page; more of them than there ever were resources to list are enough. Every other loop is a
  structural recursion.

  \<^bold>\<open>Parameters\<close>

  The engine of PostgreSQL (\<open>pg_engine\<close>: which texts and documents it accepts, equality of \<open>jsonb\<close>,
  collation, time precision), \<open>protojson\<close> and \<open>timestamppb\<close>, the YAML libraries, the file system,
  \<open>hashtext\<close>, goose and the network listeners are arguments of the definitions, with documented
  behaviour as named hypotheses where a property needs any. Of the network \<open>HttpApi\<close> has one server
  that answers the URLs of its origin; a message arrives as it was sent, and what an unreachable host
  or a body of the wrong type gives is an argument. \<open>encoding/json\<close>, \<open>base64\<close>,
  \<open>text/tabwriter\<close>, \<open>strconv\<close> and \<open>slog\<close> levels are written out as far as they are used.

  \<^bold>\<open>Not modelled\<close>

  \<^item> The wire encoding, reflection and descriptors in \<open>*.pb.go\<close> (the protobuf library's part), and the
    getters no code calls; HTTP methods, and the redirects of the mux to clean paths.
  \<^item> Implementations of the Broker's and the Drone's services, which the repository does not have.
  \<^item> Parsing of the command line by Cobra, signals, timer periods and channel capacities, logs and
    metrics other than the RPC counter.
  \<^item> Indexes, constraints on single columns and the extension of the migrations; garbage collection of
    event rows, which the code does not have.
  \<^item> The web site, deployment files and proto sources: no Go code.
\<close>

section \<open>List, then Watch\<close>

lemma watch_steps_writes: "(watch_step wr F)\<^sup>*\<^sup>* c c' \<Longrightarrow> wr\<^sup>*\<^sup>* (fst c) (fst c')"
proof (induction rule: rtranclp_induct)
  case base
  then show ?case by simp
next
  case (step y z)
  from step.hyps(2) have "fst y = fst z \<or> wr (fst y) (fst z)" by (cases rule: watch_step.cases) auto
  with step.IH show ?case by (auto intro: rtranclp.rtrancl_into_rtrancl)
qed

text \<open>A row that keeps its version keeps its labels.\<close>

lemma pg_apply_labels:
  assumes "pg_inv eng s" "pg_Apply eng e q v s = (res, s')" "pg_live s' k = Some r" "pg_live s k = Some ex"
    and "r_ResourceVersion r \<le> p_counter s"
  shows "r_Labels r = r_Labels ex"
  using assms(2,1)
proof (cases rule: pg_Apply_split)
  case insert
  from insert(3) show ?thesis
    by (cases rule: pg_insertImmutable_cases) (use assms in \<open>auto simp: pg_live_def pg_put_def update_conv' split: if_splits\<close>)
next
  case mutable
  from mutable(2) show ?thesis
    by (cases rule: pg_applyMutable_cases)
      (use assms in \<open>auto simp: pg_live_def pg_put_def update_conv' update_row_def row_changed_def split: if_splits\<close>)
qed (use assms in \<open>auto simp: pg_live_def\<close>)

lemma pg_wr_labels:
  assumes "pg_all_inv eng s" "pg_wr eng s s'" "pg_live s' k = Some r" "r_ResourceVersion r \<le> p_counter s"
  shows "\<exists>ex. pg_live s k = Some ex \<and> r_ResourceVersion ex = r_ResourceVersion r \<and> r_Labels ex = r_Labels r"
proof -
  have i: "pg_inv eng s" using assms(1) by (simp add: pg_all_inv_def)
  obtain ex where ex: "pg_live s k = Some ex" "r_ResourceVersion ex = r_ResourceVersion r"
    using pg_wr_effect(4) [OF assms(1-3)] assms(4) by auto
  have "r_Labels ex = r_Labels r"
    using assms(2)
  proof (cases rule: pg_wr.cases)
    case (resource op)
    show ?thesis
    proof (cases op)
      case (OpApply e q v)
      then show ?thesis using resource pg_apply_labels [OF i, of e q v] ex assms(3,4)
        by (cases "pg_Apply eng e q v s") (auto simp: op_step_def pg_ResourceStore_def)
    next
      case (OpStatus e q)
      obtain res t where a: "pg_ApplyStatus eng e q s = (res, t)" by fastforce
      then have "s' = t" using resource OpStatus by (simp add: op_step_def pg_ResourceStore_def)
      with a show ?thesis
        by (cases rule: pg_ApplyStatus_cases) (use ex assms(3) in \<open>auto simp: pg_live_def update_conv' split: if_splits\<close>)
    qed
  next
    case (event e ev)
    have "p_rows (snd (pg_Append eng e ev s)) = p_rows s"
      by (auto simp: pg_Append_def Let_def hived_next_resource_version_def split: option.splits if_splits)
    then show ?thesis using event ex(1) assms(3) by (simp add: pg_live_def)
  qed (use ex(1) assms(3) in \<open>simp add: pg_live_def\<close>)
  with ex show ?thesis by blast
qed

lemma pg_path_labels:
  assumes "(pg_wr eng)\<^sup>*\<^sup>* s s'" "pg_all_inv eng s" "pg_live s' k = Some r" "r_ResourceVersion r \<le> p_counter s"
  shows "\<exists>ex. pg_live s k = Some ex \<and> r_ResourceVersion ex = r_ResourceVersion r \<and> r_Labels ex = r_Labels r"
  using assms
proof (induction arbitrary: r rule: rtranclp_induct)
  case (step y z)
  have y: "pg_all_inv eng y" "p_counter s \<le> p_counter y" using pg_wr_path [OF step.hyps(1) step.prems(1)] by auto
  then obtain x where x: "pg_live y k = Some x" "r_ResourceVersion x = r_ResourceVersion r" "r_Labels x = r_Labels r"
    using pg_wr_labels [OF y(1) step.hyps(2) step.prems(2)] step.prems(3) by auto
  with step.IH [OF step.prems(1) x(1)] step.prems(3) show ?case by auto
qed auto


lemma follow_over_cong:
  assumes "\<And>q t. rel_sum (\<lambda>_ _. True) (\<lambda>p p'. lr_Items p = lr_Items p' \<and> lr_NextPageToken p = lr_NextPageToken p') (page q t) (page' q t)"
  shows "follow_over page qs t = follow_over page' qs t"
proof (induction qs arbitrary: t)
  case (Cons q qs)
  from assms [of q t] show ?case by (cases rule: rel_sum.cases) (simp_all add: Cons.IH)
qed simp

lemma pg_List2_rows: "rel_sum (\<lambda>_ _. True) (\<lambda>p p'. lr_Items p = lr_Items p' \<and> lr_NextPageToken p = lr_NextPageToken p')
    (pg_List eng kind opts s2) (pg_List2 eng kind opts s1 s2)"
  by (auto simp: pg_List_def pg_List2_def Let_def split: sum.split option.split prod.split)

lemma sorted_wrt_last: "sorted_wrt R xs \<Longrightarrow> reflp R \<Longrightarrow> x \<in> set xs \<Longrightarrow> R x (last xs)"
  by (induction xs) (auto dest: reflpD)

text \<open>The states of the two statements of each \<open>List\<close>, in order.\<close>

definition statements :: "('s \<times> 's) list \<Rightarrow> 's list" where
  "statements calls = concat (map (\<lambda>(a, b). [a, b]) calls)"

lemma statements_simps [simp]: "statements [] = []" "statements ((a, b) # calls) = a # b # statements calls"
  by (simp_all add: statements_def)

lemma in_statements: "(a, b) \<in> set calls \<Longrightarrow> b \<in> set (statements calls)"
  by (force simp: statements_def)

lemma last_statements: "calls \<noteq> [] \<Longrightarrow> last (statements calls) = snd (last calls)"
proof (induction calls)
  case (Cons c calls)
  then show ?case by (cases c; cases calls) auto
qed simp

lemma statements_paths:
  assumes "successively (pg_wr eng)\<^sup>*\<^sup>* (init_postgres # statements ((s1, s2) # cs))" "(a, b) \<in> set ((s1, s2) # cs)"
  shows "(pg_wr eng)\<^sup>*\<^sup>* init_postgres s1" "(pg_wr eng)\<^sup>*\<^sup>* s1 b" "(pg_wr eng)\<^sup>*\<^sup>* b (snd (last ((s1, s2) # cs)))"
proof -
  have "transp (pg_wr eng)\<^sup>*\<^sup>*" "reflp (pg_wr eng)\<^sup>*\<^sup>*" by (auto intro: transpI reflpI)
  then have all: "sorted_wrt (pg_wr eng)\<^sup>*\<^sup>* (init_postgres # statements ((s1, s2) # cs))"
    using assms(1) successively_conv_sorted_wrt by blast
  then show "(pg_wr eng)\<^sup>*\<^sup>* init_postgres s1" by simp
  have b: "b \<in> set (statements ((s1, s2) # cs))" using in_statements [OF assms(2)] .
  with all show "(pg_wr eng)\<^sup>*\<^sup>* s1 b" by auto
  from sorted_wrt_last [OF _ \<open>reflp _\<close> b] all last_statements [of "(s1, s2) # cs"]
  show "(pg_wr eng)\<^sup>*\<^sup>* b (snd (last ((s1, s2) # cs)))" by simp
qed

lemma followed_has:
  assumes "\<forall>(a, b)\<in>set calls. pg_pageable eng (b, kind, opts)"
    and "follow_over (\<lambda>(a, b) t. pg_List2 eng kind (opts\<lparr>lo_PageToken := t\<rparr>) a b) calls '''' = Some out"
    and "\<And>a b. (a, b) \<in> set calls \<Longrightarrow> \<exists>x. pg_live b (kind, k) = Some x \<and> r_ResourceVersion x = v
      \<and> pg_selects kind (lo_Colony opts) (pg_selector eng opts) x"
  shows "\<exists>x\<in>set out. key_of x = (kind, k) \<and> r_ResourceVersion x = v"
proof -
  let ?q = "\<lambda>(a :: Postgres, b). (b, kind, opts)"
  have ok: "\<forall>q\<in>set (map ?q calls). pg_pageable eng q" using assms(1) by auto
  have same: "sorted_wrt same_list (map ?q calls)"
    by (auto simp: sorted_wrt_map same_list_def sorted_wrt_iff_nth_less case_prod_beta)
  have "follow_over (pg_page eng) (map ?q calls) '''' = Some out"
    using assms(2) unfolding follow_over_map
    by (subst follow_over_cong [where page' = "\<lambda>(a, b) t. pg_List2 eng kind (opts\<lparr>lo_PageToken := t\<rparr>) a b"])
      (auto simp: pages pg_List2_rows)
  note out = pg_moving.follow_over_out [OF ok same this]
  have inv: "pg_inv eng b" if "(a, b) \<in> set calls" for a b using assms(1) that by (auto simp: pg_pageable_def)
  have key: "key_of x = p" if "pg_live b p = Some x" "(a, b) \<in> set calls" for a b p x
    using pg_inv_row [OF inv [OF that(2)]] that(1) by (simp add: pg_live_def pg_row_ok_def)
  have "calls \<noteq> []" using assms(2) by auto
  then obtain a0 b0 where "(a0, b0) \<in> set calls" by (cases calls) auto
  then have inj: "inj (pg_key eng)" using assms(1) by (auto simp: pg_pageable_def inj_def pg_key_def)
  have "pg_key eng k \<in> (pg_key eng \<circ> list_key) ` set (pg_items eng (b, kind, opts))" if c: "(a, b) \<in> set calls" for a b
  proof -
    obtain x where x: "pg_live b (kind, k) = Some x" "pg_selects kind (lo_Colony opts) (pg_selector eng opts) x"
      using assms(3) [OF c] by blast
    then have "((kind, k), x) \<in> set (p_rows b)" by (auto simp: pg_live_def dest: map_of_SomeD)
    then have "x \<in> set (pg_items eng (b, kind, opts))" using x(2) by (force simp: pg_items_def)
    moreover have "list_key x = k" using key [OF x(1) c] by (cases k) (simp add: key_of_def list_key_def)
    ultimately show ?thesis by force
  qed
  then have "\<forall>q\<in>set (map ?q calls). pg_key eng k \<in> (pg_key eng \<circ> list_key) ` set (pg_items eng q)" by auto
  then have "pg_key eng k \<in> (pg_key eng \<circ> list_key) ` set out" using out by blast
  then obtain x where x: "x \<in> set out" "pg_key eng (list_key x) = pg_key eng k" by auto
  from x(1) out obtain q where "q \<in> set (map ?q calls)" "x \<in> set (pg_items eng q)" by blast
  then obtain a b where b: "(a, b) \<in> set calls" "x \<in> set (pg_items eng (b, kind, opts))" by auto
  then obtain p where p: "(p, x) \<in> set (p_rows b)" "r_Kind x = kind" by (auto simp: pg_items_def pg_selects_def)
  then have l: "pg_live b p = Some x" using inv [OF b(1)] by (auto simp: pg_live_def pg_inv_def)
  moreover have "p = (kind, k)"
    using key [OF l b(1)] p(2) injD [OF inj x(2)] by (cases k) (auto simp: key_of_def list_key_def)
  moreover obtain y where "pg_live b (kind, k) = Some y" "r_ResourceVersion y = v" using assms(3) [OF b(1)] by blast
  ultimately show ?thesis using l x(1) key [OF l b(1)] by auto
qed


text \<open>
  C10: List all pages and then Watch misses nothing on PostgreSQL. A client follows
  \<open>NextPageToken\<close> to the last page, with a selector or without, and then watches from the version
  the \<^emph>\<open>first\<close> page returned, while other clients write all along, also between the two statements
  of a List: once the watch is idle and has polled as often as versions are left, every
  readable resource of the scope that has the selector's labels is, at its current version,
  in the list or among the events sent. (From the version of a later page this is false:
  \<open>watch_from_later_page_misses\<close>.)
\<close>

theorem postgres_list_then_watch:
  assumes "\<forall>(a, b)\<in>set ((s1, s2) # cs). pg_pageable eng (b, kind, opts)"
    and "successively (pg_wr eng)\<^sup>*\<^sup>* (init_postgres # statements ((s1, s2) # cs))"
    and "follow_over (\<lambda>(a, b) t. pg_List2 eng kind (opts\<lparr>lo_PageToken := t\<rparr>) a b) ((s1, s2) # cs) '''' = Some out"
    and "pg_List2 eng kind (opts\<lparr>lo_PageToken := ''''\<rparr>) s1 s2 = Inr first"
    and "(watch_step (pg_wr eng) (pg_Watch eng kind opts))\<^sup>*\<^sup>*
      (snd (last ((s1, s2) # cs)), watch_start (lr_ResourceVersion first)) (s, w)"
    and "w_pending w = []" "\<not> w_done w" "p_counter s - w_cursor w \<le> int n"
    and "pg_Get eng kind c name s = Inr r" "lo_Colony opts = '''' \<or> c = lo_Colony opts"
    and "pg_contains (r_Labels r) (pg_selector eng opts)"
  shows "(\<exists>x\<in>set out. key_of x = (kind, c, name) \<and> r_ResourceVersion x = r_ResourceVersion r)
    \<or> (\<exists>e\<in>set (w_sent (watch_rounds (pg_Watch eng kind opts) s n w)). we_Type e \<noteq> WatchBookmark
        \<and> we_ResourceVersion e = r_ResourceVersion r \<and> key_of (we_Object e) = (kind, c, name))"
proof -
  let ?k = "(kind, c, name)" and ?calls = "(s1, s2) # cs" and ?last = "snd (last ((s1, s2) # cs))"
  have first: "(s1, s2) \<in> set ?calls" by simp
  note paths = statements_paths [OF assms(2)]
  have s1: "pg_all_inv eng s1" using pg_wr_path [OF paths(1) [OF first] pg_all_inv_init] by blast
  have writes: "(pg_wr eng)\<^sup>*\<^sup>* ?last s" using watch_steps_writes [OF assms(5)] by simp
  have b: "pg_all_inv eng b" "p_counter s1 \<le> p_counter b" "(pg_wr eng)\<^sup>*\<^sup>* b s" if "(a, b) \<in> set ?calls" for a b
    using pg_wr_path [OF paths(2) [OF that] s1] rtranclp_trans [OF paths(3) [OF that] writes] by auto
  obtain la lb where last: "(la, lb) \<in> set ?calls" "?last = lb" using last_in_set [of ?calls] by (metis list.distinct(1) prod.collapse)
  have s: "pg_inv eng s" using pg_wr_path [OF b(3,1) [OF last(1)]] by (simp add: pg_all_inv_def)
  have live: "pg_live s ?k = Some r" using assms(9) pg_Get_live [OF s] by simp
  have rv: "lr_ResourceVersion first = p_counter s1"
    using assms(4) by (auto simp: pg_List2_def Let_def split: sum.splits prod.splits if_splits option.splits)
  show ?thesis
  proof (cases "r_ResourceVersion r \<le> p_counter s1")
    case True
    have "\<exists>x. pg_live b ?k = Some x \<and> r_ResourceVersion x = r_ResourceVersion r
        \<and> pg_selects kind (lo_Colony opts) (pg_selector eng opts) x" if c: "(a, b) \<in> set ?calls" for a b
    proof -
      obtain x where x: "pg_live b ?k = Some x" "r_ResourceVersion x = r_ResourceVersion r" "r_Labels x = r_Labels r"
        using pg_path_labels [OF b(3,1) [OF c] live] b(2) [OF c] True by auto
      moreover have "pg_row_ok eng (p_counter b) ?k x"
        using pg_inv_row [of eng b] b(1) [OF c] x(1) by (simp add: pg_live_def pg_all_inv_def)
      ultimately show ?thesis using assms(10,11) by (auto simp: pg_selects_def pg_row_ok_def key_of_def)
    qed
    from followed_has [OF assms(1,3) this] show ?thesis by simp
  next
    case False
    have fine: "pe_text_ok eng kind" "pe_text_ok eng (lo_Colony opts)" using assms(1) by (auto simp: pg_pageable_def)
    have "(?k, r_ResourceVersion r) \<in> (if pe_text_ok eng kind \<and> pe_text_ok eng (lo_Colony opts)
        then pg_current kind (lo_Colony opts) s else {})"
      using live fine assms(10) by (auto simp: pg_current_def in_scope_def)
    from pg_watch.watch_catches_up [OF b(1) [OF last(1), folded last(2)] assms(5-8) this] False rv
    show ?thesis
      by (fastforce simp: delivered_def event_view_def List.map_filter_def split: if_splits)
  qed
qed

lemma pg_wr_writes_1: "pg_wr plain_engine init_postgres (pg_after plain_engine writes_1)"
  using pg_wr.resource [of "OpApply env_a agent_a None" init_postgres plain_engine]
  by (simp add: pg_after_def writes_1_def init_postgres_def sample_defs)

lemma pg_List2_writes_1: "pg_List2 plain_engine ''Agent'' empty_list_options init_postgres (pg_after plain_engine writes_1) =
   Inr \<lparr>lr_Items = [agent_a\<lparr>r_APIVersion := DefaultAPIVersion, r_UID := ''u1'', r_Generation := 1,
      r_ResourceVersion := 1, r_Status := Some ''{}'', r_CreatedAt := 7, r_UpdatedAt := 7\<rparr>],
     lr_NextPageToken = '''', lr_ResourceVersion = 0\<rparr>"
  unfolding pg_writes_1
  by (simp add: pg_List2_def empty_list_options_def clampPageSize_def DefaultPageSize_def sample_defs pageTokenSep_def
      pg_selects_def pg_contains_def cut_page_def init_postgres_def Let_def)

theorem postgres_list_then_watch_witness:
  "\<exists>out. follow_over (\<lambda>(a, b) t. pg_List2 plain_engine ''Agent'' (empty_list_options\<lparr>lo_PageToken := t\<rparr>) a b)
        [(init_postgres, pg_after plain_engine writes_1)] '''' = Some out
    \<and> ((\<exists>x\<in>set out. key_of x = (''Agent'', ''c'', ''a'') \<and> r_ResourceVersion x = 1)
      \<or> (\<exists>e\<in>set (w_sent (watch_rounds (pg_Watch plain_engine ''Agent'' empty_list_options)
            (pg_after plain_engine writes_1) 1 (watch_start 0))).
          we_Type e \<noteq> WatchBookmark \<and> we_ResourceVersion e = 1 \<and> key_of (we_Object e) = (''Agent'', ''c'', ''a'')))"
proof -
  let ?s = "pg_after plain_engine writes_1" and ?o = empty_list_options
  have g: "pg_Get plain_engine ''Agent'' ''c'' ''a'' ?s = Inr (agent_a
   \<lparr>r_APIVersion := DefaultAPIVersion, r_UID := ''u1'', r_Generation := 1, r_ResourceVersion := 1,
    r_Status := Some ''{}'', r_CreatedAt := 7, r_UpdatedAt := 7\<rparr>)"
    unfolding pg_writes_1 pg_Get_def by (simp add: sample_defs pageTokenSep_def)
  have o: "?o\<lparr>lo_PageToken := ''''\<rparr> = ?o" "lo_Colony ?o = ''''" "pg_selector plain_engine ?o = fmempty"
    by (simp_all add: empty_list_options_def pg_selector_def plain_engine_def)
  have page: "\<forall>(a, b)\<in>set [(init_postgres, ?s)]. pg_pageable plain_engine (b, ''Agent'', ?o)"
    using pg_after_inv(1) [OF sample_writes_ok(1,4), of plain_engine]
    by (simp add: pg_pageable_def) (simp add: plain_engine_def empty_list_options_def pageTokenSep_def inj_def)
  have path: "successively (pg_wr plain_engine)\<^sup>*\<^sup>* (init_postgres # statements [(init_postgres, ?s)])"
    using pg_wr_writes_1 by (auto simp: r_into_rtranclp)
  obtain out where out: "follow_over (\<lambda>(a, b) t. pg_List2 plain_engine ''Agent'' (?o\<lparr>lo_PageToken := t\<rparr>) a b) [(init_postgres, ?s)] '''' = Some out"
    by (simp add: o pg_List2_writes_1)
  have c: "p_counter ?s = 1" by (simp add: pg_writes_1)
  show ?thesis
    using postgres_list_then_watch [where w = "watch_start 0" and n = 1, OF page path out, unfolded o(1), OF pg_List2_writes_1 _ _ _ _ g] out c
    by (simp add: o pg_contains_def)
qed

text \<open>
  From the version of a later page it would miss what changed on an earlier one meanwhile: a
  resource of the first page is written before the second is read, and is neither in the pages
  at its current version nor among what a watch from the second page's version is ever sent.
\<close>

lemma pg_two_agents_rows: "pg_after plain_engine two_agents =
   \<lparr>p_rows = [((''Agent'', ''c'', ''b''), agent_b\<lparr>r_APIVersion := DefaultAPIVersion, r_UID := ''u1'',
        r_Generation := 1, r_ResourceVersion := 1, r_Status := Some ''{}'', r_CreatedAt := 7, r_UpdatedAt := 7\<rparr>),
      ((''Agent'', ''c'', ''a''), agent_a\<lparr>r_APIVersion := DefaultAPIVersion, r_UID := ''u2'',
        r_Generation := 1, r_ResourceVersion := 2, r_Status := Some ''{}'', r_CreatedAt := 9, r_UpdatedAt := 9\<rparr>)],
    p_counter = 2, p_events = [], p_event_id = 0\<rparr>"
  by (simp add: pg_after_def two_agents_def op_step_def pg_ResourceStore_def pg_Apply_def pg_applyMutable_def
      sample_defs init_postgres_def insert_row_eq jsonbBytes_def blen_def bytes_of_def
      api_version_of_def pageTokenSep_def hived_next_resource_version_def DefaultAPIVersion_def key_of_def
      IsImmutableKind_def ImmutableKinds_def Let_def)

lemma pg_two_agents_later: "op_step (pg_ResourceStore plain_engine) (OpApply env_b agent_a2 None) (pg_after plain_engine two_agents) =
   \<lparr>p_rows = [((''Agent'', ''c'', ''b''), agent_b\<lparr>r_APIVersion := DefaultAPIVersion, r_UID := ''u1'',
        r_Generation := 1, r_ResourceVersion := 1, r_Status := Some ''{}'', r_CreatedAt := 7, r_UpdatedAt := 7\<rparr>),
      ((''Agent'', ''c'', ''a''), agent_a2\<lparr>r_APIVersion := DefaultAPIVersion, r_UID := ''u2'',
        r_Generation := 2, r_ResourceVersion := 4, r_Status := Some ''{}'', r_CreatedAt := 9, r_UpdatedAt := 9\<rparr>)],
    p_counter = 4, p_events = [], p_event_id = 0\<rparr>"
  unfolding pg_two_agents_rows
  by (simp add: op_step_def pg_ResourceStore_def pg_Apply_def pg_applyMutable_def update_row_def row_changed_def spec_distinct_def
      sample_defs insert_row_eq jsonbBytes_def blen_def bytes_of_def
      api_version_of_def pageTokenSep_def hived_next_resource_version_def DefaultAPIVersion_def key_of_def
      IsImmutableKind_def ImmutableKinds_def Let_def)


theorem watch_from_later_page_misses:
  "\<exists>s1 s2 p1 p2 r. pg_wr plain_engine s1 s2
    \<and> pg_List plain_engine ''Agent'' one_per_page s1 = Inr p1
    \<and> pg_List plain_engine ''Agent'' (one_per_page\<lparr>lo_PageToken := lr_NextPageToken p1\<rparr>) s2 = Inr p2 \<and> lr_NextPageToken p2 = ''''
    \<and> pg_Get plain_engine ''Agent'' ''c'' ''a'' s2 = Inr r
    \<and> (\<forall>x\<in>set (lr_Items p1 @ lr_Items p2). r_Name x = ''a'' \<longrightarrow> r_ResourceVersion x < r_ResourceVersion r)
    \<and> pg_watch_due plain_engine ''Agent'' one_per_page s2 (lr_ResourceVersion p2) = []"
proof -
  let ?s1 = "pg_after plain_engine two_agents" and ?w = "OpApply env_b agent_a2 None"
  let ?s2 = "op_step (pg_ResourceStore plain_engine) ?w ?s1"
  have w: "pg_wr plain_engine ?s1 ?s2"
    by (rule pg_wr.resource) (simp add: sample_defs, simp add: pg_two_agents_rows)
  have order: "\<not> (''c'', ''b'') < (''c'', ''a'')" "(''c'', ''a'') < (''c'', ''b'')" by (simp_all add: less_char_def)
  have tok: "decodePageToken (encodePageToken ''c'' ''a'') = Inr (''c'', ''a'')"
    by (simp add: decode_encodePageToken pageTokenSep_def)
  have one: "pg_List plain_engine ''Agent'' one_per_page ?s1 = Inr \<lparr>lr_Items = [agent_a\<lparr>r_APIVersion := DefaultAPIVersion, r_UID := ''u2'',
        r_Generation := 1, r_ResourceVersion := 2, r_Status := Some ''{}'', r_CreatedAt := 9, r_UpdatedAt := 9\<rparr>],
     lr_NextPageToken = encodePageToken ''c'' ''a'', lr_ResourceVersion = 2\<rparr>"
    unfolding pg_two_agents_rows
    by (simp add: pg_List_def pg_List2_def one_per_page_def empty_list_options_def clampPageSize_def MaxPageSize_def sample_defs pageTokenSep_def
      pg_selects_def pg_contains_def pg_key_def list_key_def cut_page_def less_char_def Let_def)
  have two: "pg_List plain_engine ''Agent'' (one_per_page\<lparr>lo_PageToken := encodePageToken ''c'' ''a''\<rparr>) ?s2 = Inr \<lparr>lr_Items = [agent_b\<lparr>r_APIVersion := DefaultAPIVersion, r_UID := ''u1'',
        r_Generation := 1, r_ResourceVersion := 1, r_Status := Some ''{}'', r_CreatedAt := 7, r_UpdatedAt := 7\<rparr>],
     lr_NextPageToken = '''', lr_ResourceVersion = 4\<rparr>"
    unfolding pg_two_agents_later
    by (simp add: pg_List_def pg_List2_def one_per_page_def empty_list_options_def clampPageSize_def MaxPageSize_def sample_defs pageTokenSep_def tok
      pg_selects_def pg_contains_def pg_key_def list_key_def cut_page_def less_char_def Let_def)
  have get: "\<exists>r. pg_Get plain_engine ''Agent'' ''c'' ''a'' ?s2 = Inr r \<and> r_ResourceVersion r = 4"
    unfolding pg_two_agents_later by (simp add: pg_Get_def sample_defs pageTokenSep_def)
  have due: "pg_watch_due plain_engine ''Agent'' one_per_page ?s2 4 = []"
    unfolding pg_two_agents_later by (simp add: pg_watch_due_def)
  show ?thesis
    using w one two get due by (intro exI [of _ ?s1] exI [of _ ?s2]) (auto simp: sample_defs)
qed

text \<open>
  But List then Watch can deliver a resource twice at the same version: one written
  between List's two statements is in the list and, since List returned the older version,
  is sent again by the watch.
\<close>

theorem list_then_watch_may_repeat:
  "\<exists>s1 s2 res x e. pg_wr plain_engine s1 s2 \<and> pg_List2 plain_engine ''Agent'' empty_list_options s1 s2 = Inr res
    \<and> x \<in> set (lr_Items res)
    \<and> e \<in> set (w_sent (watch_round (pg_Watch plain_engine ''Agent'' empty_list_options) s2
          (watch_start (lr_ResourceVersion res))))
    \<and> we_Object e = x \<and> we_ResourceVersion e = r_ResourceVersion x"
proof -
  let ?s = "pg_after plain_engine writes_1"
  let ?x = "agent_a\<lparr>r_APIVersion := DefaultAPIVersion, r_UID := ''u1'', r_Generation := 1,
      r_ResourceVersion := 1, r_Status := Some ''{}'', r_CreatedAt := 7, r_UpdatedAt := 7\<rparr>"
  have "w_sent (watch_round (pg_Watch plain_engine ''Agent'' empty_list_options) ?s (watch_start 0)) =
      [\<lparr>we_Type = WatchAdded, we_ResourceVersion = 1, we_Object = ?x\<rparr>]"
    unfolding pg_writes_1
    by (simp add: watch_round_def pg_Watch_def pg_watch_due_def empty_list_options_def poll_limit_def sample_defs
        pageTokenSep_def watch_emit_def classifyWatchEvent_def watch_start_def Let_def)
  then show ?thesis
    using pg_wr_writes_1 pg_List2_writes_1 by force
qed

end
